(* ===== verification/Prelude.thy ===== *)
theory Prelude
  imports Complex_Main "HOL-Library.Word" "HOL-Library.Log_Nat"
begin

text \<open>
  What the component theories share: the machine integer types, C++ exceptions as values with
  their sequencing, the standard library templates \<open>std::min\<close>, \<open>std::max\<close>, \<open>std::clamp\<close>, the
  narrowing conversion to \<open>int\<close>, and the collections of facts the component proofs use.
\<close>

unbundle bit_operations_syntax

section \<open>Machine integers and byte arrays\<close>

type_synonym u8 = "8 word"
type_synonym u16 = "16 word"
type_synonym u32 = "32 word"
type_synonym u64 = "64 word"

type_synonym bytes = "u8 list"

named_theorems float_eval \<open>equations that evaluate binary64 arithmetic on literals\<close>
named_theorems frame_simps \<open>fields of the frames the codec builds\<close>
named_theorems step_defs \<open>definitions of the operations of a state machine\<close>

section \<open>Exceptions as values\<close>

text \<open>
  The exceptions the sources throw. The text of a \<open>std::runtime_error\<close> that only reports a
  failure is kept as its literal; the Panda checksum failure carries the numbers its text prints.
  \<open>Undefined_behaviour\<close> is a step the C++ standard leaves undefined; the lemmas show where it is
  out of reach. \<open>Budget_exhausted\<close> is the end of the iterations a waiting loop is given in the model;
  the lemmas show how many are enough.
\<close>

datatype exn =
    Invalid_argument string
  | Out_of_range string
  | Runtime_error string
  | Logic_error string
  | Panda_checksum_failure nat nat nat bytes
  | Undefined_behaviour
  | Budget_exhausted

text \<open>Sequencing: an exception skips the rest.\<close>

fun ebind :: "'e + 'a \<Rightarrow> ('a \<Rightarrow> 'e + 'b) \<Rightarrow> 'e + 'b" where
  "ebind (Inl e) f = Inl e"
| "ebind (Inr x) f = f x"

lemma ebind_eq_Inr: "ebind m f = Inr y \<longleftrightarrow> (\<exists>x. m = Inr x \<and> f x = Inr y)"
  by (cases m) auto

lemma ebind_assoc: "ebind (ebind m f) g = ebind m (\<lambda>x. ebind (f x) g)"
  by (cases m) auto

lemma ebind_Inr [simp]: "ebind m Inr = m"
  by (cases m) auto

fun is_Inr :: "'e + 'a \<Rightarrow> bool" where
  "is_Inr (Inl e) = False"
| "is_Inr (Inr x) = True"

lemma is_Inr_iff: "is_Inr m \<longleftrightarrow> (\<exists>x. m = Inr x)"
  by (cases m) auto

section \<open>std::min, std::max and std::clamp\<close>

text \<open>
  As the standard library states them, by \<open><\<close> alone: for a type with incomparable values (a NaN)
  the first argument is the result.
\<close>

definition cmin :: "'a::ord \<Rightarrow> 'a \<Rightarrow> 'a" where
  "cmin a b = (if b < a then b else a)"

definition cmax :: "'a::ord \<Rightarrow> 'a \<Rightarrow> 'a" where
  "cmax a b = (if a < b then b else a)"

definition cclamp :: "'a::ord \<Rightarrow> 'a \<Rightarrow> 'a \<Rightarrow> 'a" where
  "cclamp v lo hi = (if v < lo then lo else if hi < v then hi else v)"

lemma cclamp_bounds:
  fixes v :: "'a::linorder"
  assumes "lo \<le> hi"
  shows "lo \<le> cclamp v lo hi" and "cclamp v lo hi \<le> hi"
  using assms by (auto simp: cclamp_def)

lemma cclamp_id: "lo \<le> v \<Longrightarrow> v \<le> hi \<Longrightarrow> cclamp v lo hi = v"
  for v :: "'a::linorder"
  by (auto simp: cclamp_def)

lemma cclamp_int_bounds:
  "- m \<le> cclamp v (- m) m" "cclamp v (- m) m \<le> m" if "0 \<le> m" for v m :: int
  using that by (auto simp: cclamp_def)

section \<open>Narrowing to int\<close>

text \<open>
  \<open>static_cast<int>\<close> of a wider integer, as every supported compiler does it: modulo \<open>2 ^ 32\<close>,
  read in two's complement.
\<close>

definition to_int32 :: "int \<Rightarrow> int" where
  "to_int32 x = (x + 2 ^ 31) mod 2 ^ 32 - 2 ^ 31"

lemma to_int32_range: "- (2 ^ 31) \<le> to_int32 x" "to_int32 x < 2 ^ 31"
  by (simp_all add: to_int32_def)

lemma to_int32_id: "- (2 ^ 31) \<le> x \<Longrightarrow> x < 2 ^ 31 \<Longrightarrow> to_int32 x = x"
  by (simp add: to_int32_def)

section \<open>Lists\<close>

lemma nth_eq_take_drop: "length xs = n \<Longrightarrow> take n (xs @ ys) = xs"
  by simp

lemma list_update_same_length_eq:
  "length xs = length ys \<Longrightarrow> (\<And>i. i < length xs \<Longrightarrow> xs ! i = ys ! i) \<Longrightarrow> xs = ys"
  by (rule nth_equalityI)

section \<open>Reachable states\<close>

inductive reach :: "('s \<Rightarrow> bool) \<Rightarrow> ('s \<Rightarrow> 's \<Rightarrow> bool) \<Rightarrow> 's \<Rightarrow> bool" for init step where
  reach_init: "init s \<Longrightarrow> reach init step s"
| reach_step: "reach init step s \<Longrightarrow> step s t \<Longrightarrow> reach init step t"

text \<open>An invariant of a state machine: it holds at the start and every step keeps it.\<close>

locale machine_invariant =
  fixes init :: "'s \<Rightarrow> bool" and step :: "'s \<Rightarrow> 's \<Rightarrow> bool" and inv :: "'s \<Rightarrow> bool"
  assumes inv_init: "init s \<Longrightarrow> inv s"
    and inv_step: "inv s \<Longrightarrow> step s t \<Longrightarrow> inv t"
begin

lemma reachable_inv: "reach init step s \<Longrightarrow> inv s"
  by (induction rule: reach.induct) (auto intro: inv_init inv_step)

lemma invariant_consequence: "reach init step s \<Longrightarrow> (\<And>t. inv t \<Longrightarrow> P t) \<Longrightarrow> P s"
  using reachable_inv by blast

end

text \<open>A machine that consumes a list of inputs and answers each.\<close>

fun run :: "('i \<Rightarrow> 's \<Rightarrow> 's \<times> 'o) \<Rightarrow> 'i list \<Rightarrow> 's \<Rightarrow> 's \<times> 'o list" where
  "run f [] s = (s, [])"
| "run f (i # is) s =
     (case f i s of (t, o1) \<Rightarrow> case run f is t of (u, os) \<Rightarrow> (u, o1 # os))"

text \<open>A predicate kept by the inputs of a class, and what it implies of every answer to them.\<close>

locale run_invariant =
  fixes f :: "'i \<Rightarrow> 's \<Rightarrow> 's \<times> 'o" and admissible :: "'i \<Rightarrow> bool" and inv :: "'s \<Rightarrow> bool"
    and good :: "'o \<Rightarrow> bool"
  assumes run_step: "inv s \<Longrightarrow> admissible i \<Longrightarrow> inv (fst (f i s)) \<and> good (snd (f i s))"
begin

lemma run_good:
  "inv s \<Longrightarrow> list_all admissible is \<Longrightarrow> inv (fst (run f is s)) \<and> list_all good (snd (run f is s))"
proof (induction "is" arbitrary: s)
  case (Cons i "is")
  have step: "inv (fst (f i s))" "good (snd (f i s))" using run_step [of s i] Cons.prems by simp_all
  with Cons.IH [OF step(1)] Cons.prems show ?case by (simp add: case_prod_beta)
qed simp

end

end
