(* ===== verification/Binary64.thy ===== *)
theory Binary64
  imports Prelude
begin

text \<open>
  The C++ type \<open>double\<close>: IEEE 754 binary64 with round-to-nearest, ties to even, executable on
  rationals. A finite double is the rational it denotes; \<open>+0\<close> and \<open>-0\<close> are the same value,
  which no modelled code tells apart (no divisor is zero and the one \<open>std::copysign\<close> takes its
  sign from a number above 0.2 in size). Each operation rounds once: the targets are x86-64
  builds without contraction or extended precision. \<open>std::tan\<close>, \<open>std::atan\<close> and the result of
  \<open>std::lround\<close> outside \<open>long\<close> are not fixed by the language, so they are parameters.
\<close>

section \<open>Rounding\<close>

datatype double = Fin rat | PInf | NInf | NaN

text \<open>Round to the nearest integer, ties to even.\<close>

definition rne :: "rat \<Rightarrow> int" where
  "rne x =
     (let f = \<lfloor>x\<rfloor>; d = x - of_int f
      in if d < 1 / 2 then f else if 1 / 2 < d then f + 1 else if even f then f else f + 1)"

text \<open>The binary exponent of a positive rational.\<close>

definition expo :: "rat \<Rightarrow> int" where
  "expo q =
     (if 1 \<le> q then int (floorlog 2 (nat \<lfloor>q\<rfloor>)) - 1
      else - int (floorlog 2 (nat (\<lceil>1 / q\<rceil> - 1))))"

text \<open>The weight of the last place at the size of \<open>q\<close>: 53 significant bits, least exponent
  \<open>-1022\<close>, below which the numbers are subnormal.\<close>

definition quantum :: "rat \<Rightarrow> rat" where
  "quantum q = 2 powi (max (expo \<bar>q\<bar>) (- 1022) - 52)"

definition rval :: "rat \<Rightarrow> rat" where
  "rval q = of_int (rne (q / quantum q)) * quantum q"

definition rnd :: "rat \<Rightarrow> double" where
  "rnd q = (let v = rval q in if 2 ^ 1024 \<le> v then PInf else if v \<le> - (2 ^ 1024) then NInf else Fin v)"

subsection \<open>Rounding to an integer\<close>

lemma rne_of_int [simp]: "rne (of_int n) = n"
  by (simp add: rne_def)

lemma rne_error: "\<bar>of_int (rne x) - x\<bar> \<le> 1 / 2"
proof -
  have "of_int \<lfloor>x\<rfloor> \<le> x" "x < of_int \<lfloor>x\<rfloor> + 1" by linarith+
  then show ?thesis by (auto simp: rne_def Let_def abs_le_iff)
qed

lemma rne_lower: "of_int n \<le> x \<Longrightarrow> n \<le> rne x"
proof -
  assume "of_int n \<le> x"
  then have "n \<le> \<lfloor>x\<rfloor>" by (simp add: le_floor_iff)
  then show ?thesis by (auto simp: rne_def Let_def)
qed

lemma rne_upper: "x \<le> of_int n \<Longrightarrow> rne x \<le> n"
proof -
  assume le: "x \<le> of_int n"
  show ?thesis
  proof (cases "x = of_int n")
    case False
    with le have "\<lfloor>x\<rfloor> < n" by (simp add: floor_less_iff)
    then show ?thesis by (auto simp: rne_def Let_def)
  qed simp
qed

lemma rne_mono: "x \<le> y \<Longrightarrow> rne x \<le> rne y"
proof -
  assume le: "x \<le> y"
  then have fl: "\<lfloor>x\<rfloor> \<le> \<lfloor>y\<rfloor>" by (rule floor_mono)
  show ?thesis
  proof (cases "\<lfloor>x\<rfloor> = \<lfloor>y\<rfloor>")
    case True
    with le show ?thesis by (auto simp: rne_def Let_def)
  next
    case False
    with fl have "\<lfloor>x\<rfloor> + 1 \<le> \<lfloor>y\<rfloor>" by simp
    moreover have "rne x \<le> \<lfloor>x\<rfloor> + 1" "\<lfloor>y\<rfloor> \<le> rne y" by (auto simp: rne_def Let_def)
    ultimately show ?thesis by linarith
  qed
qed

lemma rne_minus: "rne (- x) = - rne x"
proof (cases "x = of_int \<lfloor>x\<rfloor>")
  case True
  then have "rne (- x) = rne (of_int (- \<lfloor>x\<rfloor>))" "rne x = rne (of_int \<lfloor>x\<rfloor>)" by simp_all
  then show ?thesis by (metis rne_of_int)
next
  case False
  have "of_int \<lfloor>x\<rfloor> \<le> x" by simp
  with False have "of_int \<lfloor>x\<rfloor> < x" by linarith
  then have "\<lfloor>- x\<rfloor> = - \<lfloor>x\<rfloor> - 1"
    by (intro floor_unique) (simp_all, linarith)
  then show ?thesis by (auto simp: rne_def Let_def)
qed

subsection \<open>The exponent\<close>

lemma powi_less_iff: "(2::rat) powi a < 2 powi b \<longleftrightarrow> a < b"
proof
  assume *: "(2::rat) powi a < 2 powi b"
  show "a < b"
  proof (rule ccontr)
    assume "\<not> a < b"
    then have "(2::rat) powi b \<le> 2 powi a" by (intro power_int_increasing) simp_all
    with * show False by simp
  qed
qed (simp add: power_int_strict_increasing)

lemma powi_nat: "(2::rat) powi int n = 2 ^ n"
  by simp

lemma pow2_le_of_nat: "2 ^ k \<le> n \<Longrightarrow> (2::rat) ^ k \<le> of_nat n"
  by (metis of_nat_le_iff of_nat_numeral of_nat_power)

lemma of_nat_less_pow2: "n < 2 ^ k \<Longrightarrow> of_nat n + 1 \<le> (2::rat) ^ k"
proof -
  assume "n < 2 ^ k"
  then have "of_nat (Suc n) \<le> (of_nat (2 ^ k) :: rat)" unfolding of_nat_le_iff by simp
  then show ?thesis by simp
qed

lemma expo_bounds:
  assumes "0 < q"
  shows "2 powi expo q \<le> q" and "q < 2 powi (expo q + 1)"
proof -
  have "2 powi expo q \<le> q \<and> q < 2 powi (expo q + 1)"
  proof (cases "1 \<le> q")
    case True
    define n where "n = nat \<lfloor>q\<rfloor>"
    have n: "0 < n" using True by (simp add: n_def)
    have nq: "of_nat n \<le> q" "q < of_nat n + 1"
      using True by (simp_all add: n_def, linarith)
    obtain k where k: "floorlog 2 n = Suc k"
      using n by (cases "floorlog 2 n") (simp_all add: floorlog_eq_zero_iff)
    have b: "2 ^ k \<le> n" "n < 2 ^ Suc k"
      using floorlog_bounds [OF n, of 2] k by simp_all
    have e: "expo q = int k" using True k by (simp add: expo_def n_def)
    have "(2::rat) ^ k \<le> of_nat n" using b(1) by (rule pow2_le_of_nat)
    moreover have "of_nat n + 1 \<le> (2::rat) ^ Suc k" using b(2) by (rule of_nat_less_pow2)
    ultimately have "2 ^ k \<le> q" "q < 2 ^ Suc k" using nq by linarith+
    then show ?thesis using e by (simp add: power_int_def nat_add_distrib)
  next
    case False
    define n where "n = nat (\<lceil>1 / q\<rceil> - 1)"
    define k where "k = floorlog 2 n"
    have q1: "1 < 1 / q" using False assms by simp
    have c: "2 \<le> \<lceil>1 / q\<rceil>" using q1 by linarith
    from c have n: "0 < n" unfolding n_def by linarith
    from c have ni: "int n = \<lceil>1 / q\<rceil> - 1" unfolding n_def by linarith
    have b: "2 ^ (k - 1) \<le> n" "n < 2 ^ k"
      using floorlog_bounds [OF n, of 2] by (simp_all add: k_def)
    have k0: "0 < k" using b n by (cases k) auto
    have "of_nat n < 1 / q" using ni by linarith
    with pow2_le_of_nat [OF b(1)] have lo: "(2::rat) ^ (k - 1) < 1 / q" by linarith
    have "1 / q \<le> of_nat n + 1" using ni by linarith
    with of_nat_less_pow2 [OF b(2)] have hi: "1 / q \<le> (2::rat) ^ k" by linarith
    have e: "expo q = - int k" using False by (simp add: expo_def n_def k_def)
    have pk: "2 powi (- int j) = 1 / (2::rat) ^ j" for j
      by (simp only: power_int_minus powi_nat inverse_eq_divide)
    have e1: "expo q + 1 = - int (k - 1)" using k0 e by linarith
    have "2 powi expo q \<le> q" unfolding e pk using hi assms by (simp add: divide_le_eq le_divide_eq mult.commute)
    moreover have "q < 2 powi (expo q + 1)"
      unfolding e1 pk using lo assms by (simp add: less_divide_eq mult.commute)
    ultimately show ?thesis by simp
  qed
  then show "2 powi expo q \<le> q" and "q < 2 powi (expo q + 1)" by simp_all
qed

lemma expo_eqI:
  assumes "2 powi e \<le> q" and "q < 2 powi (e + 1)"
  shows "expo q = e"
proof -
  have "0 < q" using assms(1) by (rule less_le_trans [rotated]) simp
  note b = expo_bounds [OF this]
  have "2 powi e < (2::rat) powi (expo q + 1)" "2 powi expo q < (2::rat) powi (e + 1)"
    using assms b by linarith+
  then have "e < expo q + 1" "expo q < e + 1"
    by (simp_all add: powi_less_iff)
  then show ?thesis by simp
qed

lemma expo_mono:
  assumes "0 < q" and "q \<le> r"
  shows "expo q \<le> expo r"
proof -
  have "0 < r" using assms by simp
  then have "2 powi expo q < (2::rat) powi (expo r + 1)"
    using expo_bounds [of q] expo_bounds [of r] assms by linarith
  then show ?thesis by (simp add: powi_less_iff)
qed

subsection \<open>The rounded value\<close>

lemma quantum_pos [simp]: "0 < quantum q"
  by (simp add: quantum_def)

lemma rval_0 [simp]: "rval 0 = 0"
  using rne_of_int [of 0] by (simp add: rval_def)

lemma rval_minus: "rval (- q) = - rval q"
  by (simp add: rval_def quantum_def rne_minus)

lemma rval_nonneg: "0 \<le> q \<Longrightarrow> 0 \<le> rval q"
proof -
  assume "0 \<le> q"
  then have "of_int 0 \<le> q / quantum q" by (simp add: less_imp_le)
  then have "0 \<le> rne (q / quantum q)" by (rule rne_lower)
  then show ?thesis by (simp add: rval_def less_imp_le)
qed

lemma powi_div: "(2::rat) powi a / 2 powi b = 2 powi (a - b)"
  by (simp add: power_int_diff)

text \<open>Every number with at most 53 significant bits above the subnormal grid is exact.\<close>

lemma rval_exact_pos:
  assumes m: "0 < m" "m \<le> 2 ^ 53" and f: "- 1022 \<le> f" and v: "v = of_int m * 2 powi (f - 52)"
  shows "rval v = v"
proof -
  define e where "e = max (expo v) (- 1022)"
  have pos: "0 < v" using m v by simp
  have q: "quantum v = 2 powi (e - 52)" using pos by (simp add: quantum_def e_def)
  have ve: "v < 2 powi (f + 2)"
  proof -
    have "of_int m \<le> (2::rat) ^ 53" using m(2) by (metis of_int_le_iff of_int_numeral of_int_power)
    then have "v \<le> 2 ^ 53 * 2 powi (f - 52)" unfolding v by (rule mult_right_mono) simp
    also have "\<dots> = 2 powi (53 + (f - 52))" by (subst power_int_add) simp_all
    also have "\<dots> < 2 powi (f + 2)" by (rule power_int_strict_increasing) simp_all
    finally show ?thesis .
  qed
  show ?thesis
  proof (cases "e \<le> f")
    case True
    define k where "k = nat (f - e)"
    have "v / quantum v = of_int m * (2 powi (f - 52) / 2 powi (e - 52))"
      unfolding q by (simp add: v)
    also have "\<dots> = of_int m * 2 powi (f - e)" by (simp add: powi_div)
    also have "\<dots> = of_int (m * 2 ^ k)" using True by (simp add: k_def power_int_def)
    finally have "v / quantum v = of_int (m * 2 ^ k)" .
    then have "rval v = v / quantum v * quantum v" by (simp only: rval_def rne_of_int)
    then show ?thesis by (simp add: less_imp_neq [symmetric] quantum_pos [THEN less_imp_neq, symmetric])
  next
    case False
    then have ex: "f < expo v" "e = expo v" using f by (auto simp: e_def max_def split: if_splits)
    have "2 powi expo v < (2::rat) powi (f + 2)" using expo_bounds(1) [OF pos] ve by linarith
    then have "expo v < f + 2" by (simp add: powi_less_iff)
    with ex have e1: "e = f + 1" by simp
    have "2 powi (f + 1) \<le> v" using expo_bounds(1) [OF pos] ex e1 by simp
    then have "(2::rat) powi (f + 1) / 2 powi (f - 52) \<le> of_int m"
      unfolding v by (subst pos_divide_le_eq) simp_all
    then have "(2::rat) powi (int 53) \<le> of_int m" by (simp add: powi_div del: of_nat_numeral)
    then have "2 ^ 53 \<le> m" by (metis of_int_le_iff of_int_numeral of_int_power powi_nat)
    with m have "m = 2 ^ 53" by simp
    then have "v / quantum v = 2 ^ 53 * (2 powi (f - 52) / 2 powi (e - 52))"
      unfolding q by (simp add: v)
    also have "\<dots> = 2 ^ 53 * 2 powi (- 1)" by (simp add: powi_div e1)
    also have "\<dots> = of_int (2 ^ 52)" by (simp add: power_int_def)
    finally have "v / quantum v = of_int (2 ^ 52)" .
    then have "rval v = v / quantum v * quantum v" by (simp only: rval_def rne_of_int)
    then show ?thesis by (simp add: quantum_pos [THEN less_imp_neq, symmetric])
  qed
qed

lemma rval_exact:
  assumes m: "\<bar>m\<bar> \<le> 2 ^ 53" and f: "- 1022 \<le> f" and v: "v = of_int m * 2 powi (f - 52)"
  shows "rval v = v"
proof -
  consider "m = 0" | "0 < m" | "m < 0" by linarith
  then show ?thesis
  proof cases
    case 1 then show ?thesis using v by simp
  next
    case 2 then show ?thesis using rval_exact_pos [of m f v] m f v by simp
  next
    case 3
    then have "rval (- v) = - v" using rval_exact_pos [of "- m" f "- v"] m f v by simp
    then show ?thesis by (simp add: rval_minus)
  qed
qed

lemma rval_of_int: "\<bar>m\<bar> \<le> 2 ^ 53 \<Longrightarrow> rval (of_int m) = of_int m"
  by (rule rval_exact [of m 52]) simp_all

text \<open>The exponent at which a number is rounded, and the size of the significand there.\<close>

definition rexp :: "rat \<Rightarrow> int" where
  "rexp q = max (expo \<bar>q\<bar>) (- 1022)"

lemma quantum_eq: "quantum q = 2 powi (rexp q - 52)"
  by (simp add: quantum_def rexp_def)

lemma rexp_ge: "- 1022 \<le> rexp q"
  by (simp add: rexp_def)

lemma less_powi_rexp: "0 < q \<Longrightarrow> q < 2 powi (rexp q + 1)"
proof -
  assume "0 < q"
  then have "q < 2 powi (expo q + 1)" by (rule expo_bounds)
  also have "\<dots> \<le> 2 powi (rexp q + 1)" using \<open>0 < q\<close> by (intro power_int_increasing) (simp_all add: rexp_def)
  finally show ?thesis .
qed

lemma powi_53: "(2::rat) powi (rexp q + 1) = of_int (2 ^ 53) * quantum q"
proof -
  have "rexp q + 1 = int 53 + (rexp q - 52)" by simp
  then have "(2::rat) powi (rexp q + 1) = 2 powi int 53 * 2 powi (rexp q - 52)"
    by (metis power_int_add zero_neq_numeral)
  then show ?thesis by (simp add: quantum_eq powi_nat del: of_nat_numeral)
qed

lemma significand_le: "\<bar>rne (q / quantum q)\<bar> \<le> 2 ^ 53"
proof -
  have pos: "\<bar>rne (r / quantum r)\<bar> \<le> 2 ^ 53" if "0 < r" for r
  proof -
    have "r / quantum r \<le> of_int (2 ^ 53)"
      using less_powi_rexp [OF that] powi_53 [of r] by (simp add: pos_divide_le_eq)
    then have "rne (r / quantum r) \<le> 2 ^ 53" by (rule rne_upper)
    moreover have "0 \<le> rne (r / quantum r)" using that by (intro rne_lower) (simp add: less_imp_le)
    ultimately show ?thesis by simp
  qed
  consider "q = 0" | "0 < q" | "0 < - q" by linarith
  then show ?thesis
  proof cases
    case 1 then show ?thesis using rne_of_int [of 0] by simp
  next
    case 2 then show ?thesis by (rule pos)
  next
    case 3
    from pos [OF this] show ?thesis by (simp add: quantum_def rne_minus)
  qed
qed

text \<open>Rounding a rounded value changes nothing.\<close>

lemma rval_idem: "rval (rval q) = rval q"
  by (rule rval_exact [OF significand_le [of q] rexp_ge [of q]]) (simp add: rval_def quantum_eq)

text \<open>Rounding is monotone.\<close>

lemma rval_mono_pos:
  assumes "0 < q" and "q \<le> r"
  shows "rval q \<le> rval r"
proof -
  have r: "0 < r" using assms by simp
  have "rexp q \<le> rexp r" using expo_mono [OF assms] assms r by (simp add: rexp_def)
  show ?thesis
  proof (cases "rexp q = rexp r")
    case True
    then have "quantum q = quantum r" by (simp add: quantum_eq)
    moreover have "rne (q / quantum r) \<le> rne (r / quantum r)"
      using assms by (intro rne_mono divide_right_mono) (simp_all add: less_imp_le)
    ultimately show ?thesis by (simp add: rval_def less_imp_le)
  next
    case False
    with \<open>rexp q \<le> rexp r\<close> have lt: "rexp q + 1 \<le> rexp r" by simp
    then have e: "expo r = rexp r" using rexp_ge [of q] r by (simp add: rexp_def)
    have "of_int (rne (q / quantum q)) \<le> (of_int (2 ^ 53) :: rat)"
      unfolding of_int_le_iff using significand_le [of q] by linarith
    then have "rval q \<le> of_int (2 ^ 53) * quantum q"
      unfolding rval_def by (rule mult_right_mono) (simp add: less_imp_le)
    also have "\<dots> = 2 powi (rexp q + 1)" by (simp only: powi_53)
    also have "\<dots> \<le> 2 powi rexp r" using lt by (intro power_int_increasing) simp_all
    also have "\<dots> \<le> rval r"
    proof -
      have w: "2 powi rexp r = of_int (2 ^ 52) * quantum r"
      proof -
        have "rexp r = int 52 + (rexp r - 52)" by simp
        then have "(2::rat) powi rexp r = 2 powi int 52 * 2 powi (rexp r - 52)"
          by (metis power_int_add zero_neq_numeral)
        then show ?thesis by (simp add: quantum_eq powi_nat del: of_nat_numeral)
      qed
      have "2 powi rexp r \<le> r" using expo_bounds(1) [OF r] e by simp
      then have "of_int (2 ^ 52) \<le> r / quantum r" unfolding w by (simp add: pos_le_divide_eq)
      then have "2 ^ 52 \<le> rne (r / quantum r)" by (rule rne_lower)
      then have "of_int (2 ^ 52) \<le> (of_int (rne (r / quantum r)) :: rat)" unfolding of_int_le_iff .
      then show ?thesis unfolding w rval_def by (rule mult_right_mono) (simp add: less_imp_le)
    qed
    finally show ?thesis .
  qed
qed

lemma rval_mono: "q \<le> r \<Longrightarrow> rval q \<le> rval r"
proof -
  assume le: "q \<le> r"
  consider "0 < q" | "q \<le> 0" "0 \<le> r" | "r < 0" by linarith
  then show ?thesis
  proof cases
    case 1 then show ?thesis using le by (rule rval_mono_pos)
  next
    case 2
    then have "0 \<le> rval r" "0 \<le> rval (- q)" by (simp_all add: rval_nonneg)
    then show ?thesis by (simp add: rval_minus)
  next
    case 3
    then have "rval (- r) \<le> rval (- q)" using le by (intro rval_mono_pos) simp_all
    then show ?thesis by (simp add: rval_minus)
  qed
qed

lemma rval_error: "\<bar>rval q - q\<bar> \<le> quantum q / 2"
proof -
  have "\<bar>rval q - q\<bar> = \<bar>of_int (rne (q / quantum q)) - q / quantum q\<bar> * quantum q"
    unfolding rval_def by (simp add: abs_mult_pos less_imp_le left_diff_distrib
        quantum_pos [THEN less_imp_neq, symmetric])
  also have "\<dots> \<le> 1 / 2 * quantum q"
    by (intro mult_right_mono rne_error) (simp add: less_imp_le)
  finally show ?thesis by simp
qed

text \<open>A number below a power of two in size is rounded by at most half its last place.\<close>

lemma rval_error_bound:
  assumes "\<bar>q\<bar> < 2 ^ n"
  shows "\<bar>rval q - q\<bar> \<le> 2 ^ n / 2 ^ 53"
proof (cases "q = 0")
  case False
  then have pos: "0 < \<bar>q\<bar>" by simp
  have "2 powi expo \<bar>q\<bar> < (2::rat) powi int n"
    using expo_bounds(1) [OF pos] assms powi_nat [of n] by linarith
  then have "expo \<bar>q\<bar> < int n" by (simp only: powi_less_iff)
  then have "quantum q \<le> 2 powi (int n - 53)"
    unfolding quantum_def by (intro power_int_increasing) simp_all
  also have "(2::rat) powi (int n - 53) = 2 ^ n / 2 ^ 53"
    using powi_div [of "int n" 53] by simp
  finally have "quantum q \<le> 2 ^ n / 2 ^ 53" .
  with rval_error [of q] quantum_pos [of q] show ?thesis by linarith
qed simp

section \<open>Doubles\<close>

text \<open>The doubles proper: a finite value is one that rounding keeps.\<close>

fun b64 :: "double \<Rightarrow> bool" where
  "b64 (Fin q) \<longleftrightarrow> rnd q = Fin q"
| "b64 _ \<longleftrightarrow> True"

lemma rnd_Fin: "rnd q = Fin v \<Longrightarrow> v = rval q"
  by (auto simp: rnd_def Let_def split: if_splits)

lemma rnd_cases: "rnd q = PInf \<or> rnd q = NInf \<or> rnd q = Fin (rval q)"
  by (auto simp: rnd_def Let_def)

lemma b64_rnd [simp]: "b64 (rnd q)"
proof -
  have "rnd v = Fin v" if "rnd q = Fin v" for v
    using that rval_idem [of q] by (auto simp: rnd_def Let_def split: if_splits)
  then show ?thesis using rnd_cases [of q] by (cases "rnd q") auto
qed

lemma rnd_exact: "rval v = v \<Longrightarrow> \<bar>v\<bar> < 2 ^ 1024 \<Longrightarrow> rnd v = Fin v"
  by (auto simp: rnd_def Let_def abs_less_iff)

lemma rnd_of_int [simp]:
  assumes "\<bar>m\<bar> \<le> 2 ^ 53"
  shows "rnd (of_int m) = Fin (of_int m)"
proof (rule rnd_exact)
  show "rval (of_int m) = of_int m" using assms by (rule rval_of_int)
  have "\<bar>of_int m :: rat\<bar> = of_int \<bar>m\<bar>" by simp
  also have "\<dots> \<le> of_int (2 ^ 53)" using assms unfolding of_int_le_iff .
  also have "\<dots> < (2::rat) ^ 1024" by simp
  finally show "\<bar>of_int m :: rat\<bar> < 2 ^ 1024" .
qed

lemma rnd_bounded:
  assumes "\<bar>q\<bar> \<le> 2 ^ n" and "n < 1024"
  shows "rnd q = Fin (rval q)" and "\<bar>rval q\<bar> \<le> 2 ^ n"
proof -
  have ex: "rval (2 ^ n) = 2 ^ n"
    by (rule rval_exact [of 1 "int n + 52"]) simp_all
  have "rval q \<le> rval (2 ^ n)" "rval (- q) \<le> rval (2 ^ n)"
    using assms by (auto intro: rval_mono)
  then show b: "\<bar>rval q\<bar> \<le> 2 ^ n" by (simp add: ex rval_minus)
  have "(2::rat) ^ n < 2 ^ 1024" using assms(2) by (intro power_strict_increasing) simp_all
  with b show "rnd q = Fin (rval q)" unfolding rnd_def Let_def by auto
qed

section \<open>Arithmetic and comparison\<close>

instantiation double :: "{plus, minus, uminus, times, inverse, ord}"
begin

fun uminus_double :: "double \<Rightarrow> double" where
  "- Fin a = Fin (- a)"
| "- PInf = NInf"
| "- NInf = PInf"
| "- NaN = NaN"

fun plus_double :: "double \<Rightarrow> double \<Rightarrow> double" where
  "Fin a + Fin b = rnd (a + b)"
| "NaN + y = NaN"
| "x + NaN = NaN"
| "PInf + NInf = NaN"
| "NInf + PInf = NaN"
| "PInf + y = PInf"
| "x + PInf = PInf"
| "NInf + y = NInf"
| "x + NInf = NInf"

definition minus_double :: "double \<Rightarrow> double \<Rightarrow> double" where
  "x - y = x + (- y :: double)"

text \<open>An infinity with the sign of \<open>s\<close>; \<open>0\<close> times an infinity is no number.\<close>

fun times_double :: "double \<Rightarrow> double \<Rightarrow> double" where
  "Fin a * Fin b = rnd (a * b)"
| "NaN * y = NaN"
| "x * NaN = NaN"
| "Fin a * PInf = (if a = 0 then NaN else if 0 < a then PInf else NInf)"
| "Fin a * NInf = (if a = 0 then NaN else if 0 < a then NInf else PInf)"
| "PInf * Fin b = (if b = 0 then NaN else if 0 < b then PInf else NInf)"
| "NInf * Fin b = (if b = 0 then NaN else if 0 < b then NInf else PInf)"
| "PInf * PInf = PInf"
| "PInf * NInf = NInf"
| "NInf * PInf = NInf"
| "NInf * NInf = PInf"

fun divide_double :: "double \<Rightarrow> double \<Rightarrow> double" where
  "Fin a div Fin b =
     (if b = 0 then (if a = 0 then NaN else if 0 < a then PInf else NInf) else rnd (a / b))"
| "NaN div y = NaN"
| "x div NaN = NaN"
| "Fin a div PInf = Fin 0"
| "Fin a div NInf = Fin 0"
| "PInf div Fin b = (if 0 \<le> b then PInf else NInf)"
| "NInf div Fin b = (if 0 \<le> b then NInf else PInf)"
| "PInf div PInf = NaN"
| "PInf div NInf = NaN"
| "NInf div PInf = NaN"
| "NInf div NInf = NaN"

definition inverse_double :: "double \<Rightarrow> double" where
  "inverse x = Fin 1 div (x :: double)"

fun less_double :: "double \<Rightarrow> double \<Rightarrow> bool" where
  "Fin a < Fin b \<longleftrightarrow> a < b"
| "NaN < y \<longleftrightarrow> False"
| "x < NaN \<longleftrightarrow> False"
| "PInf < y \<longleftrightarrow> False"
| "x < PInf \<longleftrightarrow> True"
| "x < NInf \<longleftrightarrow> False"
| "NInf < y \<longleftrightarrow> True"

fun less_eq_double :: "double \<Rightarrow> double \<Rightarrow> bool" where
  "Fin a \<le> Fin b \<longleftrightarrow> a \<le> b"
| "NaN \<le> y \<longleftrightarrow> False"
| "x \<le> NaN \<longleftrightarrow> False"
| "x \<le> PInf \<longleftrightarrow> True"
| "PInf \<le> y \<longleftrightarrow> False"
| "NInf \<le> y \<longleftrightarrow> True"
| "x \<le> NInf \<longleftrightarrow> False"

instance ..

end

text \<open>\<open>std::isfinite\<close>, \<open>std::abs\<close>, \<open>std::floor\<close> and \<open>std::copysign\<close> (a NaN's sign bit is taken
  as clear).\<close>

fun isfinite :: "double \<Rightarrow> bool" where
  "isfinite (Fin q) \<longleftrightarrow> True"
| "isfinite _ \<longleftrightarrow> False"

fun dabs :: "double \<Rightarrow> double" where
  "dabs (Fin a) = Fin \<bar>a\<bar>"
| "dabs PInf = PInf"
| "dabs NInf = PInf"
| "dabs NaN = NaN"

fun dfloor :: "double \<Rightarrow> double" where
  "dfloor (Fin a) = rnd (of_int \<lfloor>a\<rfloor>)"
| "dfloor x = x"

fun signbit :: "double \<Rightarrow> bool" where
  "signbit (Fin a) \<longleftrightarrow> a < 0"
| "signbit NInf \<longleftrightarrow> True"
| "signbit _ \<longleftrightarrow> False"

definition copysign :: "double \<Rightarrow> double \<Rightarrow> double" where
  "copysign x y = (if signbit y then - dabs x else dabs x)"

text \<open>Equality as \<open>==\<close> computes it.\<close>

fun deq :: "double \<Rightarrow> double \<Rightarrow> bool" where
  "deq (Fin a) (Fin b) \<longleftrightarrow> a = b"
| "deq PInf PInf \<longleftrightarrow> True"
| "deq NInf NInf \<longleftrightarrow> True"
| "deq _ _ \<longleftrightarrow> False"

text \<open>A conversion from an integer type, and a decimal literal.\<close>

definition of_integer :: "int \<Rightarrow> double" where
  "of_integer i = rnd (of_int i)"

abbreviation lit :: "rat \<Rightarrow> double" where
  "lit \<equiv> rnd"

text \<open>
  The part of the standard library the language does not fix: the two trigonometric functions,
  and what \<open>std::lround\<close> returns where the result does not fit in \<open>long\<close>.
\<close>

record libm =
  lm_tan :: "double \<Rightarrow> double"
  lm_atan :: "double \<Rightarrow> double"
  lm_lround_oor :: "double \<Rightarrow> int"

text \<open>Round half away from zero.\<close>

definition round_half_away :: "rat \<Rightarrow> int" where
  "round_half_away q = (if 0 \<le> q then \<lfloor>q + 1 / 2\<rfloor> else - \<lfloor>- q + 1 / 2\<rfloor>)"

fun lround :: "libm \<Rightarrow> double \<Rightarrow> int" where
  "lround m (Fin q) =
     (let r = round_half_away q
      in if - (2 ^ 63) \<le> r \<and> r < 2 ^ 63 then r else lm_lround_oor m (Fin q))"
| "lround m x = lm_lround_oor m x"

text \<open>The conversion to \<open>uint64_t\<close> truncates; a NaN or a value that does not fit is undefined.\<close>

fun to_uint64 :: "double \<Rightarrow> exn + u64" where
  "to_uint64 (Fin q) =
     (let t = (if 0 \<le> q then \<lfloor>q\<rfloor> else \<lceil>q\<rceil>)
      in if 0 \<le> t \<and> t < 2 ^ 64 then Inr (word_of_int t) else Inl Undefined_behaviour)"
| "to_uint64 x = Inl Undefined_behaviour"

section \<open>Evaluation of literals\<close>

lemma floor_numeral_quotient [float_eval]:
  "\<lfloor>numeral a / numeral b :: rat\<rfloor> = numeral a div numeral b"
  "\<lfloor>- numeral a / numeral b :: rat\<rfloor> = - numeral a div numeral b"
  "\<lfloor>- (numeral a / numeral b) :: rat\<rfloor> = - numeral a div numeral b"
  "\<lfloor>- (1 / numeral b) :: rat\<rfloor> = - 1 div numeral b"
  "\<lfloor>1 / numeral b :: rat\<rfloor> = 1 div numeral b"
  "\<lfloor>- 1 / numeral b :: rat\<rfloor> = - 1 div numeral b"
  using floor_divide_of_int_eq [of "numeral a" "numeral b", where 'a = rat]
    floor_divide_of_int_eq [of "- numeral a" "numeral b", where 'a = rat]
    floor_divide_of_int_eq [of 1 "numeral b", where 'a = rat]
    floor_divide_of_int_eq [of "- 1" "numeral b", where 'a = rat] by simp_all

lemmas [float_eval] =
  rnd_def rval_def quantum_def expo_def rne_def compute_floorlog Let_def power_int_def ceiling_def
  power_divide

lemma rnd_numerals [simp]:
  "rnd 0 = Fin 0" "rnd 1 = Fin 1" "rnd (- 1) = Fin (- 1)"
  using rnd_of_int [of 0] rnd_of_int [of 1] rnd_of_int [of "- 1"] by simp_all

end
