(* ===== verification/Can_Types.thy ===== *)
theory Can_Types
  imports Binary64
begin

text \<open>
  The data types of \<open>include/ioniq5_ecan/types.hpp\<close>: frames, commands, vehicle state, Panda
  health, control states and outputs, with the time points and the sequence comparison. A
  \<open>steady_clock\<close> time point is its count of nanoseconds; a duration in milliseconds is its count.
\<close>

section \<open>Time\<close>

type_synonym time_point = int
type_synonym millis = int

definition ms :: "millis \<Rightarrow> time_point" where
  "ms n = n * 1000000"

definition seconds :: "int \<Rightarrow> time_point" where
  "seconds n = n * 1000000000"

lemma ms_pos: "0 < n \<Longrightarrow> 0 < ms n"
  by (simp add: ms_def)

text \<open>
  The freshness test the code writes in the parser (\<open>recent\<close>), the supervisor, the node and the
  stock frame cache: the stamp was set, is not in the future, and is at most \<open>timeout\<close> old.
\<close>

definition recent :: "time_point \<Rightarrow> time_point \<Rightarrow> millis \<Rightarrow> bool" where
  "recent stamp now timeout \<longleftrightarrow> stamp \<noteq> 0 \<and> stamp \<le> now \<and> now - stamp \<le> ms timeout"

section \<open>Frames and commands\<close>

record can_frame =
  cf_address :: u32
  cf_bus :: u8
  cf_fd :: bool
  cf_extended :: bool
  cf_returned :: bool
  cf_rejected :: bool
  cf_size :: u8
  cf_data :: bytes
  cf_received_at :: time_point

text \<open>\<open>CanFrame{}\<close>: the data array has 64 bytes, always.\<close>

definition empty_frame :: can_frame where
  "empty_frame = \<lparr>cf_address = 0, cf_bus = 0, cf_fd = False, cf_extended = False,
     cf_returned = False, cf_rejected = False, cf_size = 0, cf_data = replicate 64 0,
     cf_received_at = 0\<rparr>"

definition wf_frame :: "can_frame \<Rightarrow> bool" where
  "wf_frame f \<longleftrightarrow> length (cf_data f) = 64"

record command_sample =
  cs_lateral :: double
  cs_acceleration_mps2 :: double
  cs_enable :: bool
  cs_valid :: bool
  cs_sequence :: u32
  cs_received_at :: time_point

definition empty_command :: command_sample where
  "empty_command = \<lparr>cs_lateral = Fin 0, cs_acceleration_mps2 = Fin 0, cs_enable = False,
     cs_valid = False, cs_sequence = 0, cs_received_at = 0\<rparr>"

section \<open>Vehicle state\<close>

record vehicle_state =
  vs_speed_mps :: double
  vs_yaw_rate_deg_s :: double
  vs_lateral_accel_mps2 :: double
  vs_longitudinal_accel_mps2 :: double
  vs_wheel_speed_fl :: double
  vs_wheel_speed_fr :: double
  vs_wheel_speed_rl :: double
  vs_wheel_speed_rr :: double
  vs_steering_angle_deg :: double
  vs_steering_rate_deg_s :: double
  vs_driver_torque :: double
  vs_eps_torque_nm :: double
  vs_accelerator_pedal :: double
  vs_brake_pressed :: bool
  vs_gas_pressed :: bool
  vs_eps_fault :: bool
  vs_acc_fault :: bool
  vs_cruise_engaged :: bool
  vs_standstill :: bool
  vs_gear :: u8
  vs_cruise_button :: u8
  vs_lane_keep_button_pressed :: bool
  vs_lane_keep_button_events :: u64
  vs_set_button_events :: u64
  vs_cancel_button_events :: u64
  vs_valid :: bool
  vs_updated_at :: time_point

definition initial_vehicle :: vehicle_state where
  "initial_vehicle = \<lparr>vs_speed_mps = Fin 0, vs_yaw_rate_deg_s = Fin 0, vs_lateral_accel_mps2 = Fin 0,
     vs_longitudinal_accel_mps2 = Fin 0, vs_wheel_speed_fl = Fin 0, vs_wheel_speed_fr = Fin 0,
     vs_wheel_speed_rl = Fin 0, vs_wheel_speed_rr = Fin 0, vs_steering_angle_deg = Fin 0,
     vs_steering_rate_deg_s = Fin 0, vs_driver_torque = Fin 0, vs_eps_torque_nm = Fin 0,
     vs_accelerator_pedal = Fin 0, vs_brake_pressed = False, vs_gas_pressed = False,
     vs_eps_fault = False, vs_acc_fault = False, vs_cruise_engaged = False, vs_standstill = True,
     vs_gear = 0, vs_cruise_button = 0, vs_lane_keep_button_pressed = False,
     vs_lane_keep_button_events = 0, vs_set_button_events = 0, vs_cancel_button_events = 0,
     vs_valid = False, vs_updated_at = 0\<rparr>"

section \<open>Panda health\<close>

record panda_health =
  ph_command_session_active :: bool
  ph_ignition_on :: bool
  ph_command_session_ready :: bool
  ph_command_session_blocked :: bool
  ph_lateral_selected :: bool
  ph_longitudinal_selected :: bool
  ph_connected :: bool
  ph_controls_allowed :: bool
  ph_heartbeat_lost :: bool
  ph_safety_rx_checks_invalid :: bool
  ph_bus_off :: bool
  ph_faults :: u32
  ph_ignored_faults :: u32
  ph_fault_status :: u8
  ph_harness_status :: u8
  ph_safety_mode :: u8
  ph_safety_param :: u16
  ph_safety_tx_blocked :: u32
  ph_last_rejected_address :: u32
  ph_safety_rx_invalid :: u32
  ph_tx_buffer_overflow :: u32
  ph_rx_buffer_overflow :: u32
  ph_updated_at :: time_point

definition initial_health :: panda_health where
  "initial_health = \<lparr>ph_command_session_active = False, ph_ignition_on = False,
     ph_command_session_ready = False, ph_command_session_blocked = False,
     ph_lateral_selected = False, ph_longitudinal_selected = False, ph_connected = False,
     ph_controls_allowed = False, ph_heartbeat_lost = False, ph_safety_rx_checks_invalid = False,
     ph_bus_off = False, ph_faults = 0, ph_ignored_faults = 0, ph_fault_status = 0,
     ph_harness_status = 0, ph_safety_mode = 0, ph_safety_param = 0, ph_safety_tx_blocked = 0,
     ph_last_rejected_address = 0, ph_safety_rx_invalid = 0, ph_tx_buffer_overflow = 0,
     ph_rx_buffer_overflow = 0, ph_updated_at = 0\<rparr>"

section \<open>Control states and outputs\<close>

datatype control_state = Disconnected | Passive | Armed | Active | Fault | SoftDisabling

text \<open>The published numbers of the states.\<close>

fun state_number :: "control_state \<Rightarrow> u8" where
  "state_number Disconnected = 0"
| "state_number Passive = 1"
| "state_number Armed = 2"
| "state_number Active = 3"
| "state_number Fault = 4"
| "state_number SoftDisabling = 5"

fun state_name :: "control_state \<Rightarrow> string" where
  "state_name Disconnected = ''DISCONNECTED''"
| "state_name Passive = ''PASSIVE''"
| "state_name Armed = ''ARMED''"
| "state_name Active = ''ACTIVE''"
| "state_name Fault = ''FAULT''"
| "state_name SoftDisabling = ''SOFT_DISABLING''"

lemma state_number_inject: "state_number s = state_number t \<longleftrightarrow> s = t"
  by (cases s; cases t) simp_all

lemma state_name_inject: "state_name s = state_name t \<longleftrightarrow> s = t"
  by (cases s; cases t) simp_all

text \<open>The states in the order of their published numbers.\<close>

instantiation control_state :: linorder
begin

definition less_eq_control_state :: "control_state \<Rightarrow> control_state \<Rightarrow> bool" where
  "s \<le> t \<longleftrightarrow> state_number s \<le> state_number t"

definition less_control_state :: "control_state \<Rightarrow> control_state \<Rightarrow> bool" where
  "s < t \<longleftrightarrow> state_number s < state_number t"

instance
  by standard
    (auto simp: less_eq_control_state_def less_control_state_def state_number_inject
      intro: order.not_eq_order_implies_strict)

end

record control_output =
  co_steering_torque :: int
  co_acceleration_mps2 :: double
  co_lateral_active :: bool
  co_steering_request :: bool
  co_longitudinal_active :: bool
  co_stopping :: bool

definition empty_output :: control_output where
  "empty_output = \<lparr>co_steering_torque = 0, co_acceleration_mps2 = Fin 0, co_lateral_active = False,
     co_steering_request = False, co_longitudinal_active = False, co_stopping = False\<rparr>"

section \<open>Sequence numbers\<close>

text \<open>Serial-number comparison with wrap-around; 0 stands for a publisher without numbers.\<close>

definition sequence_is_newer :: "u32 \<Rightarrow> u32 \<Rightarrow> bool" where
  "sequence_is_newer candidate previous \<longleftrightarrow>
     (if candidate = 0 \<or> previous = 0 then True
      else let delta = candidate - previous in delta \<noteq> 0 \<and> delta < 0x80000000)"

text \<open>Of a difference and its opposite, at most one is in the lower half.\<close>

lemma word32_half: "d < 0x80000000 \<Longrightarrow> \<not> - d < 0x80000000" if "d \<noteq> 0" for d :: u32
proof -
  assume "d < 0x80000000"
  then have "uint d < 2147483648" by (simp add: word_less_def)
  moreover have "0 < uint d" using that by (simp add: word_neq_0_conv [symmetric] uint_0_iff less_le)
  moreover have "uint (- d) = (- uint d) mod 2 ^ 32" by (simp add: uint_word_ariths)
  ultimately have "uint (- d) = 2 ^ 32 - uint d" by (simp add: mod_pos_neg_trivial zmod_zminus1_eq_if)
  then show ?thesis using \<open>uint d < 2147483648\<close> by (simp add: word_less_def)
qed

end
