(* ===== verification/Bit_Codec.thy ===== *)
theory Bit_Codec
  imports Can_Types
begin

text \<open>
  The bit fields of a CAN payload (\<open>include/ioniq5_ecan/bit_codec.hpp\<close>): \<open>set_signal\<close>,
  \<open>get_signal\<close> and \<open>sign_extend\<close>, bit by bit as the loops write and read them. Start bits and
  lengths are \<open>unsigned\<close> values. The contract the users rely on is the locale \<open>signal_access\<close>:
  writing a field changes the bits of that field and no others, reading returns them. Both byte
  orders are instances, and \<open>two_access\<close> gives what one field's write means for another's read.
\<close>

section \<open>The code\<close>

datatype byte_order = LittleEndian | BigEndian

text \<open>Bit \<open>p\<close> of a payload is bit \<open>p mod 8\<close> of byte \<open>p div 8\<close>.\<close>

definition bit_at :: "bytes \<Rightarrow> nat \<Rightarrow> bool" where
  "bit_at d p = bit (d ! (p div 8)) (p mod 8)"

text \<open>The body of both writing loops.\<close>

definition write_bit :: "bytes \<Rightarrow> nat \<Rightarrow> bool \<Rightarrow> bytes" where
  "write_bit d dst b =
     (let mask = push_bit (dst mod 8) 1 :: u8
      in d[dst div 8 := (d ! (dst div 8) AND NOT mask) OR (if b then mask else 0)])"

fun set_le_loop :: "bytes \<Rightarrow> nat \<Rightarrow> u64 \<Rightarrow> nat \<Rightarrow> nat \<Rightarrow> bytes" where
  "set_le_loop d start raw i 0 = d"
| "set_le_loop d start raw i (Suc n) =
     set_le_loop (write_bit d (start + i) (bit raw i)) start raw (Suc i) n"

text \<open>The Motorola order: down the byte, then to the top of the next one.\<close>

definition next_dbc_bit :: "int \<Rightarrow> int" where
  "next_dbc_bit p = (if p mod 8 = 0 then p + 15 else p - 1)"

text \<open>With \<open>Suc n\<close> bits to go, the source bit is \<open>n\<close>, that is \<open>bit_length - 1 - i\<close>.\<close>

fun set_be_loop :: "bytes \<Rightarrow> u64 \<Rightarrow> int \<Rightarrow> nat \<Rightarrow> exn + bytes" where
  "set_be_loop d raw dbc_bit 0 = Inr d"
| "set_be_loop d raw dbc_bit (Suc n) =
     (if dbc_bit < 0 \<or> int (length d * 8) \<le> dbc_bit
      then Inl (Out_of_range ''Motorola CAN signal exceeds frame'')
      else set_be_loop (write_bit d (nat dbc_bit) (bit raw n)) raw (next_dbc_bit dbc_bit) n)"

text \<open>
  \<open>start_bit + bit_length\<close> is computed in 32 bits. Where it wraps round and passes the check, the
  first write lies outside the array.
\<close>

definition set_signal :: "bytes \<Rightarrow> nat \<Rightarrow> nat \<Rightarrow> u64 \<Rightarrow> byte_order \<Rightarrow> exn + bytes" where
  "set_signal d start_bit bit_length raw order =
     (if bit_length = 0 \<or> 64 < bit_length then Inl (Invalid_argument ''invalid CAN signal length'')
      else case order of
        LittleEndian \<Rightarrow>
          if length d * 8 < (start_bit + bit_length) mod 2 ^ 32
          then Inl (Out_of_range ''CAN signal exceeds frame'')
          else if length d * 8 < start_bit + bit_length then Inl Undefined_behaviour
          else Inr (set_le_loop d start_bit raw 0 bit_length)
      | BigEndian \<Rightarrow> set_be_loop d raw (to_int32 (int start_bit)) bit_length)"

fun get_le_loop :: "bytes \<Rightarrow> nat \<Rightarrow> u64 \<Rightarrow> nat \<Rightarrow> nat \<Rightarrow> u64" where
  "get_le_loop d start raw i 0 = raw"
| "get_le_loop d start raw i (Suc n) =
     get_le_loop d start (raw OR push_bit i (of_bool (bit_at d (start + i)))) (Suc i) n"

fun get_be_loop :: "bytes \<Rightarrow> u64 \<Rightarrow> int \<Rightarrow> nat \<Rightarrow> exn + u64" where
  "get_be_loop d raw dbc_bit 0 = Inr raw"
| "get_be_loop d raw dbc_bit (Suc n) =
     (if dbc_bit < 0 \<or> int (length d * 8) \<le> dbc_bit
      then Inl (Out_of_range ''Motorola CAN signal exceeds frame'')
      else get_be_loop d (push_bit 1 raw OR of_bool (bit_at d (nat dbc_bit)))
             (next_dbc_bit dbc_bit) n)"

definition get_signal :: "bytes \<Rightarrow> nat \<Rightarrow> nat \<Rightarrow> byte_order \<Rightarrow> exn + u64" where
  "get_signal d start_bit bit_length order =
     (if bit_length = 0 \<or> 64 < bit_length then Inl (Invalid_argument ''invalid CAN signal length'')
      else case order of
        LittleEndian \<Rightarrow>
          if length d * 8 < (start_bit + bit_length) mod 2 ^ 32
          then Inl (Out_of_range ''CAN signal exceeds frame'')
          else if length d * 8 < start_bit + bit_length then Inl Undefined_behaviour
          else Inr (get_le_loop d start_bit 0 0 bit_length)
      | BigEndian \<Rightarrow> get_be_loop d 0 (to_int32 (int start_bit)) bit_length)"

text \<open>Two's complement of \<open>bit_length\<close> bits, in \<open>int64_t\<close>.\<close>

definition sign_extend :: "u64 \<Rightarrow> nat \<Rightarrow> exn + int" where
  "sign_extend v bit_length =
     (if bit_length = 0 \<or> 64 < bit_length then Inl (Invalid_argument ''invalid signed signal length'')
      else if bit_length = 64 then Inr (sint v)
      else let sgn_bit = push_bit (bit_length - 1) 1 :: u64
           in Inr (sint ((v XOR sgn_bit) - sgn_bit)))"

section \<open>Single bits\<close>

lemma length_write_bit [simp]: "length (write_bit d p b) = length d"
  by (simp add: write_bit_def Let_def)

lemma bit_at_write_bit:
  assumes "p < 8 * length d"
  shows "bit_at (write_bit d p b) q = (if q = p then b else bit_at d q)"
proof (cases "q div 8 = p div 8")
  case True
  have "p div 8 < length d" using assms by linarith
  moreover have "q = p \<longleftrightarrow> q mod 8 = p mod 8" using True by (metis div_mult_mod_eq)
  ultimately show ?thesis using True
    by (auto simp: bit_at_def write_bit_def Let_def bit_simps)
next
  case False
  then show ?thesis by (auto simp: bit_at_def write_bit_def Let_def)
qed

lemma bytes_eq_iff_bits:
  assumes "length d = length d'" and "\<And>p. p < 8 * length d \<Longrightarrow> bit_at d p = bit_at d' p"
  shows "d = d'"
proof (rule nth_equalityI)
  fix i assume i: "i < length d"
  show "d ! i = d' ! i"
  proof (rule bit_word_eqI)
    fix n assume "n < LENGTH(8)"
    then have n: "n < 8" by simp
    have "bit_at d (8 * i + n) = bit_at d' (8 * i + n)" using i n by (intro assms(2)) simp
    then show "bit (d ! i) n = bit (d' ! i) n" using n by (simp add: bit_at_def)
  qed
qed (rule assms(1))

section \<open>Positions\<close>

text \<open>
  \<open>motorola p\<close> numbers the bits in the order the big-endian loops visit them; it is its own
  inverse. \<open>signal_index\<close> says which bit of a field, counted from the least significant, lies at a
  position, and \<open>signal_fits\<close> that the field lies inside a payload.
\<close>

definition motorola :: "nat \<Rightarrow> nat" where
  "motorola p = 8 * (p div 8) + (7 - p mod 8)"

fun signal_index :: "byte_order \<Rightarrow> nat \<Rightarrow> nat \<Rightarrow> nat \<Rightarrow> nat option" where
  "signal_index LittleEndian start n p = (if start \<le> p \<and> p < start + n then Some (p - start) else None)"
| "signal_index BigEndian start n p =
     (if motorola start \<le> motorola p \<and> motorola p < motorola start + n
      then Some (n - 1 - (motorola p - motorola start)) else None)"

fun signal_fits :: "byte_order \<Rightarrow> nat \<Rightarrow> nat \<Rightarrow> nat \<Rightarrow> bool" where
  "signal_fits LittleEndian start n bytes_len \<longleftrightarrow>
     0 < n \<and> n \<le> 64 \<and> start + n \<le> 8 * bytes_len \<and> 8 * bytes_len < 2 ^ 31"
| "signal_fits BigEndian start n bytes_len \<longleftrightarrow>
     0 < n \<and> n \<le> 64 \<and> motorola start + n \<le> 8 * bytes_len \<and> 8 * bytes_len < 2 ^ 31"

lemma byte_cases:
  obtains k r where "p = 8 * k + r" and "r < (8::nat)"
  by (metis div_mult_mod_eq mod_less_divisor mult.commute zero_less_numeral)

lemma motorola_byte: "r < 8 \<Longrightarrow> motorola (8 * k + r) = 8 * k + (7 - r)"
  by (simp add: motorola_def)

lemma motorola_motorola [simp]: "motorola (motorola p) = p"
proof (rule byte_cases [of p])
  fix k r assume p: "p = 8 * k + r" "r < 8"
  then show ?thesis using motorola_byte [of r k] motorola_byte [of "7 - r" k] by simp
qed

lemma motorola_inject [simp]: "motorola p = motorola q \<longleftrightarrow> p = q"
  by (metis motorola_motorola)

lemma motorola_less: "motorola p < 8 * n \<longleftrightarrow> p < 8 * n"
proof (rule byte_cases [of p])
  fix k r assume p: "p = 8 * k + r" "r < 8"
  have "8 * k + s < 8 * n \<longleftrightarrow> k < n" if "s < 8" for s using that by linarith
  from this [of r] this [of "7 - r"] p show ?thesis by (simp add: motorola_byte)
qed

lemma next_dbc_bit_motorola: "next_dbc_bit (int p) = int (motorola (Suc (motorola p)))"
proof (rule byte_cases [of p])
  fix k r assume p: "p = 8 * k + r" "r < 8"
  show ?thesis
  proof (cases r)
    case 0
    have "Suc (motorola p) = 8 * Suc k + 0" using motorola_byte [of r k] p 0 by simp
    then have "motorola (Suc (motorola p)) = 8 * Suc k + 7" by (simp only: motorola_byte)
    then show ?thesis using p 0 by (simp add: next_dbc_bit_def)
  next
    case (Suc j)
    have "Suc (motorola p) = 8 * k + (7 - j)" using motorola_byte [of r k] p Suc by simp
    then have "motorola (Suc (motorola p)) = 8 * k + j" using motorola_byte [of "7 - j" k] p Suc by simp
    moreover have "p mod 8 = Suc j" using p Suc by (simp add: mod_Suc)
    then have "int p mod 8 = int (Suc j)" by (metis of_nat_mod of_nat_numeral)
    ultimately show ?thesis using p Suc by (simp add: next_dbc_bit_def)
  qed
qed

section \<open>The writing loops\<close>

lemma length_set_le_loop [simp]: "length (set_le_loop d start raw i n) = length d"
  by (induction n arbitrary: d i) simp_all

lemma bit_at_set_le_loop:
  "start + i + n \<le> 8 * length d \<Longrightarrow>
   bit_at (set_le_loop d start raw i n) p =
     (if start + i \<le> p \<and> p < start + i + n then bit raw (p - start) else bit_at d p)"
proof (induction n arbitrary: d i)
  case (Suc n)
  then have "bit_at (set_le_loop d start raw i (Suc n)) p =
      (if start + Suc i \<le> p \<and> p < start + Suc i + n then bit raw (p - start)
       else bit_at (write_bit d (start + i) (bit raw i)) p)" by simp
  then show ?case using Suc.prems by (auto simp: bit_at_write_bit)
qed auto

text \<open>The big-endian loop, at the position numbered \<open>m\<close> in its own order.\<close>

lemma set_be_loop_motorola:
  "m + n \<le> 8 * length d \<Longrightarrow>
   \<exists>d'. set_be_loop d raw (int (motorola m)) n = Inr d' \<and> length d' = length d \<and>
     (\<forall>p. bit_at d' p = (if m \<le> motorola p \<and> motorola p < m + n
                       then bit raw (n - 1 - (motorola p - m)) else bit_at d p))"
proof (induction n arbitrary: d m)
  case (Suc n)
  let ?e = "write_bit d (motorola m) (bit raw n)"
  have in_range: "motorola m < 8 * length d" using Suc.prems by (simp add: motorola_less)
  obtain d' where d': "set_be_loop ?e raw (int (motorola (Suc m))) n = Inr d'" "length d' = length d"
    "\<And>p. bit_at d' p = (if Suc m \<le> motorola p \<and> motorola p < Suc m + n
        then bit raw (n - 1 - (motorola p - Suc m)) else bit_at ?e p)"
    using Suc.IH [of "Suc m" ?e] Suc.prems by auto
  have "bit_at d' p = (if m \<le> motorola p \<and> motorola p < m + Suc n
      then bit raw (Suc n - 1 - (motorola p - m)) else bit_at d p)" for p
  proof (cases "motorola p = m")
    case True
    then show ?thesis using d'(3) [of p] in_range by (auto simp: bit_at_write_bit)
  next
    case False
    then have "p \<noteq> motorola m" by auto
    with False show ?thesis using d'(3) [of p] in_range by (auto simp: bit_at_write_bit)
  qed
  moreover have "set_be_loop d raw (int (motorola m)) (Suc n) = Inr d'"
    using d'(1) in_range next_dbc_bit_motorola [of "motorola m"] by simp
  ultimately show ?case using d'(2) by blast
qed auto

lemma start_in_frame: "signal_fits BigEndian s n N \<Longrightarrow> to_int32 (int s) = int (motorola (motorola s))"
proof -
  assume f: "signal_fits BigEndian s n N"
  then have "motorola s < 8 * N" by auto
  then have "s < 8 * N" by (simp add: motorola_less)
  with f show ?thesis by (simp add: to_int32_id)
qed

lemma set_signal_bits:
  assumes "signal_fits ord s n (length d)"
  shows "\<exists>d'. set_signal d s n v ord = Inr d' \<and> length d' = length d \<and>
     (\<forall>p. bit_at d' p = (case signal_index ord s n p of None \<Rightarrow> bit_at d p | Some k \<Rightarrow> bit v k))"
proof (cases ord)
  case LittleEndian
  with assms have "set_signal d s n v ord = Inr (set_le_loop d s v 0 n)"
    by (auto simp: set_signal_def)
  with assms LittleEndian show ?thesis by (auto simp: bit_at_set_le_loop)
next
  case BigEndian
  with assms have "set_signal d s n v ord = set_be_loop d v (int (motorola (motorola s))) n"
    using start_in_frame [of s n "length d"] by (simp add: set_signal_def)
  with assms BigEndian show ?thesis using set_be_loop_motorola [of "motorola s" n d v] by auto
qed

section \<open>The reading loops\<close>

lemma bit_get_le_loop:
  "i + n \<le> 64 \<Longrightarrow> bit (get_le_loop d start raw i n) k =
     (bit raw k \<or> i \<le> k \<and> k < i + n \<and> bit_at d (start + k))"
proof (induction n arbitrary: raw i)
  case (Suc n)
  from Suc.prems have "bit (get_le_loop d start raw i (Suc n)) k =
      (bit (raw OR push_bit i (of_bool (bit_at d (start + i)))) k \<or>
       Suc i \<le> k \<and> k < Suc i + n \<and> bit_at d (start + k))"
    using Suc.IH [of "Suc i"] by simp
  then show ?case using Suc.prems by (auto simp: bit_simps Suc_le_eq le_less)
qed auto

lemma get_be_loop_motorola:
  "m + n \<le> 8 * length d \<Longrightarrow> n \<le> 64 \<Longrightarrow>
   \<exists>w. get_be_loop d raw (int (motorola m)) n = Inr w \<and>
     (\<forall>k. bit w k = (if k < n then bit_at d (motorola (m + (n - 1 - k))) else k < 64 \<and> bit raw (k - n)))"
proof (induction n arbitrary: raw m)
  case 0
  then show ?case using bit_imp_le_length [of raw] by auto
next
  case (Suc n)
  let ?r = "push_bit 1 raw OR of_bool (bit_at d (motorola m))"
  have in_range: "motorola m < 8 * length d" using Suc.prems by (simp add: motorola_less)
  obtain w where w: "get_be_loop d ?r (int (motorola (Suc m))) n = Inr w"
    "\<And>k. bit w k = (if k < n then bit_at d (motorola (Suc m + (n - 1 - k)))
        else k < 64 \<and> bit ?r (k - n))"
    using Suc.IH [of "Suc m" ?r] Suc.prems by auto
  have "bit w k = (if k < Suc n then bit_at d (motorola (m + (Suc n - 1 - k)))
      else k < 64 \<and> bit raw (k - Suc n))" for k
  proof -
    consider "k < n" | "k = n" | "Suc n \<le> k" by linarith
    then show ?thesis
    proof cases
      case 1
      then have "Suc m + (n - 1 - k) = m + (Suc n - 1 - k)" by linarith
      with 1 show ?thesis using w(2) [of k] by simp
    next
      case 2 then show ?thesis using w(2) [of k] Suc.prems by (simp add: bit_simps bit_0 even_or_iff)
    next
      case 3
      then show ?thesis using w(2) [of k] Suc.prems
        by (auto simp: bit_simps mult.commute [of raw] bit_double_iff)
    qed
  qed
  moreover have "get_be_loop d raw (int (motorola m)) (Suc n) = Inr w"
    using w(1) in_range next_dbc_bit_motorola [of "motorola m"] by simp
  ultimately show ?case by blast
qed

text \<open>Where bit \<open>k\<close> of a field lies.\<close>

fun signal_pos :: "byte_order \<Rightarrow> nat \<Rightarrow> nat \<Rightarrow> nat \<Rightarrow> nat" where
  "signal_pos LittleEndian s n k = s + k"
| "signal_pos BigEndian s n k = motorola (motorola s + (n - 1 - k))"

lemma signal_index_pos: "k < n \<Longrightarrow> signal_index ord s n (signal_pos ord s n k) = Some k"
  by (cases ord) auto

lemma signal_pos_index: "signal_index ord s n p = Some k \<Longrightarrow> k < n \<and> signal_pos ord s n k = p"
  by (cases ord) (auto split: if_splits)

lemma signal_pos_less: "signal_fits ord s n N \<Longrightarrow> k < n \<Longrightarrow> signal_pos ord s n k < 8 * N"
  by (cases ord) (auto simp: motorola_less)

lemma get_signal_bits:
  assumes "signal_fits ord s n (length d)"
  shows "\<exists>w. get_signal d s n ord = Inr w \<and>
     (\<forall>k. bit w k = (k < n \<and> bit_at d (signal_pos ord s n k)))"
proof (cases ord)
  case LittleEndian
  with assms have "get_signal d s n ord = Inr (get_le_loop d s 0 0 n)"
    by (auto simp: get_signal_def)
  with assms LittleEndian show ?thesis by (auto simp: bit_get_le_loop)
next
  case BigEndian
  with assms have "get_signal d s n ord = get_be_loop d 0 (int (motorola (motorola s))) n"
    using start_in_frame [of s n "length d"] by (simp add: get_signal_def)
  with assms BigEndian show ?thesis using get_be_loop_motorola [of "motorola s" n d 0] by auto
qed

section \<open>The contract of field access\<close>

text \<open>
  What a client of the codec may use: a write of a field that fits succeeds, keeps the length and
  changes exactly the bits of the field; a read of a field that fits succeeds and collects them.
\<close>

locale signal_access =
  fixes put :: "bytes \<Rightarrow> nat \<Rightarrow> nat \<Rightarrow> u64 \<Rightarrow> exn + bytes"
    and get :: "bytes \<Rightarrow> nat \<Rightarrow> nat \<Rightarrow> exn + u64"
    and fits :: "nat \<Rightarrow> nat \<Rightarrow> nat \<Rightarrow> bool"
    and index :: "nat \<Rightarrow> nat \<Rightarrow> nat \<Rightarrow> nat option"
    and pos :: "nat \<Rightarrow> nat \<Rightarrow> nat \<Rightarrow> nat"
  assumes put_bits: "fits s n (length d) \<Longrightarrow> \<exists>d'. put d s n v = Inr d' \<and> length d' = length d \<and>
      (\<forall>p. bit_at d' p = (case index s n p of None \<Rightarrow> bit_at d p | Some k \<Rightarrow> bit v k))"
    and get_bits: "fits s n (length d) \<Longrightarrow> \<exists>w. get d s n = Inr w \<and>
      (\<forall>k. bit w k = (k < n \<and> bit_at d (pos s n k)))"
    and index_pos: "k < n \<Longrightarrow> index s n (pos s n k) = Some k"
    and pos_less: "fits s n N \<Longrightarrow> k < n \<Longrightarrow> pos s n k < 8 * N"
begin

lemma put_length: "fits s n (length d) \<Longrightarrow> put d s n v = Inr d' \<Longrightarrow> length d' = length d"
  using put_bits [of s n d v] by auto

lemma put_bit_at:
  "fits s n (length d) \<Longrightarrow> put d s n v = Inr d' \<Longrightarrow>
   bit_at d' p = (case index s n p of None \<Rightarrow> bit_at d p | Some k \<Rightarrow> bit v k)"
  using put_bits [of s n d v] by auto

lemma get_eq_iff:
  assumes "fits s n (length d)"
  shows "get d s n = Inr w \<longleftrightarrow> (\<forall>k. bit w k = (k < n \<and> bit_at d (pos s n k)))"
proof -
  obtain w' where w': "get d s n = Inr w'" "\<And>k. bit w' k = (k < n \<and> bit_at d (pos s n k))"
    using get_bits [OF assms] by auto
  show ?thesis
  proof
    assume "\<forall>k. bit w k = (k < n \<and> bit_at d (pos s n k))"
    then have "w = w'" by (intro bit_word_eqI) (simp add: w'(2))
    with w'(1) show "get d s n = Inr w" by simp
  qed (use w' in auto)
qed

text \<open>Reading a field back gives the low bits of what was written.\<close>

lemma get_put:
  assumes "fits s n (length d)" and "put d s n v = Inr d'"
  shows "get d' s n = Inr (take_bit n v)"
proof -
  have len: "length d' = length d" using assms by (rule put_length)
  have "bit (take_bit n v) k = (k < n \<and> bit_at d' (pos s n k))" for k
    using put_bit_at [OF assms, of "pos s n k"] by (auto simp: bit_take_bit_iff index_pos)
  with assms(1) len show ?thesis by (simp add: get_eq_iff)
qed

text \<open>Two payloads that agree on a field's bits read the same.\<close>

lemma get_cong:
  assumes "fits s n (length d)" and "length d' = length d"
    and "\<And>k. k < n \<Longrightarrow> bit_at d' (pos s n k) = bit_at d (pos s n k)"
  shows "get d' s n = get d s n"
proof -
  obtain w where w: "get d s n = Inr w" using get_bits [OF assms(1)] by auto
  then have "get d' s n = Inr w" using assms by (auto simp: get_eq_iff)
  with w show ?thesis by simp
qed

end

text \<open>Two kinds of access to the same payload: disjoint fields do not disturb each other.\<close>

locale two_access =
  a: signal_access put1 get1 fits1 index1 pos1 + b: signal_access put2 get2 fits2 index2 pos2
  for put1 get1 fits1 index1 pos1 put2 get2 fits2 index2 pos2
begin

lemma get_put_disjoint:
  assumes "fits1 s n (length d)" and "put1 d s n v = Inr d'" and "fits2 t m (length d)"
    and "\<And>k. k < m \<Longrightarrow> index1 s n (pos2 t m k) = None"
  shows "get2 d' t m = get2 d t m"
  using assms(3) a.put_length [OF assms(1,2)]
  by (rule b.get_cong) (simp add: a.put_bit_at [OF assms(1,2)] assms(4))

end

interpretation sig: signal_access
  "\<lambda>d s n v. set_signal d s n v ord" "\<lambda>d s n. get_signal d s n ord"
  "signal_fits ord" "signal_index ord" "signal_pos ord" for ord
  by unfold_locales (simp_all add: set_signal_bits get_signal_bits signal_index_pos signal_pos_less)

interpretation sig2: two_access
  "\<lambda>d s n v. set_signal d s n v o1" "\<lambda>d s n. get_signal d s n o1"
  "signal_fits o1" "signal_index o1" "signal_pos o1"
  "\<lambda>d s n v. set_signal d s n v o2" "\<lambda>d s n. get_signal d s n o2"
  "signal_fits o2" "signal_index o2" "signal_pos o2" for o1 o2
  by unfold_locales

section \<open>Runs of writes\<close>

text \<open>
  The frame builders call \<open>set_signal\<close> once per field, in order. A run is the list of its calls
  \<open>(start_bit, bit_length, raw, order)\<close>; \<open>overlay\<close> is the bit it leaves at a position.
\<close>

type_synonym field = "nat \<times> nat \<times> u64 \<times> byte_order"

fun set_signals :: "bytes \<Rightarrow> field list \<Rightarrow> exn + bytes" where
  "set_signals d [] = Inr d"
| "set_signals d ((s, n, v, ord) # fs) = ebind (set_signal d s n v ord) (\<lambda>d'. set_signals d' fs)"

fun overlay :: "field list \<Rightarrow> nat \<Rightarrow> bool \<Rightarrow> bool" where
  "overlay [] p b = b"
| "overlay ((s, n, v, ord) # fs) p b =
     overlay fs p (case signal_index ord s n p of None \<Rightarrow> b | Some k \<Rightarrow> bit v k)"

definition fields_fit :: "nat \<Rightarrow> field list \<Rightarrow> bool" where
  "fields_fit N fs \<longleftrightarrow> (\<forall>(s, n, v, ord) \<in> set fs. signal_fits ord s n N)"

text \<open>A position no field of the run covers.\<close>

definition uncovered :: "field list \<Rightarrow> nat \<Rightarrow> bool" where
  "uncovered fs p \<longleftrightarrow> list_all (\<lambda>(s, n, v, ord). signal_index ord s n p = None) fs"

lemma fields_fit_Cons [simp]:
  "fields_fit N ((s, n, v, ord) # fs) \<longleftrightarrow> signal_fits ord s n N \<and> fields_fit N fs"
  by (simp add: fields_fit_def)

lemma fields_fit_Nil [simp]: "fields_fit N []"
  by (simp add: fields_fit_def)

lemma set_signals_overlay:
  "fields_fit (length d) fs \<Longrightarrow> \<exists>d'. set_signals d fs = Inr d' \<and> length d' = length d \<and>
     (\<forall>p. bit_at d' p = overlay fs p (bit_at d p))"
proof (induction fs arbitrary: d)
  case (Cons f fs)
  obtain s n v ord where f: "f = (s, n, v, ord)" by (cases f)
  obtain e where e: "set_signal d s n v ord = Inr e" "length e = length d"
    "\<And>p. bit_at e p = (case signal_index ord s n p of None \<Rightarrow> bit_at d p | Some k \<Rightarrow> bit v k)"
    using set_signal_bits [of ord s n d v] Cons.prems f by auto
  then show ?case using Cons.IH [of e] Cons.prems by (auto simp: f)
qed simp

lemma set_signals_append:
  "set_signals d (fs @ gs) = ebind (set_signals d fs) (\<lambda>d'. set_signals d' gs)"
  by (induction fs arbitrary: d) (auto simp: ebind_assoc)

lemma overlay_uncovered: "uncovered fs p \<Longrightarrow> overlay fs p b = b"
  by (induction fs p b rule: overlay.induct) (auto simp: uncovered_def)

lemma overlay_append: "overlay (fs @ gs) p b = overlay gs p (overlay fs p b)"
  by (induction fs p b rule: overlay.induct) auto

text \<open>A field reads back as written when no later write of the run touches it.\<close>

lemma get_set_signals:
  assumes fit: "fields_fit (length d) fs" and run: "set_signals d fs = Inr d'"
    and fs: "fs = pre @ (s, n, v, ord) # post"
    and later: "\<And>k. k < n \<Longrightarrow> uncovered post (signal_pos ord s n k)"
  shows "get_signal d' s n ord = Inr (take_bit n v)"
proof -
  obtain e where e: "set_signals d fs = Inr e" "length e = length d"
    "\<And>p. bit_at e p = overlay fs p (bit_at d p)"
    using set_signals_overlay [OF fit] by auto
  with run have d': "length d' = length d" "\<And>p. bit_at d' p = overlay fs p (bit_at d p)" by simp_all
  have "signal_fits ord s n (length d')"
    using fit fs d'(1) by (simp add: fields_fit_def)
  moreover have "bit (take_bit n v) k = (k < n \<and> bit_at d' (signal_pos ord s n k))" for k
    by (auto simp: d'(2) fs overlay_append overlay_uncovered later bit_take_bit_iff signal_index_pos)
  ultimately show ?thesis by (simp add: sig.get_eq_iff)
qed

lemma length_set_signals:
  "fields_fit (length d) fs \<Longrightarrow> set_signals d fs = Inr d' \<Longrightarrow> length d' = length d"
  using set_signals_overlay [of d fs] by auto

lemma set_signals_succeeds: "fields_fit (length d) fs \<Longrightarrow> is_Inr (set_signals d fs)"
  using set_signals_overlay [of d fs] by (auto simp: is_Inr_iff)

section \<open>Sign extension\<close>

lemma uint_push_bit_1: "k < 64 \<Longrightarrow> uint (push_bit k 1 :: u64) = 2 ^ k"
proof -
  assume k: "k < 64"
  have lt: "(2::int) ^ k < 2 ^ 64" using k by (intro power_strict_increasing) simp_all
  have "uint (word_of_int (2 ^ k) :: u64) = 2 ^ k" using lt by (simp only: uint_word_of_int) simp
  moreover have "word_of_int (2 ^ k) = (push_bit k 1 :: u64)" by (simp add: push_bit_eq_mult)
  ultimately show ?thesis by simp
qed

lemma sint_word_of_int_id:
  "- (2 ^ 63) \<le> i \<Longrightarrow> i < 2 ^ 63 \<Longrightarrow> sint (word_of_int i :: u64) = i"
  by (simp add: sint_sbintrunc' signed_take_bit_int_eq_self)

text \<open>
  For a raw value of \<open>n\<close> bits the result is its reading in two's complement: the top bit weighs
  \<open>- 2 ^ (n - 1)\<close>.
\<close>

lemma sign_extend_signed:
  assumes n: "0 < n" "n < 64" and v: "uint v < 2 ^ n"
  shows "sign_extend v n = Inr (if bit v (n - 1) then uint v - 2 ^ n else uint v)"
proof -
  let ?s = "push_bit (n - 1) 1 :: u64"
  have p: "(2::int) ^ n = 2 * 2 ^ (n - 1)" using n by (simp add: power_eq_if)
  have le: "(2::int) ^ n \<le> 2 ^ 63" using n by (intro power_increasing) simp_all
  have us: "uint ?s = 2 ^ (n - 1)" using n by (intro uint_push_bit_1) simp
  have res: "sign_extend v n = Inr (sint ((v XOR ?s) - ?s))"
    using n by (simp add: sign_extend_def Let_def)
  have bs: "bit (2 ^ (n - Suc 0) :: u64) i \<longleftrightarrow> i = n - 1" for i using n by (auto simp: bit_exp_iff)
  show ?thesis
  proof (cases "bit v (n - 1)")
    case True
    let ?r = "v AND NOT ?s"
    have "?r AND ?s = 0" by (rule bit_word_eqI) (auto simp: bit_simps)
    then have "?r + ?s = ?r XOR ?s" by (simp add: disjunctive_add_eq_xor)
    also have "\<dots> = v" by (rule bit_word_eqI) (use True in \<open>auto simp: bit_and_iff bit_xor_iff bit_not_iff bs\<close>)
    finally have rv: "v = ?r + ?s" by simp
    have "v XOR ?s = ?r" by (rule bit_word_eqI) (use True in \<open>auto simp: bit_and_iff bit_xor_iff bit_not_iff bs\<close>)
    then have "(v XOR ?s) - ?s = v - ?s - ?s" using rv by (metis add_diff_cancel_right')
    also have "\<dots> = word_of_int (uint v - 2 ^ n)"
      by (simp add: p us [symmetric] wi_hom_sub [symmetric] algebra_simps)
    finally have "sign_extend v n = Inr (sint (word_of_int (uint v - 2 ^ n) :: u64))"
      using res by (simp only:)
    moreover have "sint (word_of_int (uint v - 2 ^ n) :: u64) = uint v - 2 ^ n"
      using v le uint_ge_0 [of v] by (intro sint_word_of_int_id) linarith+
    ultimately show ?thesis using True by simp
  next
    case False
    have "v AND ?s = 0" by (rule bit_word_eqI) (use False in \<open>auto simp: bit_and_iff bs\<close>)
    then have "(v XOR ?s) - ?s = v" by (simp add: disjunctive_add_eq_xor [symmetric])
    moreover have "sint (word_of_int (uint v) :: u64) = uint v"
      using v le uint_ge_0 [of v] by (intro sint_word_of_int_id) linarith+
    ultimately show ?thesis using res False by simp
  qed
qed

lemma sign_extend_range:
  assumes "0 < n" "n < 64" and "uint v < 2 ^ n" and "sign_extend v n = Inr r"
  shows "- (2 ^ (n - 1)) \<le> r" and "r < 2 ^ (n - 1)"
proof -
  have p: "(2::int) ^ n = 2 * 2 ^ (n - 1)" using assms by (simp add: power_eq_if)
  have top: "bit v (n - 1) \<longleftrightarrow> 2 ^ (n - 1) \<le> uint v"
  proof -
    have "bit v (n - 1) \<longleftrightarrow> bit (uint v) (n - 1)" using assms by (auto simp: bit_uint_iff)
    also have "\<dots> \<longleftrightarrow> odd (uint v div 2 ^ (n - 1))" by (simp add: bit_iff_odd)
    also have "\<dots> \<longleftrightarrow> 2 ^ (n - 1) \<le> uint v"
    proof (cases "2 ^ (n - 1) \<le> uint v")
      case True
      then have "uint v div 2 ^ (n - 1) = 1" using assms(3) p
        by (intro int_div_pos_eq [where r = "uint v - 2 ^ (n - 1)"]) simp_all
      with True show ?thesis by simp
    next
      case False
      then have "uint v div 2 ^ (n - 1) = 0" by (intro div_pos_pos_trivial) simp_all
      with False show ?thesis by simp
    qed
    finally show ?thesis .
  qed
  have "- (2 ^ (n - 1)) \<le> (0::int)" by simp
  then have "- (2 ^ (n - 1)) \<le> uint v" using uint_ge_0 [of v] by linarith
  then show "- (2 ^ (n - 1)) \<le> r" "r < 2 ^ (n - 1)"
    using assms sign_extend_signed [OF assms(1-3)] top p by (auto split: if_splits)
qed

end
