(* ===== verification/Hyundai_Codec.thy ===== *)
theory Hyundai_Codec
  imports Bit_Codec
begin

text \<open>
  The CAN-FD frames the node emits and checks (\<open>src/hyundai_canfd_codec.cpp\<close>): the CRC, the four
  frame builders with their counters, the stock \<open>SCC_CONTROL\<close> template. The locale
  \<open>sealed_frames\<close> is what the rest of the program relies on: a sealed payload passes the check,
  keeps its fields, and carries its address. The lemmas on \<open>crc_step\<close> show what the check detects.
\<close>

section \<open>Addresses\<close>

definition kImuAddress :: u32 where "kImuAddress = 0x04A"
definition kWheelSpeedsAddress :: u32 where "kWheelSpeedsAddress = 0x0A0"
definition kEscDynamicsAddress :: u32 where "kEscDynamicsAddress = 0x0E5"
definition kSteeringSensorsAddress :: u32 where "kSteeringSensorsAddress = 0x125"
definition kLfaAddress :: u32 where "kLfaAddress = 0x12A"
definition kSccControlAddress :: u32 where "kSccControlAddress = 0x1A0"
definition kCruiseButtonsAltAddress :: u32 where "kCruiseButtonsAltAddress = 0x1AA"
definition kMdpsAddress :: u32 where "kMdpsAddress = 0x0EA"
definition kTcsAddress :: u32 where "kTcsAddress = 0x175"
definition kCruiseButtonsAddress :: u32 where "kCruiseButtonsAddress = 0x1CF"
definition kLfaClusterAddress :: u32 where "kLfaClusterAddress = 0x1E0"
definition kAcceleratorAddress :: u32 where "kAcceleratorAddress = 0x035"
definition kFcaWarningAddress :: u32 where "kFcaWarningAddress = 0x160"

lemmas address_defs =
  kImuAddress_def kWheelSpeedsAddress_def kEscDynamicsAddress_def kSteeringSensorsAddress_def
  kLfaAddress_def kSccControlAddress_def kCruiseButtonsAltAddress_def kMdpsAddress_def
  kTcsAddress_def kCruiseButtonsAddress_def kLfaClusterAddress_def kAcceleratorAddress_def
  kFcaWarningAddress_def

section \<open>Checksum\<close>

definition crc_round :: "u16 \<Rightarrow> u16" where
  "crc_round crc = (if crc AND 0x8000 \<noteq> 0 then push_bit 1 crc XOR 0x1021 else push_bit 1 crc)"

definition crc_step :: "u16 \<Rightarrow> u8 \<Rightarrow> u16" where
  "crc_step crc b = (crc_round ^^ 8) (crc XOR push_bit 8 (ucast b))"

text \<open>The final constant of each supported payload size.\<close>

definition size_xor :: "nat \<Rightarrow> u16 option" where
  "size_xor n =
     (if n = 8 then Some 0x5F29 else if n = 16 then Some 0x041D
      else if n = 24 then Some 0x819D else if n = 32 then Some 0x9F5B else None)"

definition checksum :: "u32 \<Rightarrow> bytes \<Rightarrow> exn + u16" where
  "checksum address data =
     (if length data < 3 \<or> 64 < length data
      then Inl (Invalid_argument ''invalid Hyundai CAN-FD payload'')
      else
        let crc = foldl crc_step 0 (drop 2 data);
            crc = crc_step crc (ucast (address AND 0xFF));
            crc = crc_step crc (ucast (drop_bit 8 address AND 0xFF))
        in case size_xor (length data) of
             Some x \<Rightarrow> Inr (crc XOR x)
           | None \<Rightarrow> Inl (Invalid_argument ''unsupported Hyundai CAN-FD payload size''))"

definition payload :: "can_frame \<Rightarrow> bytes" where
  "payload f = take (unat (cf_size f)) (cf_data f)"

definition checksum_valid :: "can_frame \<Rightarrow> bool" where
  "checksum_valid f =
     (if cf_size f \<noteq> 8 \<and> cf_size f \<noteq> 16 \<and> cf_size f \<noteq> 24 \<and> cf_size f \<noteq> 32 then False
      else
        let received = ucast (cf_data f ! 0) OR push_bit 8 (ucast (cf_data f ! 1)) :: u16
        in checksum (cf_address f) (payload f) = Inr received)"

definition write_checksum :: "u32 \<Rightarrow> bytes \<Rightarrow> exn + bytes" where
  "write_checksum address data =
     ebind (checksum address data)
       (\<lambda>crc. Inr (data[0 := ucast (crc AND 0xFF), 1 := ucast (drop_bit 8 crc)]))"

text \<open>\<open>finish_frame\<close> on a frame whose data array is still zero.\<close>

definition finish_frame :: "can_frame \<Rightarrow> bytes \<Rightarrow> can_frame" where
  "finish_frame f data = f\<lparr>cf_size := word_of_nat (length data),
     cf_data := data @ drop (length data) (cf_data f)\<rparr>"

text \<open>The tail every builder ends with: checksum, then a fresh FD frame around the payload.\<close>

definition seal_frame :: "u32 \<Rightarrow> u8 \<Rightarrow> bytes \<Rightarrow> exn + can_frame" where
  "seal_frame address bus data =
     ebind (write_checksum address data) (\<lambda>data.
       Inr (finish_frame (empty_frame\<lparr>cf_address := address, cf_bus := bus, cf_fd := True\<rparr>) data))"

section \<open>Builders\<close>

record codec =
  cd_lfa_counter :: u8
  cd_scc_counter :: u8
  cd_cluster_counter :: u8
  cd_fca_warning_counter :: u8
  cd_scc_template :: bytes
  cd_has_scc_template :: bool

definition initial_codec :: codec where
  "initial_codec = \<lparr>cd_lfa_counter = 0, cd_scc_counter = 0, cd_cluster_counter = 0,
     cd_fca_warning_counter = 0, cd_scc_template = replicate 32 0, cd_has_scc_template = False\<rparr>"

definition wf_codec :: "codec \<Rightarrow> bool" where
  "wf_codec c \<longleftrightarrow> length (cd_scc_template c) = 32"

definition physical_to_raw :: "double \<Rightarrow> double \<Rightarrow> double \<Rightarrow> nat \<Rightarrow> exn + u64" where
  "physical_to_raw v factor offset bits =
     (let rounded = dfloor (((v - offset) / factor) + lit (1 / 2));
          maximum = of_integer (2 ^ bits - 1)
      in to_uint64 (cclamp rounded (lit 0) maximum))"

definition lfa_fields :: "u8 \<Rightarrow> int \<Rightarrow> bool \<Rightarrow> bool \<Rightarrow> field list" where
  "lfa_fields counter torque enabled torque_request =
     [(16, 8, ucast counter, LittleEndian),
      (24, 3, 2, LittleEndian),
      (27, 3, 0, LittleEndian),
      (38, 3, if enabled then 2 else 1, LittleEndian),
      (41, 11, word_of_int (torque + 1024), LittleEndian),
      (52, 2, if torque_request then 1 else 0, LittleEndian),
      (60, 4, 0, LittleEndian),
      (104, 8, 100, LittleEndian),
      (80, 2, 0, LittleEndian)]"

definition make_lfa :: "codec \<Rightarrow> int \<Rightarrow> bool \<Rightarrow> bool \<Rightarrow> u8 \<Rightarrow> exn + can_frame \<times> codec" where
  "make_lfa c torque enabled torque_request bus =
     (let torque = cclamp torque (- 1021) 1021
      in ebind (set_signals (replicate 16 0)
                 (lfa_fields (cd_lfa_counter c) torque enabled torque_request)) (\<lambda>data.
         ebind (seal_frame kLfaAddress bus data) (\<lambda>frame.
         Inr (frame, c\<lparr>cd_lfa_counter := cd_lfa_counter c + 1\<rparr>))))"

text \<open>
  The \<open>SCC_CONTROL\<close> fields the bridge owns. The five raw values that come from physical ones are
  arguments, in the order the builder computes them.
\<close>

definition scc_fields ::
  "u8 \<Rightarrow> bool \<Rightarrow> bool \<Rightarrow> bool \<Rightarrow> u64 \<Rightarrow> u64 \<Rightarrow> u64 \<Rightarrow> u64 \<Rightarrow> u64 \<Rightarrow> field list" where
  "scc_fields counter enabled stopping gas_override set_speed accel_value accel_raw jerk_up jerk_low =
     [(16, 8, ucast counter, LittleEndian),
      (24, 11, 10, LittleEndian),
      (45, 2, 3, BigEndian),
      (46, 1, 0, BigEndian),
      (55, 8, 0x64, BigEndian),
      (66, 1, 1, LittleEndian),
      (68, 3, if enabled then (if gas_override then 2 else 1) else 0, LittleEndian),
      (76, 1, if stopping then 1 else 0, LittleEndian),
      (88, 3, 4, LittleEndian),
      (103, 8, set_speed, BigEndian),
      (105, 3, 4, LittleEndian),
      (128, 11, accel_value, LittleEndian),
      (140, 11, accel_raw, LittleEndian),
      (158, 7, jerk_up, BigEndian),
      (166, 7, jerk_low, BigEndian),
      (176, 3, 2, LittleEndian),
      (184, 1, if stopping then 1 else 0, BigEndian)]"

definition make_scc_control ::
  "codec \<Rightarrow> double \<Rightarrow> double \<Rightarrow> bool \<Rightarrow> bool \<Rightarrow> bool \<Rightarrow> double \<Rightarrow> double \<Rightarrow> u8 \<Rightarrow> exn + can_frame \<times> codec" where
  "make_scc_control c accel_raw accel_value enabled stopping gas_override set_speed jerk bus =
     (if \<not> isfinite accel_raw \<or> \<not> isfinite accel_value \<or> \<not> isfinite set_speed \<or> \<not> isfinite jerk
      then Inl (Invalid_argument ''SCC_CONTROL contains a non-finite value'')
      else
        let accel_raw = cclamp accel_raw (lit (- 1023 / 100)) (lit (1024 / 100));
            accel_value = cclamp accel_value (lit (- 1023 / 100)) (lit (1024 / 100));
            jerk = cclamp jerk (lit 0) (lit (127 / 10));
            set_speed = cclamp set_speed (lit 0) (lit 255);
            data = (if cd_has_scc_template c then cd_scc_template c else replicate 32 0)
        in ebind (physical_to_raw set_speed (lit 1) (lit 0) 8) (\<lambda>speed_raw.
           ebind (physical_to_raw accel_value (lit (1 / 100)) (lit (- 1023 / 100)) 11) (\<lambda>value_raw.
           ebind (physical_to_raw accel_raw (lit (1 / 100)) (lit (- 1023 / 100)) 11) (\<lambda>raw_raw.
           ebind (physical_to_raw (if enabled then jerk else lit 3) (lit (1 / 10)) (lit 0) 7) (\<lambda>up_raw.
           ebind (physical_to_raw (if enabled then jerk else lit 1) (lit (1 / 10)) (lit 0) 7) (\<lambda>low_raw.
           ebind (set_signals data (scc_fields (cd_scc_counter c) enabled stopping gas_override
                    speed_raw value_raw raw_raw up_raw low_raw)) (\<lambda>data.
           ebind (seal_frame kSccControlAddress bus data) (\<lambda>frame.
           Inr (frame, c\<lparr>cd_scc_counter := cd_scc_counter c + 1\<rparr>)))))))))"

definition cluster_fields :: "u8 \<Rightarrow> bool \<Rightarrow> field list" where
  "cluster_fields counter enabled =
     [(16, 8, ucast counter, LittleEndian),
      (31, 1, if enabled then 1 else 0, LittleEndian),
      (47, 2, if enabled then 2 else 0, LittleEndian)]"

definition make_lfa_cluster :: "codec \<Rightarrow> bool \<Rightarrow> u8 \<Rightarrow> exn + can_frame \<times> codec" where
  "make_lfa_cluster c enabled bus =
     ebind (set_signals (replicate 16 0) (cluster_fields (cd_cluster_counter c) enabled)) (\<lambda>data.
     ebind (seal_frame kLfaClusterAddress bus data) (\<lambda>frame.
     Inr (frame, c\<lparr>cd_cluster_counter := cd_cluster_counter c + 1\<rparr>)))"

definition fca_fields :: "u8 \<Rightarrow> field list" where
  "fca_fields counter =
     [(16, 8, ucast counter, LittleEndian),
      (24, 2, 1, LittleEndian),
      (56, 8, 0x02, LittleEndian),
      (64, 8, 0xFF, LittleEndian),
      (72, 8, 0xFC, LittleEndian),
      (80, 8, 0x09, LittleEndian)]"

definition make_fca_warning :: "codec \<Rightarrow> u8 \<Rightarrow> exn + can_frame \<times> codec" where
  "make_fca_warning c bus =
     ebind (set_signals (replicate 16 0) (fca_fields (cd_fca_warning_counter c))) (\<lambda>data.
     ebind (seal_frame kFcaWarningAddress bus data) (\<lambda>frame.
     Inr (frame, c\<lparr>cd_fca_warning_counter := cd_fca_warning_counter c + 1\<rparr>)))"

section \<open>The stock template\<close>

definition set_scc_control_template :: "codec \<Rightarrow> can_frame \<Rightarrow> exn + codec" where
  "set_scc_control_template c f =
     (if cf_address f \<noteq> kSccControlAddress \<or> cf_size f \<noteq> 32 \<or> cf_extended f
      then Inl (Invalid_argument ''invalid stock SCC_CONTROL template'')
      else Inr (c\<lparr>cd_scc_template := take 32 (cf_data f), cd_has_scc_template := True,
                  cd_scc_counter := cf_data f ! 2 + 1\<rparr>))"

definition clear_scc_control_template :: "codec \<Rightarrow> codec" where
  "clear_scc_control_template c = c\<lparr>cd_scc_template := replicate 32 0, cd_has_scc_template := False\<rparr>"

definition reset_counters :: "codec \<Rightarrow> u8 \<Rightarrow> u8 \<Rightarrow> u8 \<Rightarrow> u8 \<Rightarrow> codec" where
  "reset_counters c lfa scc cluster fca_warning =
     c\<lparr>cd_lfa_counter := lfa, cd_scc_counter := scc, cd_cluster_counter := cluster,
       cd_fca_warning_counter := fca_warning\<rparr>"

section \<open>What the checksum detects\<close>

lemma word_xor_left_cancel: "a XOR b = a XOR c \<longleftrightarrow> b = c" for a :: "'a::len word"
proof
  assume "a XOR b = a XOR c"
  then have "(a XOR a) XOR b = (a XOR a) XOR c" by (simp only: xor.assoc)
  then show "b = c" by simp
qed simp

lemma word_xor_right_cancel: "b XOR a = c XOR a \<longleftrightarrow> b = c" for a :: "'a::len word"
  by (simp only: xor.commute [of _ a] word_xor_left_cancel)

text \<open>One round is injective: the polynomial is odd, so the low bit tells which branch ran.\<close>

lemma crc_round_inj: "crc_round a = crc_round b \<Longrightarrow> a = b"
proof -
  assume eq: "crc_round a = crc_round b"
  have top: "x AND 0x8000 \<noteq> 0 \<longleftrightarrow> bit x 15" for x :: u16
    using and_exp_eq_0_iff_not_bit [of x 15] by simp
  have low: "bit (crc_round x) 0 \<longleftrightarrow> bit x 15" for x
    unfolding crc_round_def top by (simp add: bit_simps bit_0 even_xor_iff)
  have high: "k < 15 \<Longrightarrow> bit (crc_round x) (Suc k) \<longleftrightarrow> (bit x k \<noteq> (bit x 15 \<and> bit (0x1021 :: u16) (Suc k)))"
    for x k
    unfolding crc_round_def top by (auto simp: bit_simps mult.commute [of x] bit_double_iff)
  show "a = b"
  proof (rule bit_word_eqI)
    fix n assume "n < LENGTH(16)"
    then consider "n = 15" | "n < 15" by fastforce
    then show "bit a n = bit b n"
    proof cases
      case 1 with low [of a] low [of b] eq show ?thesis by simp
    next
      case 2
      with high [of n a] high [of n b] low [of a] low [of b] eq show ?thesis by auto
    qed
  qed
qed

lemma crc_rounds_inj: "(crc_round ^^ n) a = (crc_round ^^ n) b \<Longrightarrow> a = b"
  by (induction n) (auto dest: crc_round_inj)

lemma crc_step_inj_crc: "crc_step a x = crc_step b x \<Longrightarrow> a = b"
  unfolding crc_step_def by (drule crc_rounds_inj) (simp only: word_xor_right_cancel)

lemma crc_step_inj_byte: "crc_step a x = crc_step a y \<Longrightarrow> x = y"
proof -
  assume "crc_step a x = crc_step a y"
  then have "a XOR push_bit 8 (ucast x) = a XOR push_bit 8 (ucast y)"
    unfolding crc_step_def by (rule crc_rounds_inj)
  then have eq: "push_bit 8 (ucast x) = (push_bit 8 (ucast y) :: u16)"
    by (simp only: word_xor_left_cancel)
  show "x = y"
  proof (rule bit_word_eqI)
    fix n assume "n < LENGTH(8)"
    then have n: "n < 8" by simp
    have "bit (push_bit 8 (ucast x) :: u16) (n + 8) = bit (push_bit 8 (ucast y) :: u16) (n + 8)"
      by (simp only: eq)
    with n show "bit x n = bit y n" by (simp add: bit_push_bit_iff bit_ucast_iff)
  qed
qed

lemma foldl_crc_inj: "foldl crc_step a xs = foldl crc_step b xs \<Longrightarrow> a = b"
  by (induction xs arbitrary: a b) (auto dest: crc_step_inj_crc)

lemma foldl_crc_update:
  assumes "i < length xs" and "foldl crc_step a (xs[i := y]) = foldl crc_step a xs"
  shows "y = xs ! i"
proof -
  have split: "xs = take i xs @ xs ! i # drop (Suc i) xs"
    using assms(1) by (simp add: id_take_nth_drop)
  have "xs[i := y] = take i xs @ y # drop (Suc i) xs"
    using assms(1) by (simp add: upd_conv_take_nth_drop)
  with assms(2) split
  have "foldl crc_step (crc_step (foldl crc_step a (take i xs)) y) (drop (Suc i) xs) =
        foldl crc_step (crc_step (foldl crc_step a (take i xs)) (xs ! i)) (drop (Suc i) xs)"
    by (metis foldl_Cons foldl_append)
  then show ?thesis by (metis crc_step_inj_byte foldl_crc_inj)
qed

text \<open>A different byte behind the checksum field gives a different checksum.\<close>

lemma checksum_update_neq:
  assumes "checksum a d = Inr c" and "2 \<le> i" and "i < length d" and "y \<noteq> d ! i"
  shows "checksum a (d[i := y]) \<noteq> Inr c"
proof
  assume c': "checksum a (d[i := y]) = Inr c"
  have drop: "drop 2 (d[i := y]) = (drop 2 d)[i - 2 := y]" using assms(2) by (simp add: drop_update_swap)
  have "foldl crc_step 0 ((drop 2 d)[i - 2 := y]) = foldl crc_step 0 (drop 2 d)"
    using assms(1) c' unfolding checksum_def Let_def drop length_list_update
    by (auto split: if_splits option.splits dest!: crc_step_inj_crc simp: word_xor_right_cancel)
  moreover have "i - 2 < length (drop 2 d)" using assms(2,3) by simp
  ultimately have "y = drop 2 d ! (i - 2)" by (rule foldl_crc_update [rotated])
  moreover have "drop 2 d ! (i - 2) = d ! i" using assms(2,3) by (subst nth_drop) (simp_all only: le_add_diff_inverse)
  ultimately show False using assms(4) by simp
qed

section \<open>Sealed frames\<close>

lemma size_xor_Some: "n \<in> {8, 16, 24, 32} \<Longrightarrow> \<exists>x. size_xor n = Some x"
  by (auto simp: size_xor_def)

lemma checksum_succeeds: "length d \<in> {8, 16, 24, 32} \<Longrightarrow> \<exists>c. checksum a d = Inr c"
  using size_xor_Some [of "length d"] by (auto simp: checksum_def Let_def)

lemma checksum_cong:
  "length d = length d' \<Longrightarrow> drop 2 d = drop 2 d' \<Longrightarrow> checksum a d = checksum a d'"
  by (simp add: checksum_def)

lemma checksum_bytes: "ucast (ucast (c AND 0xFF) :: u8) OR push_bit 8 (ucast (ucast (drop_bit 8 c) :: u8)) = c"
  for c :: u16
proof (rule bit_word_eqI)
  fix n assume n: "n < LENGTH(16)"
  have ff: "bit (0xFF :: u16) n \<longleftrightarrow> n < 8"
    using bit_mask_iff [of 8 n, where 'a = "16 word"] n by (simp add: mask_eq_exp_minus_1)
  show "bit (ucast (ucast (c AND 0xFF) :: u8) OR push_bit 8 (ucast (ucast (drop_bit 8 c) :: u8)) :: u16) n = bit c n"
    using n ff by (auto simp: bit_simps)
qed

text \<open>
  The contract of a sealed payload: the frame has the given address, bus and payload size, passes
  the check, has a 64-byte data array, and holds every bit of the payload behind the checksum.
\<close>

locale sealed_frames =
  fixes seal :: "u32 \<Rightarrow> u8 \<Rightarrow> bytes \<Rightarrow> exn + can_frame" and valid :: "can_frame \<Rightarrow> bool"
  assumes seal_ok: "length d \<in> {8, 16, 24, 32} \<Longrightarrow> \<exists>f. seal a b d = Inr f \<and> valid f \<and>
      wf_frame f \<and> cf_address f = a \<and> cf_bus f = b \<and> cf_fd f \<and> \<not> cf_extended f \<and>
      \<not> cf_returned f \<and> \<not> cf_rejected f \<and> unat (cf_size f) = length d \<and>
      (\<forall>p. 16 \<le> p \<longrightarrow> p < 8 * length d \<longrightarrow> bit_at (cf_data f) p = bit_at d p)"
begin

lemma seal_valid: "length d \<in> {8, 16, 24, 32} \<Longrightarrow> seal a b d = Inr f \<Longrightarrow> valid f"
  using seal_ok [of d a b] by auto

lemma seal_header:
  "length d \<in> {8, 16, 24, 32} \<Longrightarrow> seal a b d = Inr f \<Longrightarrow>
   cf_address f = a \<and> cf_bus f = b \<and> cf_fd f \<and> \<not> cf_extended f \<and> \<not> cf_returned f \<and>
   \<not> cf_rejected f \<and> unat (cf_size f) = length d \<and> wf_frame f"
  using seal_ok [of d a b] by auto

lemma seal_succeeds: "length d \<in> {8, 16, 24, 32} \<Longrightarrow> \<exists>f. seal a b d = Inr f"
  using seal_ok [of d a b] by auto

lemma payload_length:
  "length d \<in> {8, 16, 24, 32} \<Longrightarrow> seal a b d = Inr f \<Longrightarrow> length (payload f) = length d"
  using seal_header [of d a b f] by (auto simp: payload_def wf_frame_def)

lemma payload_bit:
  assumes "length d \<in> {8, 16, 24, 32}" and "seal a b d = Inr f" and "16 \<le> p" and "p < 8 * length d"
  shows "bit_at (payload f) p = bit_at d p"
proof -
  have "p div 8 < length d" using assms(4) by linarith
  then have "bit_at (payload f) p = bit_at (cf_data f) p"
    using seal_header [OF assms(1,2)] by (simp add: bit_at_def payload_def)
  with assms seal_ok [OF assms(1), of a b] show ?thesis by auto
qed

text \<open>A field behind the checksum reads from the frame as from the payload that was sealed.\<close>

lemma get_sealed:
  assumes len: "length d \<in> {8, 16, 24, 32}" and seal: "seal a b d = Inr f"
    and fit: "signal_fits ord s n (length d)"
    and behind: "\<And>k. k < n \<Longrightarrow> 16 \<le> signal_pos ord s n k"
  shows "get_signal (payload f) s n ord = get_signal d s n ord"
  using fit payload_length [OF len seal]
  by (rule sig.get_cong) (simp add: payload_bit [OF len seal] behind signal_pos_less [OF fit])

text \<open>What a run of writes leaves in a field can be read off the sealed frame.\<close>

lemma get_built:
  assumes "length d \<in> {8, 16, 24, 32}" and "fields_fit (length d) fs"
    and run: "set_signals d fs = Inr d'" and "seal a b d' = Inr f"
    and fs: "fs = pre @ (s, n, v, ord) # post"
    and later: "\<And>k. k < n \<Longrightarrow> uncovered post (signal_pos ord s n k)"
    and behind: "\<And>k. k < n \<Longrightarrow> 16 \<le> signal_pos ord s n k"
  shows "get_signal (payload f) s n ord = Inr (take_bit n v)"
proof -
  have len: "length d' = length d" using assms(2) run by (rule length_set_signals)
  have "get_signal d' s n ord = Inr (take_bit n v)" by (rule get_set_signals [OF assms(2) run fs later])
  moreover have "signal_fits ord s n (length d')" using assms(2) fs len by (simp add: fields_fit_def)
  ultimately show ?thesis using get_sealed [of d' a b f ord s n] assms len behind by simp
qed

lemma get_nth:
  assumes "length d \<in> {8, 16, 24, 32}" and "fields_fit (length d) fs"
    and "set_signals d fs = Inr d'" and "seal a b d' = Inr f"
    and k: "k < length fs" "fs ! k = (s, n, v, ord)"
    and "\<And>i. i < n \<Longrightarrow> uncovered (drop (Suc k) fs) (signal_pos ord s n i)"
    and "\<And>i. i < n \<Longrightarrow> 16 \<le> signal_pos ord s n i"
  shows "get_signal (payload f) s n ord = Inr (take_bit n v)"
proof (rule get_built [OF assms(1-4)])
  show "fs = take k fs @ (s, n, v, ord) # drop (Suc k) fs" using k id_take_nth_drop [of k fs] by simp
qed (rule assms(7,8), assumption)+

end

lemma seal_frame_ok:
  assumes len: "length d \<in> {8, 16, 24, 32}"
  shows "\<exists>f. seal_frame a b d = Inr f \<and> checksum_valid f \<and>
      wf_frame f \<and> cf_address f = a \<and> cf_bus f = b \<and> cf_fd f \<and> \<not> cf_extended f \<and>
      \<not> cf_returned f \<and> \<not> cf_rejected f \<and> unat (cf_size f) = length d \<and>
      (\<forall>p. 16 \<le> p \<longrightarrow> p < 8 * length d \<longrightarrow> bit_at (cf_data f) p = bit_at d p)"
proof -
  obtain c where c: "checksum a d = Inr c" using checksum_succeeds [OF len] by blast
  define e where "e = d[0 := ucast (c AND 0xFF), 1 := ucast (drop_bit 8 c) :: u8]"
  define f where "f = finish_frame (empty_frame\<lparr>cf_address := a, cf_bus := b, cf_fd := True\<rparr>) e"
  have le: "length e = length d" by (simp add: e_def)
  have f: "seal_frame a b d = Inr f" by (simp add: seal_frame_def write_checksum_def c e_def f_def)
  have sz: "unat (cf_size f) = length d" using len le
    by (auto simp: f_def finish_frame_def unat_of_nat)
  have pay: "payload f = e" using sz le by (simp add: payload_def f_def finish_frame_def)
  have "checksum a e = Inr c" using c checksum_cong [of e d a] le by (simp add: e_def)
  moreover have "cf_data f ! 0 = ucast (c AND 0xFF)" "cf_data f ! 1 = ucast (drop_bit 8 c)"
    using len le by (auto simp: f_def finish_frame_def nth_append e_def)
  moreover have "cf_size f = 8 \<or> cf_size f = 16 \<or> cf_size f = 24 \<or> cf_size f = 32"
    using len le by (auto simp: f_def finish_frame_def)
  moreover have adr: "cf_address f = a" by (simp add: f_def finish_frame_def)
  ultimately have "checksum_valid f"
    by (auto simp: checksum_valid_def pay checksum_bytes)
  moreover have "bit_at (cf_data f) p = bit_at d p" if "16 \<le> p" "p < 8 * length d" for p
  proof -
    have "p div 8 < length d" "p div 8 \<noteq> 0" "p div 8 \<noteq> 1" using that by linarith+
    then show ?thesis by (simp add: bit_at_def f_def finish_frame_def nth_append le) (simp add: e_def)
  qed
  ultimately show ?thesis using f sz adr le len
    by (auto simp: f_def finish_frame_def wf_frame_def empty_frame_def)
qed

interpretation hy: sealed_frames seal_frame checksum_valid
  by unfold_locales (rule seal_frame_ok)

section \<open>Physical values\<close>

lemma rnd_not_NaN [simp]: "rnd q \<noteq> NaN"
  using rnd_cases [of q] by auto

lemma not_NaN_add: "x \<noteq> NaN \<Longrightarrow> x + Fin q \<noteq> NaN"
  by (cases x) simp_all

lemma not_NaN_div: "x \<noteq> NaN \<Longrightarrow> b \<noteq> 0 \<Longrightarrow> x / Fin b \<noteq> NaN"
  by (cases x) simp_all

lemma not_NaN_floor: "x \<noteq> NaN \<Longrightarrow> dfloor x \<noteq> NaN"
  by (cases x) simp_all

lemma clamp_finite:
  assumes "x \<noteq> NaN" and "l \<le> u"
  shows "\<exists>q. cclamp x (Fin l) (Fin u) = Fin q \<and> l \<le> q \<and> q \<le> u"
  using assms by (cases x) (auto simp: cclamp_def)

lemma literals [simp]:
  "rnd (1 / 2) = Fin (1 / 2)"
  "rnd 3 = Fin 3" "rnd 255 = Fin 255"
  "rnd (1 / 100) = Fin (5764607523034235 / 576460752303423488)"
  "rnd (1 / 10) = Fin (3602879701896397 / 36028797018963968)"
  "rnd (- (1023 / 100)) = Fin (- 2879489011750011 / 281474976710656)"
  "rnd (256 / 25) = Fin (5764607523034235 / 562949953421312)"
  "rnd (127 / 10) = Fin (3574732204225331 / 281474976710656)"
  by (simp_all add: float_eval power_divide)

lemma of_integer_mask: "bits \<le> 53 \<Longrightarrow> of_integer (2 ^ bits - 1) = Fin (2 ^ bits - 1)"
proof -
  assume "bits \<le> 53"
  then have "(2::int) ^ bits \<le> 2 ^ 53" by (intro power_increasing) simp_all
  then have "\<bar>2 ^ bits - 1 :: int\<bar> \<le> 2 ^ 53" by simp
  from rnd_of_int [OF this] show ?thesis by (simp add: of_integer_def)
qed

text \<open>
  A scaled value is never out of range for its field: after the clamp the conversion is defined and
  the result has at most \<open>bits\<close> bits.
\<close>

lemma physical_to_raw_bits:
  assumes "v \<noteq> NaN" and "factor = Fin b" and "b \<noteq> 0" and "offset = Fin c" and "bits \<le> 53"
  shows "\<exists>r. physical_to_raw v factor offset bits = Inr r \<and> uint r \<le> 2 ^ bits - 1"
proof -
  have "v - offset \<noteq> NaN" using not_NaN_add [OF assms(1)] assms(4) by (simp add: minus_double_def)
  then have nn: "dfloor ((v - offset) / factor + lit (1 / 2)) \<noteq> NaN"
    using assms by (simp add: not_NaN_floor not_NaN_add not_NaN_div)
  obtain q where q: "cclamp (dfloor ((v - offset) / factor + lit (1 / 2))) (Fin 0) (Fin (2 ^ bits - 1)) = Fin q"
    "0 \<le> q" "q \<le> 2 ^ bits - 1"
    using clamp_finite [OF nn, of 0 "2 ^ bits - 1"] by auto
  have le: "(2::int) ^ bits \<le> 2 ^ 53" using assms(5) by (intro power_increasing) simp_all
  have "\<lfloor>q\<rfloor> \<le> \<lfloor>2 ^ bits - 1 :: rat\<rfloor>" using q(3) by (rule floor_mono)
  also have "\<lfloor>2 ^ bits - 1 :: rat\<rfloor> = \<lfloor>of_int (2 ^ bits - 1) :: rat\<rfloor>" by simp
  also have "\<dots> = 2 ^ bits - 1" by (rule floor_of_int)
  finally have fl: "\<lfloor>q\<rfloor> \<le> 2 ^ bits - 1" .
  have "(2::int) ^ 53 < 2 ^ 64" by simp
  then have fl64: "\<lfloor>q\<rfloor> < 2 ^ 64" using fl le by linarith
  have "0 \<le> \<lfloor>q\<rfloor>" using q(2) by simp
  then have "uint (word_of_int \<lfloor>q\<rfloor> :: u64) = \<lfloor>q\<rfloor>"
    using fl64 by (subst uint_word_of_int) (rule mod_pos_pos_trivial, simp_all)
  moreover have "physical_to_raw v factor offset bits = Inr (word_of_int \<lfloor>q\<rfloor>)"
    using q fl64 by (simp add: physical_to_raw_def of_integer_mask assms(5) Let_def)
  ultimately show ?thesis using fl by auto
qed

section \<open>The builders never fail on finite inputs\<close>

lemma lfa_fields_fit [simp]: "fields_fit 16 (lfa_fields n t e r)"
  by (simp add: lfa_fields_def)

lemma cluster_fields_fit [simp]: "fields_fit 16 (cluster_fields n e)"
  by (simp add: cluster_fields_def motorola_def)

lemma fca_fields_fit [simp]: "fields_fit 16 (fca_fields n)"
  by (simp add: fca_fields_def)

lemma scc_fields_fit [simp]: "fields_fit 32 (scc_fields n e s g a b c d f)"
  by (simp add: scc_fields_def motorola_def)

text \<open>The shape of every builder: a run of writes on a payload, sealed.\<close>

lemma build_ok:
  assumes "length d \<in> {8, 16, 24, 32}" and "fields_fit (length d) fs"
  shows "\<exists>d' f. set_signals d fs = Inr d' \<and> seal_frame a b d' = Inr f"
proof -
  obtain d' where d': "set_signals d fs = Inr d'" "length d' = length d"
    using set_signals_overlay [OF assms(2)] by auto
  with hy.seal_succeeds [of d' a b] assms(1) show ?thesis by auto
qed

lemma make_lfa_ok:
  "\<exists>d f. set_signals (replicate 16 0) (lfa_fields (cd_lfa_counter c) (cclamp t (- 1021) 1021) e r) = Inr d \<and>
     seal_frame kLfaAddress b d = Inr f \<and>
     make_lfa c t e r b = Inr (f, c\<lparr>cd_lfa_counter := cd_lfa_counter c + 1\<rparr>)"
  using build_ok [of "replicate 16 0" "lfa_fields (cd_lfa_counter c) (cclamp t (- 1021) 1021) e r"
      kLfaAddress b]
  by (auto simp: make_lfa_def Let_def)

lemma make_lfa_cluster_ok:
  "\<exists>d f. set_signals (replicate 16 0) (cluster_fields (cd_cluster_counter c) e) = Inr d \<and>
     seal_frame kLfaClusterAddress b d = Inr f \<and>
     make_lfa_cluster c e b = Inr (f, c\<lparr>cd_cluster_counter := cd_cluster_counter c + 1\<rparr>)"
  using build_ok [of "replicate 16 0" "cluster_fields (cd_cluster_counter c) e" kLfaClusterAddress b]
  by (auto simp: make_lfa_cluster_def)

lemma make_fca_warning_ok:
  "\<exists>d f. set_signals (replicate 16 0) (fca_fields (cd_fca_warning_counter c)) = Inr d \<and>
     seal_frame kFcaWarningAddress b d = Inr f \<and>
     make_fca_warning c b = Inr (f, c\<lparr>cd_fca_warning_counter := cd_fca_warning_counter c + 1\<rparr>)"
  using build_ok [of "replicate 16 0" "fca_fields (cd_fca_warning_counter c)" kFcaWarningAddress b]
  by (auto simp: make_fca_warning_def)

definition scc_base :: "codec \<Rightarrow> bytes" where
  "scc_base c = (if cd_has_scc_template c then cd_scc_template c else replicate 32 0)"

lemma isfinite_iff: "isfinite x \<longleftrightarrow> (\<exists>q. x = Fin q)"
  by (cases x) auto

lemma clamp_literal:
  "isfinite x \<Longrightarrow> l \<le> u \<Longrightarrow> \<exists>q. cclamp x (Fin l) (Fin u) = Fin q \<and> l \<le> q \<and> q \<le> u"
  by (rule clamp_finite) (auto simp: isfinite_iff)

lemma physical_to_raw_ok:
  "isfinite v \<Longrightarrow> b \<noteq> 0 \<Longrightarrow> bits \<le> 53 \<Longrightarrow>
   \<exists>r. physical_to_raw v (Fin b) (Fin c) bits = Inr r \<and> uint r \<le> 2 ^ bits - 1"
  by (rule physical_to_raw_bits [OF _ refl _ refl]) (auto simp: isfinite_iff)

lemma literal_raw_ok:
  assumes "isfinite v"
  shows "\<exists>r. physical_to_raw v (lit (1 / 100)) (lit (- 1023 / 100)) 11 = Inr r \<and> uint r < 2 ^ 11"
    and "\<exists>r. physical_to_raw v (lit 1) (lit 0) 8 = Inr r"
    and "\<exists>r. physical_to_raw v (lit (1 / 10)) (lit 0) 7 = Inr r"
  using physical_to_raw_ok [OF assms, of "5764607523034235 / 576460752303423488" 11
      "- 2879489011750011 / 281474976710656"]
    physical_to_raw_ok [OF assms, of 1 8 0]
    physical_to_raw_ok [OF assms, of "3602879701896397 / 36028797018963968" 7 0]
  by (auto simp: zle_diff1_eq)

lemma clamp_literal_finite:
  assumes "isfinite x"
  shows "isfinite (cclamp x (lit (- 1023 / 100)) (lit (1024 / 100)))"
    and "isfinite (cclamp x (lit 0) (lit 255))"
    and "isfinite (cclamp x (lit 0) (lit (127 / 10)))"
  using assms by (cases x; simp add: cclamp_def)+

text \<open>
  The SCC builder on finite arguments: five scaled values that fit their fields, one run of writes
  on the template (or zeros), one sealed frame.
\<close>

lemma make_scc_control_ok:
  assumes fin: "isfinite raw" "isfinite value" "isfinite speed" "isfinite jerk" and wf: "wf_codec c"
  shows "\<exists>sp vr rr ju jl d f.
     physical_to_raw (cclamp value (lit (- 1023 / 100)) (lit (1024 / 100))) (lit (1 / 100)) (lit (- 1023 / 100)) 11
       = Inr vr \<and>
     physical_to_raw (cclamp raw (lit (- 1023 / 100)) (lit (1024 / 100))) (lit (1 / 100)) (lit (- 1023 / 100)) 11
       = Inr rr \<and>
     uint vr < 2 ^ 11 \<and> uint rr < 2 ^ 11 \<and>
     set_signals (scc_base c) (scc_fields (cd_scc_counter c) e st g sp vr rr ju jl) = Inr d \<and>
     seal_frame kSccControlAddress b d = Inr f \<and>
     make_scc_control c raw value e st g speed jerk b = Inr (f, c\<lparr>cd_scc_counter := cd_scc_counter c + 1\<rparr>)"
proof -
  let ?cv = "cclamp value (lit (- 1023 / 100)) (lit (1024 / 100))"
  let ?cr = "cclamp raw (lit (- 1023 / 100)) (lit (1024 / 100))"
  let ?cs = "cclamp speed (lit 0) (lit 255)"
  let ?cj = "cclamp jerk (lit 0) (lit (127 / 10))"
  let ?up = "if e then ?cj else lit 3" and ?low = "if e then ?cj else lit 1"
  have j: "isfinite ?up" "isfinite ?low" using clamp_literal_finite(3) [OF fin(4)] by simp_all
  obtain sp where sp: "physical_to_raw ?cs (lit 1) (lit 0) 8 = Inr sp"
    using literal_raw_ok(2) [OF clamp_literal_finite(2) [OF fin(3)]] by blast
  obtain vr where vr: "physical_to_raw ?cv (lit (1 / 100)) (lit (- 1023 / 100)) 11 = Inr vr" "uint vr < 2 ^ 11"
    using literal_raw_ok(1) [OF clamp_literal_finite(1) [OF fin(2)]] by blast
  obtain rr where rr: "physical_to_raw ?cr (lit (1 / 100)) (lit (- 1023 / 100)) 11 = Inr rr" "uint rr < 2 ^ 11"
    using literal_raw_ok(1) [OF clamp_literal_finite(1) [OF fin(1)]] by blast
  obtain ju where ju: "physical_to_raw ?up (lit (1 / 10)) (lit 0) 7 = Inr ju"
    using literal_raw_ok(3) [OF j(1)] by blast
  obtain jl where jl: "physical_to_raw ?low (lit (1 / 10)) (lit 0) 7 = Inr jl"
    using literal_raw_ok(3) [OF j(2)] by blast
  have len: "length (scc_base c) = 32" using wf by (simp add: scc_base_def wf_codec_def)
  obtain d f where df: "set_signals (scc_base c) (scc_fields (cd_scc_counter c) e st g sp vr rr ju jl) = Inr d"
    "seal_frame kSccControlAddress b d = Inr f"
    using build_ok [of "scc_base c" "scc_fields (cd_scc_counter c) e st g sp vr rr ju jl" kSccControlAddress b]
      len by auto
  have "make_scc_control c raw value e st g speed jerk b =
      Inr (f, c\<lparr>cd_scc_counter := cd_scc_counter c + 1\<rparr>)"
    unfolding make_scc_control_def Let_def scc_base_def [symmetric]
    by (simp only: fin not_True_eq_False simp_thms if_False sp vr rr ju jl ebind.simps df)
  with vr rr df show ?thesis by blast
qed

section \<open>Accuracy of the acceleration fields\<close>

text \<open>
  The raw value is the request divided by the resolution, rounded to the nearest integer, up to the
  error of the three roundings of the computation.
\<close>

lemma accel_raw_error:
  assumes q: "- (2879489011750011 / 281474976710656) \<le> q" "q \<le> 5764607523034235 / 562949953421312"
    and r: "physical_to_raw (Fin q) (lit (1 / 100)) (lit (- 1023 / 100)) 11 = Inr r"
  shows "\<bar>of_int (uint r) / 100 - 1023 / 100 - q\<bar> \<le> 1 / 200 + 1 / 10 ^ 9"
proof -
  let ?o = "2879489011750011 / 281474976710656 :: rat" and ?f = "5764607523034235 / 576460752303423488 :: rat"
  define x1 where "x1 = rval (q + ?o)"
  define x2 where "x2 = rval (x1 / ?f)"
  define x3 where "x3 = rval (x2 + 1 / 2)"
  have qo: "0 \<le> q + ?o" "q + ?o \<le> 20471 / 1000" using q by linarith+
  have b1: "\<bar>q + ?o\<bar> < 2 ^ 5" using qo by simp
  have "\<bar>x1 - (q + ?o)\<bar> \<le> 2 ^ 5 / 2 ^ 53" unfolding x1_def using b1 by (rule rval_error_bound)
  then have e1: "\<bar>x1 - (q + ?o)\<bar> \<le> 1 / 281474976710656" by simp
  have x1: "\<bar>x1\<bar> \<le> 20472 / 1000" using e1 qo by linarith
  have b2: "\<bar>x1 / ?f\<bar> < 2 ^ 12" using x1 by (simp add: abs_mult)
  have "\<bar>x2 - x1 / ?f\<bar> \<le> 2 ^ 12 / 2 ^ 53" unfolding x2_def using b2 by (rule rval_error_bound)
  then have e2: "\<bar>x2 - x1 / ?f\<bar> \<le> 1 / 2199023255552" by simp
  have div: "x1 / ?f = x1 * (576460752303423488 / 5764607523034235)" by simp
  have x2: "\<bar>x2\<bar> \<le> 20473 / 10" using e2 x1 unfolding div by linarith
  have "\<bar>x2 + 1 / 2\<bar> < 8192" using x2 by linarith
  then have b3: "\<bar>x2 + 1 / 2\<bar> < 2 ^ 13" by simp
  have "\<bar>x3 - (x2 + 1 / 2)\<bar> \<le> 2 ^ 13 / 2 ^ 53" unfolding x3_def using b3 by (rule rval_error_bound)
  then have e3: "\<bar>x3 - (x2 + 1 / 2)\<bar> \<le> 1 / 1099511627776" by simp
  have m: "0 \<le> x3"
  proof -
    have "0 \<le> x1" unfolding x1_def using qo(1) by (rule rval_nonneg)
    then have "0 \<le> x2" unfolding x2_def by (intro rval_nonneg) simp
    then show ?thesis unfolding x3_def by (intro rval_nonneg) simp
  qed
  have x3: "x3 < 2048" using e3 x2 by linarith
  have v1: "rnd (q + ?o) = Fin x1"
    using rnd_bounded(1) [of "q + ?o" 5] b1 by (simp add: x1_def)
  have v2: "rnd (x1 / ?f) = Fin x2"
    using rnd_bounded(1) [of "x1 / ?f" 12] b2 unfolding x2_def by linarith
  have v3: "rnd (x2 + 1 / 2) = Fin x3"
    using rnd_bounded(1) [of "x2 + 1 / 2" 13] b3 by (simp add: x3_def)
  define n where "n = \<lfloor>x3\<rfloor>"
  have n: "0 \<le> n" "n \<le> 2047" using m x3 by (simp_all add: n_def floor_le_iff)
  have v4: "rnd (of_int n) = Fin (of_int n)" using n by (intro rnd_of_int) simp
  have clamp: "cclamp (Fin (of_int n)) (Fin 0) (Fin 2047) = Fin (of_int n)"
    using n by (simp add: cclamp_def of_int_0_le_iff of_int_le_iff not_less del: of_int_0 of_int_numeral)
  have "physical_to_raw (Fin q) (lit (1 / 100)) (lit (- 1023 / 100)) 11 = to_uint64 (Fin (of_int n))"
    using v1 v2 v3 v4 clamp of_integer_mask [of 11]
    by (simp add: physical_to_raw_def minus_double_def n_def)
  then have "r = word_of_int n" using r n by simp
  then have rn: "uint r = n" using n by (simp add: uint_word_of_int mod_pos_pos_trivial)
  have fl: "of_int n \<le> x3" "x3 < of_int n + 1" unfolding n_def by linarith+
  define y where "y = x1 * (576460752303423488 / 5764607523034235)"
  have yx: "x1 = y * (5764607523034235 / 576460752303423488)" by (simp add: y_def)
  have "\<bar>of_int n - y\<bar> \<le> 1 / 2 + 1 / 10000000000"
    using fl e2 e3 unfolding div y_def [symmetric] by linarith
  then have "\<bar>of_int n / 100 - 1023 / 100 - q\<bar> \<le> 1 / 200 + 1 / 1000000000"
    using e1 x1 qo unfolding yx by linarith
  then show ?thesis unfolding rn by simp
qed

section \<open>Properties\<close>

lemma take_bit_ucast [simp]: "take_bit 8 (ucast (c :: u8) :: u64) = ucast c"
  by (rule bit_word_eqI) (auto simp: bit_simps dest: bit_imp_le_length)

text \<open>
  The torque request in a frame is the clamped one, offset by 1024: the reserved codes 2046 and 2047
  are never sent.
\<close>

lemma torque_field: "\<bar>t\<bar> \<le> 1021 \<Longrightarrow> uint (take_bit 11 (word_of_int (t + 1024) :: u64)) = t + 1024"
proof -
  assume t: "\<bar>t\<bar> \<le> 1021"
  define u where "u = t + 1024"
  have u: "0 \<le> u" "u < 2048" using t by (simp_all add: u_def)
  have "uint (word_of_int u :: u64) = u" using u by (subst uint_word_of_int) simp
  then have "uint (take_bit 11 (word_of_int u :: u64)) = u"
    using u by (simp only: unsigned_take_bit_eq) (simp add: take_bit_int_eq_self)
  then show ?thesis by (simp only: u_def)
qed

lemma lfa_on_wire:
  "\<exists>f w. make_lfa c torque enabled request bus =
       Inr (f, c\<lparr>cd_lfa_counter := cd_lfa_counter c + 1\<rparr>) \<and>
     checksum_valid f \<and> cf_address f = kLfaAddress \<and> cf_bus f = bus \<and> cf_size f = 16 \<and>
     get_signal (payload f) 41 11 LittleEndian = Inr w \<and>
     uint w - 1024 = cclamp torque (- 1021) 1021 \<and>
     get_signal (payload f) 52 2 LittleEndian = Inr (if request then 1 else 0) \<and>
     get_signal (payload f) 38 3 LittleEndian = Inr (if enabled then 2 else 1) \<and>
     get_signal (payload f) 16 8 LittleEndian = Inr (ucast (cd_lfa_counter c))"
proof -
  let ?t = "cclamp torque (- 1021) 1021"
  obtain d f where d: "set_signals (replicate 16 0) (lfa_fields (cd_lfa_counter c) ?t enabled request) = Inr d"
    and f: "seal_frame kLfaAddress bus d = Inr f"
    and m: "make_lfa c torque enabled request bus = Inr (f, c\<lparr>cd_lfa_counter := cd_lfa_counter c + 1\<rparr>)"
    using make_lfa_ok by blast
  have len: "length d = 16" using length_set_signals [OF _ d] by simp
  have t: "\<bar>?t\<bar> \<le> 1021" by (simp add: cclamp_def abs_le_iff)
  note read = hy.get_nth [OF _ _ d f]
  have "get_signal (payload f) 41 11 LittleEndian = Inr (take_bit 11 (word_of_int (?t + 1024)))"
    using read [of 4 41 11] by (simp add: lfa_fields_def uncovered_def)
  moreover have "get_signal (payload f) 52 2 LittleEndian = Inr (if request then 1 else 0)"
    using read [of 5 52 2] by (simp add: lfa_fields_def uncovered_def)
  moreover have "get_signal (payload f) 38 3 LittleEndian = Inr (if enabled then 2 else 1)"
    using read [of 3 38 3] by (simp add: lfa_fields_def uncovered_def)
  moreover have "get_signal (payload f) 16 8 LittleEndian = Inr (ucast (cd_lfa_counter c))"
    using read [of 0 16 8] by (simp add: lfa_fields_def uncovered_def)
  moreover have "cf_size f = 16" using hy.seal_header [OF _ f] len by (simp add: word_unat_eq_iff)
  moreover have "uint (take_bit 11 (word_of_int (?t + 1024) :: u64)) - 1024 = ?t"
    using torque_field [OF t] by simp
  ultimately show ?thesis
    using m hy.seal_valid [OF _ f] hy.seal_header [OF _ f] len by blast
qed

text \<open>C25: whatever the requested torque, the LFA builder returns a frame that passes the receiver's
  check, advances its counter by one modulo 256, and carries in \<open>StrTqReqVal\<close> the request clamped to
  \<open>[-1021, 1021]\<close>, with the request and the activation bits as asked.\<close>

theorem make_lfa_frame:
  "\<exists>f w. make_lfa c torque enabled request bus =
       Inr (f, c\<lparr>cd_lfa_counter := cd_lfa_counter c + 1\<rparr>) \<and>
     checksum_valid f \<and> cf_address f = kLfaAddress \<and> cf_bus f = bus \<and> cf_size f = 16 \<and>
     get_signal (payload f) 41 11 LittleEndian = Inr w \<and>
     uint w - 1024 = cclamp torque (- 1021) 1021 \<and>
     get_signal (payload f) 52 2 LittleEndian = Inr (if request then 1 else 0) \<and>
     get_signal (payload f) 38 3 LittleEndian = Inr (if enabled then 2 else 1) \<and>
     get_signal (payload f) 16 8 LittleEndian = Inr (ucast (cd_lfa_counter c))"
  by (rule lfa_on_wire)

lemma changed_byte_invalid:
  assumes "checksum_valid f" and "wf_frame f" and "i < unat (cf_size f)" and "y \<noteq> cf_data f ! i"
  shows "\<not> checksum_valid (f\<lparr>cf_data := (cf_data f)[i := y]\<rparr>)"
proof -
  let ?g = "f\<lparr>cf_data := (cf_data f)[i := y]\<rparr>"
  have size: "unat (cf_size f) \<le> 64" "1 < unat (cf_size f)"
    using assms(1) by (auto simp: checksum_valid_def split: if_splits)
  have pay: "payload ?g = (payload f)[i := y]" by (simp add: payload_def take_update_swap)
  have len: "length (payload f) = unat (cf_size f)" using assms(2) size by (simp add: payload_def wf_frame_def)
  have i64: "i < length (cf_data f)" "0 < length (cf_data f)" "1 < length (cf_data f)"
    using assms(2,3) size by (simp_all add: wf_frame_def)
  have pi: "payload f ! i = cf_data f ! i" using assms(3) by (simp add: payload_def)
  let ?rx = "\<lambda>d. ucast (d ! 0) OR push_bit 8 (ucast (d ! 1)) :: u16"
  have ok: "checksum (cf_address f) (payload f) = Inr (?rx (cf_data f))"
    using assms(1) by (simp add: checksum_valid_def Let_def split: if_splits)
  show ?thesis
  proof
    assume "checksum_valid ?g"
    then have ok': "checksum (cf_address f) ((payload f)[i := y]) = Inr (?rx ((cf_data f)[i := y]))"
      by (simp add: checksum_valid_def Let_def pay [simplified] split: if_splits)
    show False
    proof (cases "2 \<le> i")
      case True
      then have "?rx ((cf_data f)[i := y]) = ?rx (cf_data f)" by simp
      with checksum_update_neq [OF ok True] assms(3,4) len pi ok' show False by simp
    next
      case False
      then have "checksum (cf_address f) ((payload f)[i := y]) = checksum (cf_address f) (payload f)"
        by (intro checksum_cong) simp_all
      with ok ok' have rx: "?rx ((cf_data f)[i := y]) = ?rx (cf_data f)" by simp
      have bits: "bit (?rx d) n = (if n < 8 then bit (d ! 0) n else n < 16 \<and> bit (d ! 1) (n - 8))"
        for d :: bytes and n
        using bit_imp_le_length [of "d ! 0" n] by (auto simp: bit_simps)
      have "(cf_data f)[i := y] ! 0 = cf_data f ! 0"
      proof (rule bit_word_eqI)
        fix n assume "n < LENGTH(8)"
        then show "bit ((cf_data f)[i := y] ! 0) n = bit (cf_data f ! 0) n"
          using bits [of "(cf_data f)[i := y]" n] bits [of "cf_data f" n] rx by auto
      qed
      moreover have "(cf_data f)[i := y] ! 1 = cf_data f ! 1"
      proof (rule bit_word_eqI)
        fix n assume "n < LENGTH(8)"
        then show "bit ((cf_data f)[i := y] ! 1) n = bit (cf_data f ! 1) n"
          using bits [of "(cf_data f)[i := y]" "n + 8"] bits [of "cf_data f" "n + 8"] rx by auto
      qed
      moreover have "i = 0 \<or> i = 1" using False by linarith
      ultimately show False using i64 assms(4) by auto
    qed
  qed
qed

text \<open>C17: one wrong byte is always detected. If a frame passes the check, changing any byte of its
  payload, checksum bytes included, to another value makes the check fail.\<close>

theorem corrupted_byte_detected:
  assumes "checksum_valid f" and "wf_frame f" and "i < unat (cf_size f)" and "y \<noteq> cf_data f ! i"
  shows "\<not> checksum_valid (f\<lparr>cf_data := (cf_data f)[i := y]\<rparr>)"
  by (rule changed_byte_invalid [OF assms])

theorem corrupted_byte_detected_witness:
  "\<exists>f. make_lfa initial_codec 100 True True 1 = Inr (f, initial_codec\<lparr>cd_lfa_counter := 1\<rparr>) \<and>
     checksum_valid f \<and> \<not> checksum_valid (f\<lparr>cf_data := (cf_data f)[5 := cf_data f ! 5 + 1]\<rparr>)"
proof -
  obtain d f where d: "set_signals (replicate 16 0) (lfa_fields 0 (cclamp 100 (- 1021) 1021) True True) = Inr d"
    and f: "seal_frame kLfaAddress 1 d = Inr f"
    and m: "make_lfa initial_codec 100 True True 1 = Inr (f, initial_codec\<lparr>cd_lfa_counter := 1\<rparr>)"
    using make_lfa_ok [of initial_codec 100 True True 1] by (auto simp: initial_codec_def)
  have len: "length d = 16" using length_set_signals [OF _ d] by simp
  note h = hy.seal_valid [OF _ f] hy.seal_header [OF _ f]
  from h len have "checksum_valid f" "wf_frame f" "5 < unat (cf_size f)" by simp_all
  from corrupted_byte_detected [OF this, of "cf_data f ! 5 + 1"] this(1) m show ?thesis by auto
qed

text \<open>The bits of \<open>SCC_CONTROL\<close> that the bridge writes itself, as intervals; the first is the
  checksum.\<close>

definition scc_ranges :: "(nat \<times> nat) list" where
  "scc_ranges = [(0, 16), (16, 24), (24, 35), (44, 46), (46, 47), (48, 56), (66, 67), (68, 71), (76, 77),
     (88, 91), (96, 104), (105, 108), (128, 139), (140, 151), (152, 159), (160, 167), (176, 179), (184, 185)]"

definition scc_owned :: "nat \<Rightarrow> bool" where
  "scc_owned p \<longleftrightarrow> list_ex (\<lambda>(lo, hi). lo \<le> p \<and> p < hi) scc_ranges"

lemma not_scc_owned: "\<not> scc_owned p \<Longrightarrow> (lo, hi) \<in> set scc_ranges \<Longrightarrow> p < lo \<or> hi \<le> p"
  by (fastforce simp: scc_owned_def list_ex_iff)

lemma motorola_range: "8 * k \<le> m \<Longrightarrow> m < 8 * k + 8 \<Longrightarrow> motorola m = 16 * k + 7 - m"
proof -
  assume m: "8 * k \<le> m" "m < 8 * k + 8"
  then have "m = 8 * k + (m - 8 * k)" "m - 8 * k < 8" by simp_all
  then have "motorola m = 8 * k + (7 - (m - 8 * k))" using motorola_byte [of "m - 8 * k" k] by metis
  with m show ?thesis by linarith
qed

text \<open>A big-endian field within one byte is an interval of bits.\<close>

lemma signal_index_be_None:
  assumes "8 * k \<le> s" "s < 8 * k + 8" "8 * k + n \<le> s + 1"
  shows "signal_index BigEndian s n p = None \<longleftrightarrow> p + n \<le> s \<or> s < p"
proof -
  have s: "motorola s = 16 * k + 7 - s" using assms(1,2) by (rule motorola_range)
  show ?thesis
  proof (cases "8 * k \<le> p \<and> p < 8 * k + 8")
    case True
    then have "motorola p = 16 * k + 7 - p" by (intro motorola_range) auto
    with s assms True show ?thesis by auto
  next
    case False
    have "p < 8 * k \<and> motorola p < 8 * k \<or> 8 * k + 8 \<le> p \<and> 8 * k + 8 \<le> motorola p"
      using False motorola_less [of p k] motorola_less [of p "Suc k"] by auto
    with s assms show ?thesis by auto
  qed
qed

lemma scc_be:
  "signal_index BigEndian 45 2 p = None \<longleftrightarrow> p + 2 \<le> 45 \<or> 45 < p"
  "signal_index BigEndian 46 (Suc 0) p = None \<longleftrightarrow> p + Suc 0 \<le> 46 \<or> 46 < p"
  "signal_index BigEndian 55 8 p = None \<longleftrightarrow> p + 8 \<le> 55 \<or> 55 < p"
  "signal_index BigEndian 103 8 p = None \<longleftrightarrow> p + 8 \<le> 103 \<or> 103 < p"
  "signal_index BigEndian 158 7 p = None \<longleftrightarrow> p + 7 \<le> 158 \<or> 158 < p"
  "signal_index BigEndian 166 7 p = None \<longleftrightarrow> p + 7 \<le> 166 \<or> 166 < p"
  "signal_index BigEndian 184 (Suc 0) p = None \<longleftrightarrow> p + Suc 0 \<le> 184 \<or> 184 < p"
  using signal_index_be_None [of 5 45 2 p] signal_index_be_None [of 5 46 "Suc 0" p]
    signal_index_be_None [of 6 55 8 p] signal_index_be_None [of 12 103 8 p]
    signal_index_be_None [of 19 158 7 p] signal_index_be_None [of 20 166 7 p]
    signal_index_be_None [of 23 184 "Suc 0" p]
  by (simp_all del: signal_index.simps(2))

lemma scc_uncovered:
  assumes "\<not> scc_owned p"
  shows "uncovered (scc_fields n e st g a b c d f) p"
proof -
  have le: "signal_index LittleEndian s m p = None" if "(s, s + m) \<in> set scc_ranges" for s m
    using not_scc_owned [OF assms that] by auto
  have be: "signal_index BigEndian s m p = None"
    if "(s + 1 - m, s + 1) \<in> set scc_ranges" "8 * k \<le> s" "s < 8 * k + 8" "8 * k + m \<le> s + 1" for s m k
    unfolding signal_index_be_None [OF that(2-4)] using not_scc_owned [OF assms that(1)] by linarith
  show ?thesis
    unfolding uncovered_def scc_fields_def list.pred_inject prod.case
    by (intro conjI TrueI le be [of 45 2 5] be [of 46 1 5] be [of 55 8 6] be [of 103 8 12] be [of 158 7 19]
        be [of 166 7 20] be [of 184 1 23]) (simp_all add: scc_ranges_def)
qed

text \<open>C26: the longitudinal builder on finite arguments always returns a frame that passes the check, and
  every bit it does not own is the stock template's: the vehicle's own radar data is preserved.\<close>

theorem make_scc_control_preserves_template:
  assumes "isfinite raw" "isfinite value" "isfinite speed" "isfinite jerk" and "wf_codec c"
  shows "\<exists>f. make_scc_control c raw value enabled stopping gas speed jerk bus =
      Inr (f, c\<lparr>cd_scc_counter := cd_scc_counter c + 1\<rparr>) \<and>
    checksum_valid f \<and> cf_address f = kSccControlAddress \<and> cf_bus f = bus \<and> cf_size f = 32 \<and>
    get_signal (payload f) 16 8 LittleEndian = Inr (ucast (cd_scc_counter c)) \<and>
    (\<forall>p<256. \<not> scc_owned p \<longrightarrow> bit_at (payload f) p = bit_at (scc_base c) p)"
proof -
  obtain sp vr rr ju jl d f where
    d: "set_signals (scc_base c) (scc_fields (cd_scc_counter c) enabled stopping gas sp vr rr ju jl) = Inr d"
    and f: "seal_frame kSccControlAddress bus d = Inr f"
    and m: "make_scc_control c raw value enabled stopping gas speed jerk bus =
      Inr (f, c\<lparr>cd_scc_counter := cd_scc_counter c + 1\<rparr>)"
    using make_scc_control_ok [OF assms] by blast
  let ?fs = "scc_fields (cd_scc_counter c) enabled stopping gas sp vr rr ju jl"
  have base: "length (scc_base c) = 32" using assms(5) by (simp add: scc_base_def wf_codec_def)
  have len: "length d = 32" using length_set_signals [OF _ d] base by simp
  have bits: "bit_at d p = overlay ?fs p (bit_at (scc_base c) p)" for p
    using set_signals_overlay [of "scc_base c" ?fs] base d by auto
  have "bit_at (payload f) p = bit_at (scc_base c) p" if "\<not> scc_owned p" "p < 256" for p
  proof -
    have "16 \<le> p" using not_scc_owned [OF that(1), of 0 16] by (simp add: scc_ranges_def)
    with that show ?thesis
      using hy.payload_bit [OF _ f, of p] len bits [of p] by (simp add: overlay_uncovered scc_uncovered)
  qed
  moreover have "get_signal (payload f) 16 8 LittleEndian = Inr (ucast (cd_scc_counter c))"
  proof -
    have "get_signal (payload f) 16 8 LittleEndian = Inr (take_bit 8 (ucast (cd_scc_counter c)))"
      by (rule hy.get_nth [OF _ _ d f, of 0])
        (simp_all add: base, simp_all add: scc_fields_def uncovered_def scc_be del: signal_index.simps(2))
    then show ?thesis by simp
  qed
  moreover have "cf_size f = 32" using hy.seal_header [OF _ f] len by (simp add: word_unat_eq_iff)
  ultimately show ?thesis using m hy.seal_valid [OF _ f] hy.seal_header [OF _ f] len
    by (intro exI [of _ f]) simp
qed

theorem make_scc_control_preserves_template_witness:
  "\<exists>f. make_scc_control initial_codec (Fin 1) (Fin (- 2)) True False False (Fin 30) (Fin 5) 0 =
      Inr (f, initial_codec\<lparr>cd_scc_counter := 1\<rparr>) \<and> checksum_valid f \<and> \<not> bit_at (payload f) 40"
proof -
  have "wf_codec initial_codec" by (simp add: wf_codec_def initial_codec_def)
  from make_scc_control_preserves_template [OF _ _ _ _ this, of "Fin 1" "Fin (- 2)" "Fin 30" "Fin 5" True False False 0]
  obtain f where f: "make_scc_control initial_codec (Fin 1) (Fin (- 2)) True False False (Fin 30) (Fin 5) 0 =
      Inr (f, initial_codec\<lparr>cd_scc_counter := 1\<rparr>)" "checksum_valid f"
    "\<forall>p<256. \<not> scc_owned p \<longrightarrow> bit_at (payload f) p = bit_at (scc_base initial_codec) p"
    by (auto simp: initial_codec_def)
  have "bit_at (payload f) 40 = bit_at (scc_base initial_codec) 40"
    using f(3) by (simp add: scc_owned_def scc_ranges_def)
  also have "\<not> \<dots>" by (simp add: scc_base_def initial_codec_def bit_at_def)
  finally show ?thesis using f by blast
qed

lemma clamp_accel:
  "\<exists>v. cclamp (Fin q) (lit (- 1023 / 100)) (lit (1024 / 100)) = Fin v \<and>
     - (2879489011750011 / 281474976710656) \<le> v \<and> v \<le> 5764607523034235 / 562949953421312 \<and>
     \<bar>v - cclamp q (- 1023 / 100) (1024 / 100)\<bar> \<le> 1 / 10 ^ 12"
proof -
  let ?A = "- 2879489011750011 / 281474976710656 :: rat" and ?B = "5764607523034235 / 562949953421312 :: rat"
  have ineq: "?A \<le> ?B" by simp
  have "cclamp (Fin q) (lit (- 1023 / 100)) (lit (1024 / 100)) = Fin (cclamp q ?A ?B)"
    by (simp add: cclamp_def)
  moreover have "\<bar>cclamp q ?A ?B - cclamp q (- 1023 / 100) (1024 / 100)\<bar> \<le> 1 / 1000000000000"
    unfolding cclamp_def abs_le_iff by (simp split: if_split)
  ultimately show ?thesis using cclamp_bounds [OF ineq, of q] by simp
qed

text \<open>A frame that does not allow longitudinal control carries no demand: mode 0, and the raw value of
  zero acceleration in both fields.\<close>

lemma zero_acceleration_raw:
  "physical_to_raw (cclamp (lit 0) (lit (- 1023 / 100)) (lit (1024 / 100))) (lit (1 / 100)) (lit (- 1023 / 100)) 11 = Inr r \<Longrightarrow>
   r = 1023"
proof -
  assume r: "physical_to_raw (cclamp (lit 0) (lit (- 1023 / 100)) (lit (1024 / 100))) (lit (1 / 100)) (lit (- 1023 / 100)) 11 = Inr r"
  have zero: "cclamp (lit 0) (lit (- 1023 / 100)) (lit (1024 / 100)) = Fin 0" by (simp add: cclamp_def)
  have "\<bar>of_int (uint r) / 100 - 1023 / 100 - (0::rat)\<bar> \<le> 1 / 200 + 1 / 10 ^ 9"
    by (rule accel_raw_error [OF _ _ r [unfolded zero]]) simp_all
  then have "of_int (uint r) < (of_int 1024 :: rat)" "(of_int 1022 :: rat) < of_int (uint r)"
    unfolding abs_le_iff by simp_all
  then have "uint r = 1023" unfolding of_int_less_iff by linarith
  then show "r = 1023" by (intro word_uint_eqI) simp
qed

lemma scc_idle_on_wire:
  assumes "make_scc_control c (lit 0) (lit 0) False stopping gas speed jerk bus = Inr (f, c')" and "wf_codec c"
  shows "checksum_valid f \<and> cf_address f = kSccControlAddress \<and> cf_bus f = bus \<and>
    get_signal (payload f) 68 3 LittleEndian = Inr 0 \<and>
    get_signal (payload f) 128 11 LittleEndian = Inr 1023 \<and> get_signal (payload f) 140 11 LittleEndian = Inr 1023"
proof -
  have "isfinite speed" "isfinite jerk"
    using assms(1) by (auto simp: make_scc_control_def split: if_splits)
  then obtain sp vr rr ju jl d f' where
    v: "physical_to_raw (cclamp (lit 0) (lit (- 1023 / 100)) (lit (1024 / 100))) (lit (1 / 100)) (lit (- 1023 / 100)) 11 = Inr vr"
    and r: "physical_to_raw (cclamp (lit 0) (lit (- 1023 / 100)) (lit (1024 / 100))) (lit (1 / 100)) (lit (- 1023 / 100)) 11 = Inr rr"
    and d: "set_signals (scc_base c) (scc_fields (cd_scc_counter c) False stopping gas sp vr rr ju jl) = Inr d"
    and f': "seal_frame kSccControlAddress bus d = Inr f'"
    and m: "make_scc_control c (lit 0) (lit 0) False stopping gas speed jerk bus = Inr (f', c\<lparr>cd_scc_counter := cd_scc_counter c + 1\<rparr>)"
    using make_scc_control_ok [of "lit 0" "lit 0" speed jerk c False stopping gas bus] assms(2) by auto
  from m assms(1) have f: "f' = f" by simp
  have base: "length (scc_base c) = 32" using assms(2) by (simp add: scc_base_def wf_codec_def)
  have len: "length d = 32" using length_set_signals [OF _ d] base by simp
  note raw = zero_acceleration_raw [OF v] zero_acceleration_raw [OF r]
  have read1: "get_signal (payload f) 68 3 LittleEndian = Inr (take_bit 3 0)"
    by (rule hy.get_nth [OF _ _ d f' [unfolded f], of 6])
      (simp_all add: base, simp_all add: scc_fields_def uncovered_def scc_be raw del: signal_index.simps(2))
  have read2: "get_signal (payload f) 128 11 LittleEndian = Inr (take_bit 11 1023)"
    by (rule hy.get_nth [OF _ _ d f' [unfolded f], of 11])
      (simp_all add: base, simp_all add: scc_fields_def uncovered_def scc_be raw del: signal_index.simps(2))
  have read3: "get_signal (payload f) 140 11 LittleEndian = Inr (take_bit 11 1023)"
    by (rule hy.get_nth [OF _ _ d f' [unfolded f], of 12])
      (simp_all add: base, simp_all add: scc_fields_def uncovered_def scc_be raw del: signal_index.simps(2))
  have raw_bits: "take_bit 11 (1023 :: u64) = 1023" by (rule word_uint_eqI) (simp add: unsigned_take_bit_eq)
  have mode: "get_signal (payload f) 68 3 LittleEndian = Inr 0" using read1 by simp
  have "checksum_valid f \<and> cf_address f = kSccControlAddress \<and> cf_bus f = bus"
    using hy.seal_valid [OF _ f' [unfolded f]] hy.seal_header [OF _ f' [unfolded f]] len by simp
  then show ?thesis using mode read2 read3 unfolding raw_bits by blast
qed

text \<open>The acceleration request on the wire is the commanded one, clamped to the range of the field, to
  within half the resolution of 0.01 m/s2 and the floating-point error.\<close>

theorem make_scc_control_acceleration:
  assumes "wf_codec c" and "isfinite speed" "isfinite jerk"
  shows "\<exists>f w. make_scc_control c (Fin raw) (Fin value) enabled stopping gas speed jerk bus =
      Inr (f, c\<lparr>cd_scc_counter := cd_scc_counter c + 1\<rparr>) \<and>
    get_signal (payload f) 140 11 LittleEndian = Inr w \<and>
    \<bar>of_int (uint w) / 100 - 1023 / 100 - cclamp raw (- 1023 / 100) (1024 / 100)\<bar> \<le> 1 / 200 + 1 / 10 ^ 8"
proof -
  obtain sp vr rr ju jl d f where
    rr: "physical_to_raw (cclamp (Fin raw) (lit (- 1023 / 100)) (lit (1024 / 100))) (lit (1 / 100)) (lit (- 1023 / 100)) 11
       = Inr rr" "uint rr < 2 ^ 11"
    and d: "set_signals (scc_base c) (scc_fields (cd_scc_counter c) enabled stopping gas sp vr rr ju jl) = Inr d"
    and f: "seal_frame kSccControlAddress bus d = Inr f"
    and m: "make_scc_control c (Fin raw) (Fin value) enabled stopping gas speed jerk bus =
      Inr (f, c\<lparr>cd_scc_counter := cd_scc_counter c + 1\<rparr>)"
    using make_scc_control_ok [of "Fin raw" "Fin value" speed jerk c enabled stopping gas bus] assms
    by (auto simp: isfinite_iff)
  have base: "length (scc_base c) = 32" using assms(1) by (simp add: scc_base_def wf_codec_def)
  obtain v where v: "cclamp (Fin raw) (lit (- 1023 / 100)) (lit (1024 / 100)) = Fin v"
    "- (2879489011750011 / 281474976710656) \<le> v" "v \<le> 5764607523034235 / 562949953421312"
    "\<bar>v - cclamp raw (- 1023 / 100) (1024 / 100)\<bar> \<le> 1 / 10 ^ 12"
    using clamp_accel by blast
  have "\<bar>of_int (uint rr) / 100 - 1023 / 100 - v\<bar> \<le> 1 / 200 + 1 / 10 ^ 9"
    using v(2,3) rr(1) [unfolded v(1)] by (rule accel_raw_error)
  moreover have get: "get_signal (payload f) 140 11 LittleEndian = Inr rr"
  proof -
    have "take_bit 11 rr = rr" using rr(2)
      by (intro word_uint_eqI) (simp add: unsigned_take_bit_eq take_bit_int_eq_self)
    moreover have "get_signal (payload f) 140 11 LittleEndian = Inr (take_bit 11 rr)"
      by (rule hy.get_nth [OF _ _ d f, of 12])
        (simp_all add: base, simp_all add: scc_fields_def uncovered_def scc_be del: signal_index.simps(2))
    ultimately show ?thesis by simp
  qed
  ultimately have "\<bar>of_int (uint rr) / 100 - 1023 / 100 - cclamp raw (- 1023 / 100) (1024 / 100)\<bar>
      \<le> 1 / 200 + 1 / 10 ^ 9 + 1 / 10 ^ 12"
    using v(4) by linarith
  also have "\<dots> \<le> 1 / 200 + 1 / (10 :: rat) ^ 8" by simp
  finally show ?thesis using m get by blast
qed

theorem make_scc_control_acceleration_witness:
  "\<exists>f w. make_scc_control initial_codec (Fin (- 2)) (Fin (- 2)) True False False (Fin 30) (Fin 5) 0 =
      Inr (f, initial_codec\<lparr>cd_scc_counter := 1\<rparr>) \<and>
    get_signal (payload f) 140 11 LittleEndian = Inr w \<and> \<bar>of_int (uint w) / 100 - 1023 / 100 + (2::rat)\<bar> \<le> 1 / 100"
proof -
  have "wf_codec initial_codec" by (simp add: wf_codec_def initial_codec_def)
  from make_scc_control_acceleration [OF this, of "Fin 30" "Fin 5" "- 2" "- 2" True False False 0]
  show ?thesis by (auto simp: initial_codec_def cclamp_def)
qed

end
