(* ===== verification/Panda_Protocol.thy ===== *)
theory Panda_Protocol
  imports Bit_Codec
begin

text \<open>
  The byte stream of the Panda's bulk endpoints (\<open>src/panda_protocol.cpp\<close> and the two static
  functions of \<open>src/panda_usb.cpp\<close> that judge a bulk read). \<open>pack_frames\<close> writes packets,
  \<open>unpack_frames\<close> takes them out of the carry buffer, which it returns beside its result.
  \<open>stream\<close> is the abstract reader: it consumes a list and knows no positions. The locale
  \<open>chunked_reader\<close> says what reassembly means, whatever the sizes of the USB transfers.
\<close>

section \<open>The code\<close>

definition kCanHeaderSize :: nat where
  "kCanHeaderSize = 6"

definition kDlcToLength :: "u8 list" where
  "kDlcToLength = [0, 1, 2, 3, 4, 5, 6, 7, 8, 12, 16, 20, 24, 32, 48, 64]"

text \<open>\<open>takeWhile\<close> is the iterator \<open>std::find\<close> returns.\<close>

definition length_to_dlc :: "u8 \<Rightarrow> exn + u8" where
  "length_to_dlc len =
     (let it = length (takeWhile (\<lambda>x. x \<noteq> len) kDlcToLength)
      in if it = length kDlcToLength
         then Inl (Invalid_argument ''CAN-FD payload length is not representable by a DLC'')
         else Inr (word_of_nat it))"

definition xor_checksum :: "bytes \<Rightarrow> u8" where
  "xor_checksum xs = foldl (XOR) 0 xs"

text \<open>The bytes one frame appends to the output.\<close>

definition pack_frame :: "can_frame \<Rightarrow> exn + bytes" where
  "pack_frame f =
     (if 7 < cf_bus f \<or> 2 ^ 29 \<le> cf_address f \<or> \<not> cf_extended f \<and> 0x800 \<le> cf_address f
      then Inl (Invalid_argument ''invalid Panda CAN address or bus'')
      else ebind (length_to_dlc (cf_size f)) (\<lambda>dlc.
        let header = (push_bit 4 dlc OR push_bit 1 (cf_bus f)) OR (if cf_fd f then 1 else 0);
            word = push_bit 3 (cf_address f) OR (if cf_extended f then 4 else 0);
            out = [header, ucast (word AND 0xFF), ucast (drop_bit 8 word AND 0xFF),
                   ucast (drop_bit 16 word AND 0xFF), ucast (drop_bit 24 word AND 0xFF), 0]
                  @ take (unat (cf_size f)) (cf_data f)
        in Inr (out[5 := xor_checksum out])))"

text \<open>The loop of \<open>pack_frames_into\<close>, with the output buffer it leaves, also when it throws.\<close>

fun pack_loop :: "can_frame list \<Rightarrow> bytes \<Rightarrow> (exn + unit) \<times> bytes" where
  "pack_loop [] output = (Inr (), output)"
| "pack_loop (f # fs) output =
     (case pack_frame f of Inl e \<Rightarrow> (Inl e, output) | Inr p \<Rightarrow> pack_loop fs (output @ p))"

text \<open>\<open>output\<close> is cleared first, so what it held does not matter.\<close>

definition pack_frames_into :: "can_frame list \<Rightarrow> (exn + unit) \<times> bytes" where
  "pack_frames_into fs = pack_loop fs []"

definition pack_frames :: "can_frame list \<Rightarrow> exn + bytes" where
  "pack_frames fs = (case pack_frames_into fs of (r, output) \<Rightarrow> ebind r (\<lambda>_. Inr output))"

text \<open>The frame in the \<open>packet_size\<close> bytes at \<open>position\<close>.\<close>

definition decode_packet :: "bytes \<Rightarrow> u8 \<Rightarrow> time_point \<Rightarrow> can_frame" where
  "decode_packet p len received_at =
     (let word = ((ucast (p ! 1) OR push_bit 8 (ucast (p ! 2))) OR push_bit 16 (ucast (p ! 3)))
                  OR push_bit 24 (ucast (p ! 4)) :: u32
      in empty_frame\<lparr>
           cf_fd := p ! 0 AND 1 \<noteq> 0,
           cf_bus := drop_bit 1 (p ! 0) AND 7,
           cf_extended := word AND 4 \<noteq> 0,
           cf_rejected := p ! 1 AND 1 \<noteq> 0,
           cf_returned := p ! 1 AND 2 \<noteq> 0,
           cf_address := drop_bit 3 word,
           cf_size := len,
           cf_received_at := received_at,
           cf_data := take (unat len) (drop kCanHeaderSize p) @ drop (unat len) (cf_data empty_frame)\<rparr>)"

function unpack_loop ::
  "bytes \<Rightarrow> time_point \<Rightarrow> nat \<Rightarrow> can_frame list \<Rightarrow> (exn + can_frame list) \<times> bytes" where
  "unpack_loop carry received_at position frames =
     (if length carry - position < kCanHeaderSize then (Inr frames, drop position carry)
      else
        let dlc = unat (drop_bit 4 (carry ! position))
        in if length kDlcToLength \<le> dlc
           then (Inl (Runtime_error ''invalid DLC in Panda CAN packet''), [])
           else
             let len = kDlcToLength ! dlc; packet_size = kCanHeaderSize + unat len
             in if length carry - position < packet_size then (Inr frames, drop position carry)
                else if xor_checksum (take packet_size (drop position carry)) \<noteq> 0
                then (Inl (Panda_checksum_failure position (length carry) packet_size
                        (take kCanHeaderSize (drop position carry))), [])
                else unpack_loop carry received_at (position + packet_size)
                       (frames @ [decode_packet (drop position carry) len received_at]))"
  by pat_completeness auto

termination
  by (relation "measure (\<lambda>(carry, t, position, fs). length carry - position)")
    (auto simp: kCanHeaderSize_def)

declare unpack_loop.simps [simp del]

text \<open>\<open>unpack_frames(carry, bytes, size, received_at)\<close> with the \<open>size\<close> bytes as a list.\<close>

definition unpack_frames ::
  "bytes \<Rightarrow> bytes \<Rightarrow> time_point \<Rightarrow> (exn + can_frame list) \<times> bytes" where
  "unpack_frames carry bs received_at = unpack_loop (carry @ bs) received_at 0 []"

text \<open>What the code takes from libusb: the timeout status and the names of the statuses.\<close>

record libusb =
  lu_error_timeout :: int
  lu_error_name :: "int \<Rightarrow> string"

definition initial_receive_boundary :: "libusb \<Rightarrow> nat \<Rightarrow> int \<Rightarrow> int \<Rightarrow> exn + bool" where
  "initial_receive_boundary lu capacity status transferred =
     (if status \<noteq> 0 \<and> status \<noteq> lu_error_timeout lu
      then Inl (Runtime_error (''Red Panda initial CAN drain failed: '' @ lu_error_name lu status))
      else if capacity = 0 \<or> capacity mod 64 \<noteq> 0 \<or> transferred < 0 \<or> capacity < nat transferred
      then Inl (Runtime_error ''Red Panda initial CAN drain returned an invalid byte count/capacity'')
      else Inr (status = 0 \<and> nat transferred < capacity))"

definition decode_bulk_read ::
  "libusb \<Rightarrow> bytes \<Rightarrow> bytes \<Rightarrow> int \<Rightarrow> int \<Rightarrow> time_point \<Rightarrow> (exn + can_frame list) \<times> bytes" where
  "decode_bulk_read lu carry buffer status transferred received_at =
     (if status \<noteq> 0 \<and> status \<noteq> lu_error_timeout lu
      then (Inl (Runtime_error (''Red Panda CAN read failed: '' @ lu_error_name lu status)), carry)
      else if transferred < 0 \<or> length buffer < nat transferred
      then (Inl (Runtime_error ''Red Panda CAN read returned an invalid byte count''), carry)
      else unpack_frames carry (take (nat transferred) buffer) received_at)"

section \<open>The abstract reader\<close>

text \<open>
  The frames a byte list starts with, what is left of it, and whether the reading ended for want of
  bytes (\<open>True\<close>) or at a packet that fails the check (\<open>False\<close>).
\<close>

definition packet_length :: "bytes \<Rightarrow> nat" where
  "packet_length r = kCanHeaderSize + unat (kDlcToLength ! unat (drop_bit 4 (r ! 0)))"

lemma packet_length_pos [simp]: "0 < packet_length r"
  by (simp add: packet_length_def kCanHeaderSize_def)

function stream :: "time_point \<Rightarrow> bytes \<Rightarrow> can_frame list \<times> bytes \<times> bool" where
  "stream t r =
     (if length r < kCanHeaderSize \<or> length r < packet_length r then ([], r, True)
      else if xor_checksum (take (packet_length r) r) \<noteq> 0 then ([], [], False)
      else case stream t (drop (packet_length r) r) of
        (fs, c, ok) \<Rightarrow> (decode_packet r (kDlcToLength ! unat (drop_bit 4 (r ! 0))) t # fs, c, ok))"
  by pat_completeness auto

termination
  by (relation "measure (\<lambda>(t, r). length r)") (auto simp: kCanHeaderSize_def intro!: diff_less)

declare stream.simps [simp del]

lemma high_nibble: "unat (drop_bit 4 (x :: u8)) < 16"
proof -
  have "unat (drop_bit 4 x) = unat x div 16" by (simp add: unsigned_drop_bit_eq drop_bit_eq_div unat_div_distrib)
  moreover have "unat x < 256" using unsigned_less [of x, where 'a = nat] by simp
  ultimately show ?thesis by linarith
qed

lemma length_kDlcToLength [simp]: "length kDlcToLength = 16"
  by (simp add: kDlcToLength_def)

text \<open>The invalid-DLC error is out of reach, and the reader with positions is the abstract one.\<close>

lemma unpack_loop_stream:
  assumes "position \<le> length carry"
  shows "case stream t (drop position carry) of (fs, c, ok) \<Rightarrow>
     if ok then unpack_loop carry t position frames = (Inr (frames @ fs), c)
     else \<exists>o' n h. unpack_loop carry t position frames =
            (Inl (Panda_checksum_failure o' (length carry) n h), [])"
  using assms
proof (induction "length carry - position" arbitrary: position frames rule: less_induct)
  case less
  let ?r = "drop position carry"
  show ?case
  proof (cases "length ?r < kCanHeaderSize \<or> length ?r < packet_length ?r \<or>
      xor_checksum (take (packet_length ?r) ?r) \<noteq> 0")
    case True
    then show ?thesis using high_nibble [of "carry ! position"]
      by (auto simp: stream.simps [of t ?r] unpack_loop.simps [of carry t position frames]
          packet_length_def Let_def kCanHeaderSize_def)
  next
    case False
    define n where "n = packet_length ?r"
    have n: "0 < n" "position + n \<le> length carry" using False less.prems by (auto simp: n_def)
    have "?r ! 0 = carry ! position" using nth_drop [of position carry 0] less.prems by simp
    then have step: "unpack_loop carry t position frames = unpack_loop carry t (position + n)
        (frames @ [decode_packet ?r (kDlcToLength ! unat (drop_bit 4 (?r ! 0))) t])"
      using False high_nibble [of "carry ! position"]
      by (simp add: unpack_loop.simps [of carry t position frames] packet_length_def Let_def n_def
          not_less not_le)
    have "stream t ?r = (case stream t (drop (position + n) carry) of
        (fs, c, ok) \<Rightarrow> (decode_packet ?r (kDlcToLength ! unat (drop_bit 4 (?r ! 0))) t # fs, c, ok))"
      using False by (subst stream.simps) (simp add: n_def add.commute)
    then show ?thesis
      using less.hyps [of "position + n" "frames @ [decode_packet ?r (kDlcToLength ! unat (drop_bit 4 (?r ! 0))) t]"]
        n step by (auto split: prod.splits if_splits)
  qed
qed

section \<open>Reassembly\<close>

lemma stream_short: "length r < kCanHeaderSize \<or> length r < packet_length r \<Longrightarrow> stream t r = ([], r, True)"
  by (subst stream.simps) auto

text \<open>More bytes behind what was read do not change the reading.\<close>

lemma stream_append:
  "stream t a = (fs, c, True) \<Longrightarrow>
   stream t (a @ b) = (case stream t (c @ b) of (gs, d, ok) \<Rightarrow> (fs @ gs, d, ok))"
proof (induction t a arbitrary: fs c rule: stream.induct)
  case (1 t r)
  let ?n = "packet_length r"
  show ?case
  proof (cases "length r < kCanHeaderSize \<or> length r < ?n")
    case True
    with 1 stream_short [OF this, of t] have "fs = []" "c = r" by simp_all
    then show ?thesis by (simp split: prod.splits)
  next
    case long: False
    show ?thesis
    proof (cases "xor_checksum (take ?n r) = 0")
      case False
      with long 1 show ?thesis by (simp add: stream.simps [of t r])
    next
      case True
      obtain gs d where rest: "stream t (drop ?n r) = (gs, d, True)" and
        fs: "fs = decode_packet r (kDlcToLength ! unat (drop_bit 4 (r ! 0))) t # gs" "c = d"
        using 1(2) long True by (auto simp: stream.simps [of t r] split: prod.splits)
      have first: "packet_length (r @ b) = ?n" "(r @ b) ! 0 = r ! 0"
        using long by (auto simp: packet_length_def kCanHeaderSize_def nth_append)
      have same: "decode_packet (r @ b) len t = decode_packet r len t" if "unat len + kCanHeaderSize \<le> length r" for len
      proof -
        have "i < length r" if "i < 6" for i using that \<open>unat len + kCanHeaderSize \<le> length r\<close> by (simp add: kCanHeaderSize_def)
        then have "i < 6 \<Longrightarrow> (r @ b) ! i = r ! i" for i by (simp add: nth_append)
        with that show ?thesis by (simp add: decode_packet_def Let_def kCanHeaderSize_def)
      qed
      have "stream t (r @ b) = (case stream t (drop ?n r @ b) of (hs, e, ok) \<Rightarrow>
          (decode_packet r (kDlcToLength ! unat (drop_bit 4 (r ! 0))) t # hs, e, ok))"
        using long True first same by (subst stream.simps) (simp add: not_less packet_length_def add.commute)
      also have "\<dots> = (case stream t (c @ b) of (gs, d, ok) \<Rightarrow> (fs @ gs, d, ok))"
        using 1(1) [OF _ _ rest] long True fs by (auto split: prod.splits)
      finally show ?thesis .
    qed
  qed
qed

text \<open>\<open>unpack_frames\<close> is the abstract reader on the carry and the new bytes.\<close>

lemma unpack_frames_stream:
  "case stream t (carry @ bs) of (fs, c, ok) \<Rightarrow>
     if ok then unpack_frames carry bs t = (Inr fs, c)
     else \<exists>o' n h. unpack_frames carry bs t =
            (Inl (Panda_checksum_failure o' (length carry + length bs) n h), [])"
  using unpack_loop_stream [of 0 "carry @ bs" t "[]"]
  by (auto simp: unpack_frames_def split: prod.splits)

lemma unpack_frames_Inr: "unpack_frames carry bs t = (Inr fs, c) \<longleftrightarrow> stream t (carry @ bs) = (fs, c, True)"
  using unpack_frames_stream [where t = t and carry = carry and bs = bs] by (auto split: prod.splits if_splits)

text \<open>
  A reader that is fed chunk by chunk: what it returns for two chunks in turn is what it returns for
  their concatenation.
\<close>

fun feed :: "(bytes \<Rightarrow> 'c \<Rightarrow> ('e + 'f list) \<times> bytes) \<Rightarrow> bytes \<Rightarrow> 'c list \<Rightarrow> ('e + 'f list) \<times> bytes" where
  "feed read c [] = (Inr [], c)"
| "feed read c (a # as) =
     (case read c a of
        (Inl e, d) \<Rightarrow> (Inl e, d)
      | (Inr fs, d) \<Rightarrow>
          (case feed read d as of (Inl e, d') \<Rightarrow> (Inl e, d') | (Inr gs, d') \<Rightarrow> (Inr (fs @ gs), d')))"

locale chunked_reader =
  fixes read :: "bytes \<Rightarrow> bytes \<Rightarrow> ('e + 'f list) \<times> bytes"
  assumes read_append: "read c a = (Inr fs, d) \<Longrightarrow> read d b = (Inr gs, e) \<Longrightarrow>
      read c (a @ b) = (Inr (fs @ gs), e)"
    and read_split: "read c (a @ b) = (Inr hs, e) \<Longrightarrow>
      \<exists>fs d gs. read c a = (Inr fs, d) \<and> read d b = (Inr gs, e) \<and> hs = fs @ gs"
begin

text \<open>Any way to cut a stream that reads without error gives the same frames and the same rest.\<close>

lemma feed_concat:
  "as \<noteq> [] \<Longrightarrow> read c (concat as) = (Inr fs, d) \<Longrightarrow> feed read c as = (Inr fs, d)"
proof (induction as arbitrary: c fs)
  case (Cons a as)
  show ?case
  proof (cases "as = []")
    case True with Cons.prems show ?thesis by simp
  next
    case False
    obtain f1 c1 f2 where r: "read c a = (Inr f1, c1)" "read c1 (concat as) = (Inr f2, d)" "fs = f1 @ f2"
      using read_split [of c a "concat as" fs d] Cons.prems(2) by auto
    with Cons.IH [OF False r(2)] show ?thesis by simp
  qed
qed simp

end

text \<open>A beginning of a stream that reads without error reads without error.\<close>

lemma stream_prefix: "stream t (a @ b) = (hs, e, True) \<Longrightarrow> \<exists>fs c. stream t a = (fs, c, True)"
proof (induction t a arbitrary: hs rule: stream.induct)
  case (1 t r)
  let ?n = "packet_length r"
  show ?case
  proof (cases "length r < kCanHeaderSize \<or> length r < ?n")
    case True then show ?thesis by (simp add: stream_short)
  next
    case long: False
    have first: "packet_length (r @ b) = ?n"
      using long by (auto simp: packet_length_def kCanHeaderSize_def nth_append)
    have ok: "xor_checksum (take ?n r) = 0"
      and rest: "\<exists>gs. stream t (drop ?n r @ b) = (gs, e, True)"
      using 1(2) long first by (auto simp: stream.simps [of t "r @ b"] split: if_splits prod.splits)
    then obtain gs c where "stream t (drop ?n r) = (gs, c, True)" using 1(1) long by blast
    with long ok show ?thesis by (subst stream.simps) auto
  qed
qed

interpretation panda: chunked_reader "\<lambda>c b. unpack_frames c b t" for t
proof unfold_locales
  fix c a fs d b gs e
  assume "unpack_frames c a t = (Inr fs, d)" "unpack_frames d b t = (Inr gs, e)"
  then show "unpack_frames c (a @ b) t = (Inr (fs @ gs), e)"
    using stream_append [of t "c @ a" fs d b] by (simp add: unpack_frames_Inr)
next
  fix c a b hs e
  assume "unpack_frames c (a @ b) t = (Inr hs, e)"
  then have s: "stream t ((c @ a) @ b) = (hs, e, True)" by (simp add: unpack_frames_Inr)
  then obtain fs d where f: "stream t (c @ a) = (fs, d, True)" using stream_prefix by blast
  with s stream_append [OF f, of b]
  show "\<exists>fs d gs. unpack_frames c a t = (Inr fs, d) \<and> unpack_frames d b t = (Inr gs, e) \<and> hs = fs @ gs"
    by (auto simp: unpack_frames_Inr split: prod.splits)
qed

section \<open>Packing\<close>

lemma foldl_xor: "foldl (XOR) a xs = a XOR foldl (XOR) 0 (xs :: bytes)"
  by (induction xs arbitrary: a) (simp, metis (no_types) foldl_Cons xor.assoc xor.left_neutral)

lemma xor_checksum_append: "xor_checksum (xs @ ys) = xor_checksum xs XOR xor_checksum ys"
  unfolding xor_checksum_def foldl_append by (rule foldl_xor)

lemma xor_checksum_Cons: "xor_checksum (x # xs) = x XOR xor_checksum xs"
  unfolding xor_checksum_def foldl_Cons xor.left_neutral by (rule foldl_xor)

text \<open>A byte that completes the checksum makes the whole sum zero.\<close>

lemma xor_checksum_seal:
  assumes "i < length xs" and "xs ! i = 0"
  shows "xor_checksum (xs[i := xor_checksum xs]) = 0"
proof -
  have xs: "xs = take i xs @ 0 # drop (Suc i) xs" using assms by (metis id_take_nth_drop)
  have "xs[i := y] = take i xs @ y # drop (Suc i) xs" for y
    using assms by (simp add: upd_conv_take_nth_drop)
  moreover have "xor_checksum xs = xor_checksum (take i xs) XOR xor_checksum (drop (Suc i) xs)"
    by (subst xs) (simp add: xor_checksum_append xor_checksum_Cons)
  ultimately show ?thesis
    by (simp add: xor_checksum_append xor_checksum_Cons xor.assoc xor.left_commute)
qed

lemma length_to_dlc_Inr:
  assumes "length_to_dlc len = Inr dlc"
  shows "unat dlc < 16" and "kDlcToLength ! unat dlc = len"
proof -
  define it where "it = length (takeWhile (\<lambda>x. x \<noteq> len) kDlcToLength)"
  have it: "it < 16" "dlc = word_of_nat it"
    using assms length_takeWhile_le [of "\<lambda>x. x \<noteq> len" kDlcToLength]
    by (auto simp: length_to_dlc_def it_def [symmetric] Let_def split: if_splits)
  then have u: "unat dlc = it" by (simp add: unat_of_nat)
  with it show "unat dlc < 16" by simp
  have "\<not> kDlcToLength ! it \<noteq> len" unfolding it_def by (rule nth_length_takeWhile) (use it in \<open>simp add: it_def\<close>)
  with u show "kDlcToLength ! unat dlc = len" by simp
qed

lemma bits_8: "bit (0xFF :: 'a::len word) n \<longleftrightarrow> n < LENGTH('a) \<and> n < 8"
  using bit_mask_iff [of 8 n, where 'a = "'a word"] by (simp add: mask_eq_exp_minus_1)

lemma word_bytes:
  "((ucast (ucast (w AND 0xFF) :: u8) OR push_bit 8 (ucast (ucast (drop_bit 8 w AND 0xFF) :: u8)))
     OR push_bit 16 (ucast (ucast (drop_bit 16 w AND 0xFF) :: u8)))
     OR push_bit 24 (ucast (ucast (drop_bit 24 w AND 0xFF) :: u8)) = w" for w :: u32
proof (rule bit_word_eqI)
  fix n assume n: "n < LENGTH(32)"
  consider "n < 8" | "8 \<le> n" "n < 16" | "16 \<le> n" "n < 24" | "24 \<le> n" "n < 32" using n by fastforce
  then show "bit (((ucast (ucast (w AND 0xFF) :: u8) OR push_bit 8 (ucast (ucast (drop_bit 8 w AND 0xFF) :: u8)))
     OR push_bit 16 (ucast (ucast (drop_bit 16 w AND 0xFF) :: u8)))
     OR push_bit 24 (ucast (ucast (drop_bit 24 w AND 0xFF) :: u8)) :: u32) n = bit w n"
    by cases (simp_all only: bit_or_iff bit_push_bit_iff bit_ucast_iff bit_and_iff bit_drop_bit_eq
        bits_8 comp_apply, auto dest: bit_imp_le_length)
qed

text \<open>The three parts of the header byte.\<close>

lemma header_parts:
  fixes dlc bus h :: u8
  assumes "unat dlc < 16" and "bus \<le> 7"
    and h_def: "h = (push_bit 4 dlc OR push_bit 1 bus) OR (if fd then 1 else 0)"
  shows "drop_bit 4 h = dlc" and "drop_bit 1 h AND 7 = bus" and "h AND 1 \<noteq> 0 \<longleftrightarrow> fd"
proof -
  have hi: "\<not> bit dlc n" if "4 \<le> n" for n
  proof -
    have "dlc = take_bit 4 dlc"
      using assms(1) by (intro word_unat_eq_iff [THEN iffD2]) (simp add: unsigned_take_bit_eq take_bit_nat_eq_self)
    with that show ?thesis by (metis bit_take_bit_iff not_le)
  qed
  then have hi': "bit dlc n \<Longrightarrow> n < 4" for n by (meson not_le)
  have lo: "\<not> bit bus n" if "3 \<le> n" for n
  proof -
    have "unat bus \<le> 7" using assms(2) by (simp add: word_le_nat_alt)
    then have "bus = take_bit 3 bus"
      by (intro word_unat_eq_iff [THEN iffD2]) (simp add: unsigned_take_bit_eq take_bit_nat_eq_self)
    with that show ?thesis by (metis bit_take_bit_iff not_le)
  qed
  then have lo': "bit bus n \<Longrightarrow> n < 3" for n by (meson not_le)
  have b1: "bit (if fd then 1 else 0 :: u8) n \<longleftrightarrow> fd \<and> n = 0" for n by (auto simp: bit_1_iff)
  have b7: "bit (7 :: u8) n \<longleftrightarrow> n < 3" for n
    using bit_mask_iff [of 3 n, where 'a = "8 word"] by (auto simp: mask_eq_exp_minus_1)
  show "drop_bit 4 h = dlc"
    unfolding h_def
    by (rule bit_word_eqI, simp only: bit_drop_bit_eq bit_or_iff bit_push_bit_iff b1 comp_apply)
      (auto simp: lo dest: hi')
  show "drop_bit 1 h AND 7 = bus"
    unfolding h_def
    by (rule bit_word_eqI, simp only: bit_drop_bit_eq bit_or_iff bit_and_iff bit_push_bit_iff b1 b7 comp_apply)
      (auto dest: hi' lo')
  have "h AND 1 = of_bool (bit h 0)" by (simp add: and_one_eq bit_0 mod_2_eq_odd)
  moreover have "bit h 0 \<longleftrightarrow> fd" by (simp only: h_def bit_or_iff bit_push_bit_iff b1) simp
  ultimately show "h AND 1 \<noteq> 0 \<longleftrightarrow> fd" by simp
qed

lemma word_flags:
  fixes a :: u32
  assumes "a < 2 ^ 29" and w_def: "w = push_bit 3 a OR (if e then 4 else 0)"
  shows "drop_bit 3 w = a" and "w AND 4 \<noteq> 0 \<longleftrightarrow> e" and "\<not> bit w 0" and "\<not> bit w 1"
proof -
  have hi: "bit a n \<Longrightarrow> n < 29" for n
  proof -
    have "a = take_bit 29 a" using assms(1)
      by (intro word_unat_eq_iff [THEN iffD2]) (simp add: unsigned_take_bit_eq take_bit_nat_eq_self word_less_nat_alt)
    then show "bit a n \<Longrightarrow> n < 29" by (metis bit_take_bit_iff)
  qed
  have b4: "bit (if e then 4 else 0 :: u32) n \<longleftrightarrow> e \<and> n = 2" for n
    using bit_exp_iff [of 2 n, where 'a = "32 word"] by auto
  show "drop_bit 3 w = a" unfolding w_def
    by (rule bit_word_eqI, simp only: bit_drop_bit_eq bit_or_iff bit_push_bit_iff b4 comp_apply)
      (auto dest: hi)
  have "w AND 4 \<noteq> 0 \<longleftrightarrow> bit w 2" using and_exp_eq_0_iff_not_bit [of w 2] by simp
  also have "\<dots> \<longleftrightarrow> e" by (simp only: w_def bit_or_iff bit_push_bit_iff b4) simp
  finally show "w AND 4 \<noteq> 0 \<longleftrightarrow> e" .
  show "\<not> bit w 0" "\<not> bit w 1" by (simp_all only: w_def bit_or_iff bit_push_bit_iff b4) simp_all
qed

text \<open>What the receiver makes of a frame: the flags of the Panda's own answers are clear, the stamp is
  the receiver's, and the data array is zero behind the payload.\<close>

definition received_frame :: "can_frame \<Rightarrow> time_point \<Rightarrow> can_frame" where
  "received_frame f t = f\<lparr>cf_returned := False, cf_rejected := False, cf_received_at := t,
     cf_data := take (unat (cf_size f)) (cf_data f) @ replicate (64 - unat (cf_size f)) 0\<rparr>"

lemma packet_lengths: "unat dlc < 16 \<Longrightarrow> unat (kDlcToLength ! unat (dlc :: u8)) \<le> 64"
proof -
  assume "unat dlc < 16"
  then have "kDlcToLength ! unat dlc \<in> set kDlcToLength" by simp
  then show ?thesis by (auto simp: kDlcToLength_def)
qed

lemma pack_frame_stream:
  assumes pack: "pack_frame f = Inr p" and wf: "wf_frame f"
  shows "length p = 6 + unat (cf_size f)" and "packet_length (p @ r) = length p"
    and "xor_checksum p = 0"
    and "decode_packet (p @ r) (kDlcToLength ! unat (drop_bit 4 ((p @ r) ! 0))) t = received_frame f t"
proof -
  define word where "word = push_bit 3 (cf_address f) OR (if cf_extended f then 4 else 0)"
  obtain dlc where dlc: "length_to_dlc (cf_size f) = Inr dlc"
    using pack by (auto simp: pack_frame_def ebind_eq_Inr split: if_splits)
  have adr: "cf_bus f \<le> 7" "cf_address f < 2 ^ 29"
    using pack by (auto simp: pack_frame_def split: if_splits)
  define header where "header = (push_bit 4 dlc OR push_bit 1 (cf_bus f)) OR (if cf_fd f then 1 else 0)"
  define out where "out = [header, ucast (word AND 0xFF), ucast (drop_bit 8 word AND 0xFF),
      ucast (drop_bit 16 word AND 0xFF), ucast (drop_bit 24 word AND 0xFF), 0 :: u8]
      @ take (unat (cf_size f)) (cf_data f)"
  have p: "p = out[5 := xor_checksum out]"
    using pack dlc by (simp add: pack_frame_def Let_def header_def word_def out_def split: if_splits)
  note d = length_to_dlc_Inr [OF dlc]
  note h = header_parts [OF d(1) adr(1) header_def]
  note w = word_flags [OF adr(2) word_def]
  have size: "unat (cf_size f) \<le> 64" using packet_lengths [OF d(1)] d(2) by simp
  show len: "length p = 6 + unat (cf_size f)" using size wf by (simp add: p out_def wf_frame_def)
  have p0: "(p @ r) ! 0 = header" by (simp add: p out_def)
  show "packet_length (p @ r) = length p" by (simp add: packet_length_def p0 h d len kCanHeaderSize_def)
  show "xor_checksum p = 0" unfolding p by (rule xor_checksum_seal) (simp_all add: out_def)
  have pi: "(p @ r) ! 1 = ucast (word AND 0xFF)" "(p @ r) ! 2 = ucast (drop_bit 8 word AND 0xFF)"
    "(p @ r) ! 3 = ucast (drop_bit 16 word AND 0xFF)" "(p @ r) ! 4 = ucast (drop_bit 24 word AND 0xFF)"
    by (simp_all add: p out_def)
  have low: "\<not> bit ((p @ r) ! 1) 0" "\<not> bit ((p @ r) ! 1) 1"
    unfolding pi(1) by (simp_all only: bit_ucast_iff bit_and_iff w simp_thms)
  then have flags: "(p @ r) ! 1 AND 1 = 0" "(p @ r) ! 1 AND 2 = 0"
    using and_exp_eq_0_iff_not_bit [of "(p @ r) ! 1" 0] and_exp_eq_0_iff_not_bit [of "(p @ r) ! 1" 1]
    by simp_all
  have "drop 6 p = take (unat (cf_size f)) (cf_data f)" by (simp add: p out_def)
  then have data: "take (unat (cf_size f)) (drop kCanHeaderSize (p @ r)) = take (unat (cf_size f)) (cf_data f)"
    using size wf len by (simp add: kCanHeaderSize_def wf_frame_def)
  show "decode_packet (p @ r) (kDlcToLength ! unat (drop_bit 4 ((p @ r) ! 0))) t = received_frame f t"
    unfolding decode_packet_def Let_def p0 pi h d w flags data word_bytes
    by (simp add: received_frame_def empty_frame_def flags [unfolded pi])
qed

lemma stream_packet:
  assumes "pack_frame f = Inr p" and "wf_frame f"
  shows "stream t (p @ r) = (case stream t r of (fs, c, ok) \<Rightarrow> (received_frame f t # fs, c, ok))"
proof -
  note p = pack_frame_stream [OF assms]
  have "\<not> (length (p @ r) < kCanHeaderSize \<or> length (p @ r) < packet_length (p @ r))"
    using p(1,2) by (simp add: kCanHeaderSize_def)
  with p show ?thesis by (subst stream.simps) (simp add: p(2))
qed

lemma pack_loop_append: "pack_loop fs out = (fst (pack_loop fs []), out @ snd (pack_loop fs []))"
proof (induction fs arbitrary: out)
  case (Cons f fs)
  show ?case
  proof (cases "pack_frame f")
    case (Inr p)
    then show ?thesis using Cons [of "out @ p"] Cons [of p] by simp
  qed simp
qed simp

lemma pack_frames_Cons:
  "pack_frames (f # fs) = ebind (pack_frame f) (\<lambda>p. ebind (pack_frames fs) (\<lambda>bs. Inr (p @ bs)))"
proof (cases "pack_frame f")
  case (Inr p)
  then show ?thesis using pack_loop_append [of fs p]
    by (cases "fst (pack_loop fs [])") (simp_all add: pack_frames_def pack_frames_into_def case_prod_beta)
qed (simp add: pack_frames_def pack_frames_into_def)

lemma pack_frames_Nil [simp]: "pack_frames [] = Inr []"
  by (simp add: pack_frames_def pack_frames_into_def)

text \<open>What the packing loop of the driver ends with, by the result of the packing as a whole.\<close>

lemma pack_frames_into_Inl: "pack_frames fs = Inl e \<Longrightarrow> \<exists>out. pack_frames_into fs = (Inl e, out)"
  by (cases "pack_frames_into fs"; cases "fst (pack_frames_into fs)") (auto simp: pack_frames_def)

lemma pack_frames_into_Inr: "pack_frames fs = Inr bs \<Longrightarrow> pack_frames_into fs = (Inr (), bs)"
  by (cases "pack_frames_into fs"; cases "fst (pack_frames_into fs)") (auto simp: pack_frames_def)

lemma stream_pack_frames:
  "pack_frames fs = Inr bs \<Longrightarrow> \<forall>f\<in>set fs. wf_frame f \<Longrightarrow>
   stream t bs = (map (\<lambda>f. received_frame f t) fs, [], True)"
proof (induction fs arbitrary: bs)
  case Nil
  then show ?case by (simp add: stream_short kCanHeaderSize_def)
next
  case (Cons f fs)
  then obtain p cs where "pack_frame f = Inr p" "pack_frames fs = Inr cs" "bs = p @ cs"
    by (auto simp: pack_frames_Cons ebind_eq_Inr)
  with Cons show ?case by (simp add: stream_packet)
qed

lemma stream_rest_short:
  "stream t r = (fs, c, ok) \<Longrightarrow> length c < 70"
proof (induction t r arbitrary: fs c ok rule: stream.induct)
  case (1 t r)
  have le: "packet_length r \<le> 70"
    using packet_lengths [OF high_nibble, of "r ! 0"] by (simp add: packet_length_def kCanHeaderSize_def)
  show ?case
  proof (cases "length r < kCanHeaderSize \<or> length r < packet_length r")
    case True
    then have "length r < 70" using le by (auto simp: kCanHeaderSize_def)
    with True 1(2) show ?thesis by (simp add: stream_short)
  next
    case False
    with 1 show ?thesis by (auto simp: stream.simps [of t r] split: if_splits prod.splits)
  qed
qed

section \<open>Properties\<close>

text \<open>A bulk read: the buffer, the status libusb returned, and the number of bytes transferred.\<close>

type_synonym bulk_read = "bytes \<times> int \<times> int"

fun good_read :: "libusb \<Rightarrow> bulk_read \<Rightarrow> bool" where
  "good_read lu (buffer, status, transferred) \<longleftrightarrow>
     (status = 0 \<or> status = lu_error_timeout lu) \<and> 0 \<le> transferred \<and> transferred \<le> int (length buffer)"

fun read_bytes :: "bulk_read \<Rightarrow> bytes" where
  "read_bytes (buffer, status, transferred) = take (nat transferred) buffer"

definition receive_read :: "libusb \<Rightarrow> time_point \<Rightarrow> bytes \<Rightarrow> bulk_read \<Rightarrow> (exn + can_frame list) \<times> bytes" where
  "receive_read lu t carry r =
     (case r of (buffer, status, transferred) \<Rightarrow> decode_bulk_read lu carry buffer status transferred t)"

lemma receive_good_read: "good_read lu r \<Longrightarrow> receive_read lu t c r = unpack_frames c (read_bytes r) t"
  by (cases r) (auto simp: receive_read_def decode_bulk_read_def)

lemma feed_good_reads:
  "list_all (good_read lu) rs \<Longrightarrow>
   feed (receive_read lu t) c rs = feed (\<lambda>c b. unpack_frames c b t) c (map read_bytes rs)"
  by (induction rs arbitrary: c) (auto simp: receive_good_read split: prod.splits sum.splits)

text \<open>C14: frames sent are frames received, however USB cuts the stream and whichever reads end in a
  timeout. If the bytes of a sequence of bulk reads are, in order, a packed list of frames, then
  decoding the reads one by one from an empty carry buffer returns exactly those frames in order and
  leaves the carry empty.\<close>

theorem pack_unpack_reads:
  assumes "pack_frames fs = Inr (concat (map read_bytes rs))" and "rs \<noteq> []"
    and "list_all wf_frame fs" and "list_all (good_read lu) rs"
  shows "feed (receive_read lu t) [] rs = (Inr (map (\<lambda>f. received_frame f t) fs), [])"
  unfolding feed_good_reads [OF assms(4)]
proof (rule panda.feed_concat)
  show "unpack_frames [] (concat (map read_bytes rs)) t = (Inr (map (\<lambda>f. received_frame f t) fs), [])"
    unfolding unpack_frames_Inr using stream_pack_frames [OF assms(1)] assms(3) by (simp add: list_all_iff)
qed (simp add: assms(2))

definition sample_can_frame :: can_frame where
  "sample_can_frame = empty_frame\<lparr>cf_address := 0x1A0, cf_bus := 1, cf_fd := True, cf_size := 2,
     cf_data := 0xAB # 0xCD # replicate 62 0\<rparr>"

definition sample_reads :: "bulk_read list" where
  "sample_reads = [([0x23, 0, 0x0D, 0xFF], 0, 3), ([0, 0, 0x48, 0xAB], - 7, 4), ([0xCD], 0, 1)]"

definition sample_libusb :: libusb where
  "sample_libusb = \<lparr>lu_error_timeout = - 7, lu_error_name = (\<lambda>s. ''error'')\<rparr>"

lemma pack_sample: "pack_frames [sample_can_frame] = Inr (concat (map read_bytes sample_reads))"
  by (simp add: sample_reads_def)
    (simp add: pack_frames_def pack_frames_into_def pack_frame_def sample_can_frame_def length_to_dlc_def kDlcToLength_def
      empty_frame_def xor_checksum_def)

theorem pack_unpack_reads_witness:
  "feed (receive_read sample_libusb 5) [] sample_reads = (Inr [received_frame sample_can_frame 5], []) \<and>
   cf_data (received_frame sample_can_frame 5) ! 1 = 0xCD"
  using pack_unpack_reads [OF pack_sample, of sample_libusb 5]
  by (simp add: wf_frame_def sample_can_frame_def empty_frame_def received_frame_def sample_reads_def
      sample_libusb_def)

text \<open>An unpack that fails has met a packet with a wrong checksum, never an invalid DLC, and leaves
  the carry empty; one that succeeds keeps fewer than 70 bytes, so the buffer does not grow.\<close>

theorem unpack_frames_outcomes:
  "case unpack_frames carry bs t of
     (Inl e, c) \<Rightarrow> c = [] \<and> (\<exists>p n h. e = Panda_checksum_failure p (length carry + length bs) n h)
   | (Inr fs, c) \<Rightarrow> length c < 70"
  using unpack_frames_stream [where t = t and carry = carry and bs = bs]
    stream_rest_short [of t "carry @ bs"]
  by (auto split: prod.splits if_splits sum.splits)

end
