(* ===== verification/Safety_Supervisor.thy ===== *)
theory Safety_Supervisor
  imports Can_Types
begin

text \<open>
  The supervisor that decides on every control tick whether the node may actuate
  (\<open>src/safety_supervisor.cpp\<close>). \<open>request_arm\<close> and \<open>update\<close> are the two operations on its state;
  \<open>update\<close> is composed of the blocks of the C++ function, in their order: the channel selection by
  buttons or by the Panda's session, the brake and ACC interventions, the health check, the
  admission tests with their early returns, and the actuation decision. A reason is a constructor
  with its text.
\<close>

section \<open>Configuration, reasons, decisions\<close>

record safety_config =
  sc_allow_actuation :: bool
  sc_allow_longitudinal :: bool
  sc_resume_on_command_return :: bool
  sc_lateral_button_toggle :: bool
  sc_longitudinal_button_toggle :: bool
  sc_lateral_disengage_on_brake :: bool
  sc_longitudinal_disengage_on_brake :: bool
  sc_disengage_on_cancel :: bool
  sc_longitudinal_override_on_gas :: bool
  sc_max_active_speed_mps :: double
  sc_max_abs_steering_angle_deg :: double
  sc_required_safety_mode :: u8
  sc_required_safety_param :: u16
  sc_required_harness_status :: u8
  sc_command_timeout :: millis
  sc_panda_timeout :: millis

definition default_safety_config :: safety_config where
  "default_safety_config = \<lparr>sc_allow_actuation = False, sc_allow_longitudinal = False,
     sc_resume_on_command_return = False, sc_lateral_button_toggle = True,
     sc_longitudinal_button_toggle = True, sc_lateral_disengage_on_brake = False,
     sc_longitudinal_disengage_on_brake = True, sc_disengage_on_cancel = True,
     sc_longitudinal_override_on_gas = True, sc_max_active_speed_mps = Fin 0,
     sc_max_abs_steering_angle_deg = Fin 0, sc_required_safety_mode = 28,
     sc_required_safety_param = 3073, sc_required_harness_status = 1,
     sc_command_timeout = 100, sc_panda_timeout = 250\<rparr>"

datatype reason =
    Not_initialized | Waiting_for_panda | Actuation_disabled | Fault_acknowledged | Operator_disarmed
  | Panda_timeout | Panda_fault | Panda_rejected | Waiting_for_arm | Wrong_harness | Ignition_lost
  | Vehicle_timeout | Speed_limit | Steering_limit | Cancel_pressed | Mode_changed | Waiting_for_mode
  | Command_wait_preserve | Command_timeout | Command_wait_restore | Command_invalid | Deadman_false
  | Waiting_takeover | Session_lost | Waiting_session | Waiting_for_channel | Waiting_eps
  | Eps_paused | Eps_timed_out | Eps_cleared_waiting | Not_allowed | Gas_override
  | Active_both | Active_brake | Active_acc_fault | Active_rejected | Active_lateral

primrec reason_text :: "reason \<Rightarrow> string" where
  "reason_text Not_initialized = ''not initialized''"
| "reason_text Waiting_for_panda = ''waiting for Panda''"
| "reason_text Actuation_disabled = ''actuation disabled by YAML''"
| "reason_text Fault_acknowledged = ''fault acknowledged by rearm''"
| "reason_text Operator_disarmed = ''operator disarmed''"
| "reason_text Panda_timeout = ''Panda disconnected or health timeout''"
| "reason_text Panda_fault = ''Panda safety or CAN health fault''"
| "reason_text Panda_rejected = ''Panda rejected an active lateral or unknown control frame''"
| "reason_text Waiting_for_arm = ''waiting for arm request''"
| "reason_text Wrong_harness = ''Panda harness orientation does not expose ECAN on logical bus 0''"
| "reason_text Ignition_lost = ''vehicle ignition lost during command session''"
| "reason_text Vehicle_timeout = ''critical vehicle state timeout''"
| "reason_text Speed_limit = ''configured active speed limit exceeded''"
| "reason_text Steering_limit = ''steering angle safety limit exceeded''"
| "reason_text Cancel_pressed = ''cancel button pressed''"
| "reason_text Mode_changed = ''Panda safety mode changed while active''"
| "reason_text Waiting_for_mode = ''waiting for configured Panda safety mode''"
| "reason_text Command_wait_preserve = ''waiting for fresh command; preserve buttons and restore stock''"
| "reason_text Command_timeout = ''control command timeout''"
| "reason_text Command_wait_restore = ''waiting for fresh command; restore stock communication''"
| "reason_text Command_invalid = ''control command contains a non-finite value''"
| "reason_text Deadman_false = ''command deadman is false''"
| "reason_text Waiting_takeover = ''fresh command; waiting for verified ECU takeover''"
| "reason_text Session_lost = ''Panda command-session CAN freshness lost''"
| "reason_text Waiting_session = ''waiting for validated command-session CAN''"
| "reason_text Waiting_for_channel = ''waiting for LDA lateral-only or SET combined arm''"
| "reason_text Waiting_eps = ''waiting for temporary EPS fault to clear''"
| "reason_text Eps_paused = ''temporary EPS fault; lateral paused''"
| "reason_text Eps_timed_out = ''temporary EPS fault recovery timed out''"
| "reason_text Eps_cleared_waiting = ''EPS fault cleared; waiting for Panda controls_allowed''"
| "reason_text Not_allowed = ''Panda controls_allowed is false''"
| "reason_text Gas_override = ''longitudinal arm paused by gas override''"
| "reason_text Active_both = ''active: lateral + longitudinal''"
| "reason_text Active_brake = ''active: lateral; longitudinal disengaged by brake''"
| "reason_text Active_acc_fault = ''active: lateral; longitudinal disengaged by ACC fault''"
| "reason_text Active_rejected = ''active: lateral; longitudinal frame rejected''"
| "reason_text Active_lateral = ''active: lateral''"

record safety_decision =
  sd_state :: control_state
  sd_lateral_allowed :: bool
  sd_longitudinal_allowed :: bool
  sd_lateral_armed :: bool
  sd_longitudinal_armed :: bool
  sd_use_vehicle_safety_mode :: bool
  sd_heartbeat_engaged :: bool
  sd_reason :: reason
  sd_soft_disable_remaining_ms :: u32
  sd_waiting_for_command :: bool

section \<open>State\<close>

record supervisor =
  sv_state :: control_state
  sv_arm_requested :: bool
  sv_lateral_enabled :: bool
  sv_longitudinal_enabled :: bool
  sv_longitudinal_latched_off :: bool
  sv_last_lane_keep_button_events :: u64
  sv_last_set_button_events :: u64
  sv_last_cancel_button_events :: u64
  sv_last_tx_blocked :: u32
  sv_soft_disable_deadline :: time_point
  sv_waiting_for_command :: bool
  sv_reason :: reason

definition kSoftDisableTime :: time_point where
  "kSoftDisableTime = seconds 3"

definition is_engaged :: "control_state \<Rightarrow> bool" where
  "is_engaged s \<longleftrightarrow> s = Active \<or> s = SoftDisabling"

definition initial_supervisor :: supervisor where
  "initial_supervisor = \<lparr>sv_state = Disconnected, sv_arm_requested = False,
     sv_lateral_enabled = False, sv_longitudinal_enabled = False,
     sv_longitudinal_latched_off = False, sv_last_lane_keep_button_events = 0,
     sv_last_set_button_events = 0, sv_last_cancel_button_events = 0, sv_last_tx_blocked = 0,
     sv_soft_disable_deadline = 0, sv_waiting_for_command = False, sv_reason = Waiting_for_panda\<rparr>"

text \<open>The constructor rejects a configuration it cannot supervise.\<close>

definition make_supervisor :: "safety_config \<Rightarrow> exn + supervisor" where
  "make_supervisor cfg =
     (if \<not> isfinite (sc_max_active_speed_mps cfg) \<or> \<not> isfinite (sc_max_abs_steering_angle_deg cfg) \<or>
         sc_max_active_speed_mps cfg < Fin 0 \<or> sc_max_abs_steering_angle_deg cfg < Fin 0 \<or>
         sc_command_timeout cfg \<le> 0 \<or> sc_panda_timeout cfg \<le> 0
      then Inl (Invalid_argument ''invalid safety supervisor configuration'')
      else Inr initial_supervisor)"

definition transition :: "control_state \<Rightarrow> reason \<Rightarrow> supervisor \<Rightarrow> supervisor" where
  "transition next r s =
     (let s = (if next \<noteq> SoftDisabling then s\<lparr>sv_soft_disable_deadline := 0\<rparr> else s)
      in s\<lparr>sv_state := next, sv_reason := r\<rparr>)"

definition drop_channels :: "supervisor \<Rightarrow> supervisor" where
  "drop_channels s = s\<lparr>sv_arm_requested := False, sv_lateral_enabled := False,
     sv_longitudinal_enabled := False\<rparr>"

definition disarm :: "reason \<Rightarrow> supervisor \<Rightarrow> supervisor" where
  "disarm r s = transition Passive r (drop_channels s)"

definition fault :: "reason \<Rightarrow> supervisor \<Rightarrow> supervisor" where
  "fault r s = transition Fault r (drop_channels s)"

section \<open>Arming\<close>

definition request_arm :: "safety_config \<Rightarrow> bool \<Rightarrow> supervisor \<Rightarrow> bool \<times> supervisor" where
  "request_arm cfg arm s =
     (if arm \<and> \<not> sc_allow_actuation cfg then (False, transition Passive Actuation_disabled s)
      else
        let s = (if arm \<and> sv_state s = Fault then transition Passive Fault_acknowledged s else s);
            s = (if arm \<and> \<not> sv_arm_requested s
                 then s\<lparr>sv_lateral_enabled := False, sv_longitudinal_enabled := False,
                        sv_longitudinal_latched_off := False\<rparr>
                 else s);
            s = s\<lparr>sv_arm_requested := arm\<rparr>;
            s = (if \<not> arm
                 then let s = s\<lparr>sv_lateral_enabled := False, sv_longitudinal_enabled := False\<rparr>
                      in if sv_state s \<noteq> Disconnected then transition Passive Operator_disarmed s else s
                 else s)
        in (True, s))"

section \<open>The blocks of update\<close>

definition decision ::
  "safety_config \<Rightarrow> time_point \<Rightarrow> bool \<Rightarrow> bool \<Rightarrow> bool \<Rightarrow> bool \<Rightarrow> supervisor \<Rightarrow> safety_decision" where
  "decision cfg now lateral_allowed longitudinal_allowed use_vehicle_safety_mode heartbeat_engaged s =
     \<lparr>sd_state = sv_state s,
      sd_lateral_allowed = lateral_allowed,
      sd_longitudinal_allowed = longitudinal_allowed,
      sd_lateral_armed = sv_lateral_enabled s,
      sd_longitudinal_armed = (sc_allow_longitudinal cfg \<and> sv_longitudinal_enabled s),
      sd_use_vehicle_safety_mode = use_vehicle_safety_mode,
      sd_heartbeat_engaged = heartbeat_engaged,
      sd_reason = sv_reason s,
      sd_soft_disable_remaining_ms =
        word_of_int (if sv_state s = SoftDisabling \<and> now < sv_soft_disable_deadline s
                     then (sv_soft_disable_deadline s - now) div 1000000 else 0),
      sd_waiting_for_command = sv_waiting_for_command s\<rparr>"

definition panda_fresh :: "safety_config \<Rightarrow> time_point \<Rightarrow> panda_health \<Rightarrow> bool" where
  "panda_fresh cfg now panda \<longleftrightarrow>
     ph_connected panda \<and> recent (ph_updated_at panda) now (sc_panda_timeout cfg)"

text \<open>Which channels are selected, and whether the selected mode was just turned off.\<close>

definition lane_keep_event :: "vehicle_state \<Rightarrow> supervisor \<Rightarrow> bool" where
  "lane_keep_event vehicle s \<longleftrightarrow> vs_lane_keep_button_events vehicle \<noteq> sv_last_lane_keep_button_events s"

definition set_event :: "vehicle_state \<Rightarrow> supervisor \<Rightarrow> bool" where
  "set_event vehicle s \<longleftrightarrow> vs_set_button_events vehicle \<noteq> sv_last_set_button_events s"

definition cancel_event :: "vehicle_state \<Rightarrow> supervisor \<Rightarrow> bool" where
  "cancel_event vehicle s \<longleftrightarrow> vs_cancel_button_events vehicle \<noteq> sv_last_cancel_button_events s"

definition note_buttons :: "vehicle_state \<Rightarrow> supervisor \<Rightarrow> supervisor" where
  "note_buttons vehicle s = s\<lparr>sv_last_lane_keep_button_events := vs_lane_keep_button_events vehicle,
     sv_last_set_button_events := vs_set_button_events vehicle\<rparr>"

definition select_lane_keep ::
  "safety_config \<Rightarrow> vehicle_state \<Rightarrow> panda_health \<Rightarrow> bool \<Rightarrow> bool \<Rightarrow> supervisor \<Rightarrow> supervisor \<times> bool" where
  "select_lane_keep cfg vehicle panda lane_keep_button_event set_button_event s =
     (if sc_resume_on_command_return cfg \<and> sv_arm_requested s then
        let s = (if set_button_event \<and> \<not> vs_brake_pressed vehicle \<and> \<not> vs_acc_fault vehicle
                 then s\<lparr>sv_longitudinal_latched_off := False\<rparr> else s);
            off = (sv_lateral_enabled s \<or> sv_longitudinal_enabled s) \<and>
                  \<not> ph_lateral_selected panda \<and> \<not> ph_longitudinal_selected panda
        in (s\<lparr>sv_lateral_enabled := ph_lateral_selected panda,
              sv_longitudinal_enabled := ph_longitudinal_selected panda \<and> \<not> sv_longitudinal_latched_off s\<rparr>, off)
      else if sv_arm_requested s \<and> lane_keep_button_event then
        let turn_off = sc_lateral_button_toggle cfg \<and> sv_lateral_enabled s \<and> \<not> sv_longitudinal_enabled s
        in (s\<lparr>sv_lateral_enabled := \<not> turn_off, sv_longitudinal_enabled := False\<rparr>, turn_off)
      else (s, False))"

definition select_set :: "safety_config \<Rightarrow> bool \<Rightarrow> supervisor \<times> bool \<Rightarrow> supervisor \<times> bool" where
  "select_set cfg set_button_event = (\<lambda>(s, off).
     if \<not> sc_resume_on_command_return cfg \<and> sv_arm_requested s \<and> set_button_event then
        let turn_off = sc_longitudinal_button_toggle cfg \<and> sv_lateral_enabled s \<and> sv_longitudinal_enabled s
        in (s\<lparr>sv_lateral_enabled := \<not> turn_off, sv_longitudinal_enabled := \<not> turn_off\<rparr>, turn_off)
      else (s, off))"

definition select_channels ::
  "safety_config \<Rightarrow> vehicle_state \<Rightarrow> panda_health \<Rightarrow> supervisor \<Rightarrow> supervisor \<times> bool" where
  "select_channels cfg vehicle panda s =
     (let lane = lane_keep_event vehicle s; set = set_event vehicle s
      in case select_set cfg set (select_lane_keep cfg vehicle panda lane set (note_buttons vehicle s)) of
        (s, off) \<Rightarrow> (s\<lparr>sv_last_cancel_button_events := vs_cancel_button_events vehicle\<rparr>, off))"

text \<open>Brake and ACC fault: the state, and whether each took the longitudinal channel away.\<close>

definition apply_brake :: "safety_config \<Rightarrow> vehicle_state \<Rightarrow> supervisor \<Rightarrow> supervisor \<times> bool" where
  "apply_brake cfg vehicle s =
     (if vs_brake_pressed vehicle then
        let s = (if sc_longitudinal_disengage_on_brake cfg
                 then s\<lparr>sv_longitudinal_latched_off := True\<rparr> else s);
            s = (if sc_lateral_disengage_on_brake cfg then s\<lparr>sv_lateral_enabled := False\<rparr> else s)
        in if sc_longitudinal_disengage_on_brake cfg \<and> sv_longitudinal_enabled s
           then (s\<lparr>sv_longitudinal_enabled := False\<rparr>, True) else (s, False)
      else (s, False))"

definition apply_acc_fault :: "safety_config \<Rightarrow> vehicle_state \<Rightarrow> supervisor \<Rightarrow> supervisor \<times> bool" where
  "apply_acc_fault cfg vehicle s =
     (if vs_acc_fault vehicle \<and> sc_allow_longitudinal cfg \<and> sv_longitudinal_enabled s
      then (s\<lparr>sv_longitudinal_latched_off := True, sv_longitudinal_enabled := False\<rparr>, True)
      else (s, False))"

text \<open>Panda health and rejected frames.\<close>

definition effective_faults :: "panda_health \<Rightarrow> u32" where
  "effective_faults panda = ph_faults panda AND NOT (ph_ignored_faults panda)"

definition panda_unhealthy :: "panda_health \<Rightarrow> bool" where
  "panda_unhealthy panda \<longleftrightarrow>
     (let ignored_fault_is_only_fault =
        ph_faults panda \<noteq> 0 \<and> effective_faults panda = 0 \<and> ph_ignored_faults panda \<noteq> 0
      in ph_command_session_blocked panda \<or> ph_heartbeat_lost panda \<or> ph_safety_rx_checks_invalid panda \<or>
         ph_bus_off panda \<or> effective_faults panda \<noteq> 0 \<or>
         (ph_fault_status panda \<noteq> 0 \<and> \<not> ignored_fault_is_only_fault))"

definition check_health ::
  "panda_health \<Rightarrow> bool \<Rightarrow> bool \<Rightarrow> supervisor \<Rightarrow> supervisor \<times> bool" where
  "check_health panda selected_mode_turned_off longitudinal_disengaged_by_brake s =
     (let (s, rejected) =
        (if panda_unhealthy panda then (fault Panda_fault s, False)
         else if is_engaged (sv_state s) \<and> sv_last_tx_blocked s < ph_safety_tx_blocked panda then
           let known_actuator_address = ph_last_rejected_address panda = 0x12A \<or>
                 ph_last_rejected_address panda = 0x1A0 \<or> ph_last_rejected_address panda = 0x160;
               button_off_rejection = selected_mode_turned_off \<and> \<not> sv_lateral_enabled s \<and>
                 \<not> sv_longitudinal_enabled s \<and> known_actuator_address;
               longitudinal_address = ph_last_rejected_address panda = 0x1A0 \<or>
                 ph_last_rejected_address panda = 0x160
           in if button_off_rejection then (s, False)
              else if (longitudinal_address \<or> longitudinal_disengaged_by_brake) \<and> sv_lateral_enabled s
              then (s\<lparr>sv_longitudinal_enabled := False, sv_longitudinal_latched_off := True\<rparr>, True)
              else (fault Panda_rejected s, False)
         else (s, False))
      in (s\<lparr>sv_last_tx_blocked := ph_safety_tx_blocked panda\<rparr>, rejected))"

text \<open>An early return: no channel, no heartbeat, the vehicle safety mode as given.\<close>

definition refuse :: "safety_config \<Rightarrow> time_point \<Rightarrow> bool \<Rightarrow> supervisor \<Rightarrow> supervisor \<times> safety_decision" where
  "refuse cfg now use_vehicle_safety_mode s = (s, decision cfg now False False use_vehicle_safety_mode False s)"

text \<open>The tests on arming, harness, ignition, vehicle and buttons; \<open>None\<close> goes on.\<close>

definition admit_vehicle ::
  "safety_config \<Rightarrow> time_point \<Rightarrow> vehicle_state \<Rightarrow> panda_health \<Rightarrow> bool \<Rightarrow> supervisor \<Rightarrow>
   (supervisor \<times> safety_decision) option" where
  "admit_vehicle cfg now vehicle panda cancelled s =
     (if \<not> sv_arm_requested s
      then Some (refuse cfg now False (if sv_state s \<noteq> Fault then transition Passive Waiting_for_arm s else s))
      else if ph_harness_status panda \<noteq> sc_required_harness_status cfg
      then Some (refuse cfg now False (fault Wrong_harness s))
      else if sc_resume_on_command_return cfg \<and> \<not> ph_ignition_on panda
      then Some (refuse cfg now False (fault Ignition_lost s))
      else if sv_state s = Fault then Some (refuse cfg now False s)
      else if \<not> vs_valid vehicle then Some (refuse cfg now False (fault Vehicle_timeout s))
      else if Fin 0 < sc_max_active_speed_mps cfg \<and> sc_max_active_speed_mps cfg < vs_speed_mps vehicle
      then Some (refuse cfg now False (fault Speed_limit s))
      else if Fin 0 < sc_max_abs_steering_angle_deg cfg \<and>
              sc_max_abs_steering_angle_deg cfg \<le> dabs (vs_steering_angle_deg vehicle)
      then Some (refuse cfg now False (fault Steering_limit s))
      else if sc_disengage_on_cancel cfg \<and> cancelled
      then Some (refuse cfg now False (disarm Cancel_pressed s))
      else None)"

definition configured_mode :: "safety_config \<Rightarrow> panda_health \<Rightarrow> bool" where
  "configured_mode cfg panda \<longleftrightarrow> ph_safety_mode panda = sc_required_safety_mode cfg \<and>
     ph_safety_param panda = sc_required_safety_param cfg"

definition standby_mode :: "safety_config \<Rightarrow> panda_health \<Rightarrow> bool" where
  "standby_mode cfg panda \<longleftrightarrow> sc_resume_on_command_return cfg \<and> ph_command_session_active panda \<and>
     ph_safety_mode panda = 19 \<and> ph_safety_param panda = sc_required_safety_param cfg"

definition command_fresh :: "safety_config \<Rightarrow> time_point \<Rightarrow> command_sample \<Rightarrow> bool" where
  "command_fresh cfg now command \<longleftrightarrow> recent (cs_received_at command) now (sc_command_timeout cfg)"

text \<open>The tests on the safety mode and the command.\<close>

definition admit_command ::
  "safety_config \<Rightarrow> time_point \<Rightarrow> vehicle_state \<Rightarrow> panda_health \<Rightarrow> command_sample \<Rightarrow> supervisor \<Rightarrow>
   (supervisor \<times> safety_decision) option" where
  "admit_command cfg now vehicle panda command s =
     (if \<not> configured_mode cfg panda \<and> (\<not> standby_mode cfg panda \<or> is_engaged (sv_state s))
      then Some (refuse cfg now False
             (if is_engaged (sv_state s) \<or> sc_resume_on_command_return cfg then fault Mode_changed s
              else transition Armed Waiting_for_mode s))
      else if \<not> command_fresh cfg now command
      then Some (refuse cfg now False
             (if sc_resume_on_command_return cfg \<and> sv_state s \<noteq> SoftDisabling \<and> \<not> vs_eps_fault vehicle
              then transition Passive Command_wait_preserve (s\<lparr>sv_waiting_for_command := True\<rparr>)
              else if is_engaged (sv_state s) then fault Command_timeout s
              else disarm Command_wait_restore s))
      else if \<not> cs_valid command then Some (refuse cfg now False (fault Command_invalid s))
      else if \<not> cs_enable command then Some (refuse cfg now True (transition Armed Deadman_false s))
      else if standby_mode cfg panda then Some (refuse cfg now False (transition Armed Waiting_takeover s))
      else if sc_resume_on_command_return cfg \<and> \<not> ph_command_session_ready panda
      then Some (if is_engaged (sv_state s) then refuse cfg now False (fault Session_lost s)
                 else refuse cfg now True (transition Armed Waiting_session s))
      else None)"

definition longitudinal_requested :: "safety_config \<Rightarrow> supervisor \<Rightarrow> bool" where
  "longitudinal_requested cfg s \<longleftrightarrow> sc_allow_longitudinal cfg \<and> sv_longitudinal_enabled s"

definition gas_override :: "safety_config \<Rightarrow> vehicle_state \<Rightarrow> bool" where
  "gas_override cfg vehicle \<longleftrightarrow> sc_longitudinal_override_on_gas cfg \<and> vs_gas_pressed vehicle"

text \<open>The channel and EPS tests; \<open>Inr\<close> goes on with the possibly changed state.\<close>

definition admit_channels ::
  "safety_config \<Rightarrow> time_point \<Rightarrow> vehicle_state \<Rightarrow> panda_health \<Rightarrow> supervisor \<Rightarrow>
   (supervisor \<times> safety_decision) + supervisor" where
  "admit_channels cfg now vehicle panda s =
     (if \<not> sv_lateral_enabled s \<and> \<not> longitudinal_requested cfg s
      then Inl (refuse cfg now True (transition Armed Waiting_for_channel s))
      else if vs_eps_fault vehicle \<and> sv_state s \<noteq> SoftDisabling \<and> sv_state s \<noteq> Active
      then Inl (refuse cfg now True (transition Armed Waiting_eps s))
      else Inr (if vs_eps_fault vehicle \<and> sv_state s \<noteq> SoftDisabling
                then transition SoftDisabling Eps_paused
                       (s\<lparr>sv_soft_disable_deadline := now + kSoftDisableTime\<rparr>)
                else s))"

definition soft_disable ::
  "safety_config \<Rightarrow> time_point \<Rightarrow> vehicle_state \<Rightarrow> panda_health \<Rightarrow> supervisor \<Rightarrow>
   (supervisor \<times> safety_decision) option" where
  "soft_disable cfg now vehicle panda s =
     (if sv_state s \<noteq> SoftDisabling then None
      else if sv_soft_disable_deadline s \<le> now then Some (refuse cfg now False (fault Eps_timed_out s))
      else if vs_eps_fault vehicle \<or> \<not> ph_controls_allowed panda then
        let longitudinal = longitudinal_requested cfg s \<and> ph_controls_allowed panda \<and>
                           \<not> gas_override cfg vehicle;
            s = transition SoftDisabling (if vs_eps_fault vehicle then Eps_paused else Eps_cleared_waiting) s
        in Some (s, decision cfg now False longitudinal True True s)
      else None)"

definition actuate ::
  "safety_config \<Rightarrow> time_point \<Rightarrow> vehicle_state \<Rightarrow> panda_health \<Rightarrow> bool \<Rightarrow> bool \<Rightarrow> bool \<Rightarrow> supervisor \<Rightarrow>
   supervisor \<times> safety_decision" where
  "actuate cfg now vehicle panda by_brake by_acc_fault tx_rejected s =
     (if \<not> ph_controls_allowed panda then refuse cfg now True (transition Armed Not_allowed s)
      else
        let lateral = sv_lateral_enabled s;
            longitudinal = longitudinal_requested cfg s \<and> \<not> gas_override cfg vehicle
        in if \<not> lateral \<and> \<not> longitudinal then refuse cfg now True (transition Armed Gas_override s)
           else
             let s = transition Active
                   (if lateral \<and> longitudinal then Active_both
                    else if by_brake then Active_brake
                    else if by_acc_fault then Active_acc_fault
                    else if tx_rejected then Active_rejected else Active_lateral) s
             in (s, decision cfg now lateral longitudinal True True s))"

section \<open>Update\<close>

text \<open>Everything behind the health check.\<close>

definition decide ::
  "safety_config \<Rightarrow> time_point \<Rightarrow> vehicle_state \<Rightarrow> panda_health \<Rightarrow> command_sample \<Rightarrow>
   bool \<Rightarrow> bool \<Rightarrow> bool \<Rightarrow> bool \<Rightarrow> supervisor \<Rightarrow> supervisor \<times> safety_decision" where
  "decide cfg now vehicle panda command cancelled by_brake by_acc_fault tx_rejected s =
     (case admit_vehicle cfg now vehicle panda cancelled s of Some r \<Rightarrow> r
      | None \<Rightarrow> case admit_command cfg now vehicle panda command s of Some r \<Rightarrow> r
      | None \<Rightarrow> case admit_channels cfg now vehicle panda s of Inl r \<Rightarrow> r
      | Inr s \<Rightarrow> case soft_disable cfg now vehicle panda s of Some r \<Rightarrow> r
      | None \<Rightarrow> actuate cfg now vehicle panda by_brake by_acc_fault tx_rejected s)"

definition update ::
  "safety_config \<Rightarrow> time_point \<Rightarrow> vehicle_state \<Rightarrow> panda_health \<Rightarrow> command_sample \<Rightarrow> supervisor \<Rightarrow>
   supervisor \<times> safety_decision" where
  "update cfg now vehicle panda command s =
     (let s = s\<lparr>sv_waiting_for_command := False\<rparr>
      in if \<not> panda_fresh cfg now panda
         then refuse cfg now False (transition Disconnected Panda_timeout (drop_channels s))
         else if \<not> sc_allow_actuation cfg
         then refuse cfg now False (transition Passive Actuation_disabled (drop_channels s))
         else
           let cancelled = cancel_event vehicle s;
               (s, turned_off) = select_channels cfg vehicle panda s;
               (s, by_brake) = apply_brake cfg vehicle s;
               (s, by_acc_fault) = apply_acc_fault cfg vehicle s;
               (s, tx_rejected) = check_health panda turned_off by_brake s
           in decide cfg now vehicle panda command cancelled by_brake by_acc_fault tx_rejected s)"

section \<open>What the blocks promise\<close>

lemma transition_simps [simp]:
  "sv_state (transition n r s) = n" "sv_reason (transition n r s) = r"
  "sv_arm_requested (transition n r s) = sv_arm_requested s"
  "sv_lateral_enabled (transition n r s) = sv_lateral_enabled s"
  "sv_longitudinal_enabled (transition n r s) = sv_longitudinal_enabled s"
  "sv_longitudinal_latched_off (transition n r s) = sv_longitudinal_latched_off s"
  "sv_soft_disable_deadline (transition n r s) = (if n = SoftDisabling then sv_soft_disable_deadline s else 0)"
  "sv_last_set_button_events (transition n r s) = sv_last_set_button_events s"
  by (simp_all add: transition_def Let_def)

lemma drop_channels_simps [simp]:
  "sv_state (drop_channels s) = sv_state s" "\<not> sv_arm_requested (drop_channels s)"
  "\<not> sv_lateral_enabled (drop_channels s)" "\<not> sv_longitudinal_enabled (drop_channels s)"
  "sv_longitudinal_latched_off (drop_channels s) = sv_longitudinal_latched_off s"
  "sv_soft_disable_deadline (drop_channels s) = sv_soft_disable_deadline s"
  "sv_last_set_button_events (drop_channels s) = sv_last_set_button_events s"
  by (simp_all add: drop_channels_def)

lemma fault_disarm_simps [simp]:
  "sv_state (fault r s) = Fault" "\<not> sv_arm_requested (fault r s)" "\<not> sv_lateral_enabled (fault r s)"
  "\<not> sv_longitudinal_enabled (fault r s)" "sv_soft_disable_deadline (fault r s) = 0"
  "sv_state (disarm r s) = Passive" "\<not> sv_arm_requested (disarm r s)" "\<not> sv_lateral_enabled (disarm r s)"
  "\<not> sv_longitudinal_enabled (disarm r s)" "sv_soft_disable_deadline (disarm r s) = 0"
  "sv_longitudinal_latched_off (fault r s) = sv_longitudinal_latched_off s"
  "sv_longitudinal_latched_off (disarm r s) = sv_longitudinal_latched_off s"
  "sv_last_set_button_events (fault r s) = sv_last_set_button_events s"
  "sv_last_set_button_events (disarm r s) = sv_last_set_button_events s"
  by (simp_all add: fault_def disarm_def)

text \<open>A refusal allows nothing.\<close>

definition idle :: "safety_decision \<Rightarrow> bool" where
  "idle d \<longleftrightarrow> \<not> sd_lateral_allowed d \<and> \<not> sd_longitudinal_allowed d \<and> \<not> sd_heartbeat_engaged d"

lemma refuse_idle [simp]: "idle (snd (refuse cfg now u s))"
  by (simp add: idle_def refuse_def decision_def)

lemma fst_refuse [simp]: "fst (refuse cfg now u s) = s"
  by (simp add: refuse_def)

lemma admit_vehicle_Some: "admit_vehicle cfg now v p c s = Some r \<Longrightarrow> idle (snd r)"
  by (auto simp: admit_vehicle_def split: if_splits)

lemma admit_vehicle_None:
  "admit_vehicle cfg now v p c s = None \<longleftrightarrow>
     sv_arm_requested s \<and> ph_harness_status p = sc_required_harness_status cfg \<and>
     (sc_resume_on_command_return cfg \<longrightarrow> ph_ignition_on p) \<and> sv_state s \<noteq> Fault \<and> vs_valid v \<and>
     \<not> (Fin 0 < sc_max_active_speed_mps cfg \<and> sc_max_active_speed_mps cfg < vs_speed_mps v) \<and>
     \<not> (Fin 0 < sc_max_abs_steering_angle_deg cfg \<and>
        sc_max_abs_steering_angle_deg cfg \<le> dabs (vs_steering_angle_deg v)) \<and>
     \<not> (sc_disengage_on_cancel cfg \<and> c)"
  by (auto simp: admit_vehicle_def)

lemma admit_command_Some: "admit_command cfg now v p c s = Some r \<Longrightarrow> idle (snd r)"
  by (auto simp: admit_command_def split: if_splits)

lemma admit_command_None:
  "admit_command cfg now v p c s = None \<Longrightarrow>
     configured_mode cfg p \<and> \<not> standby_mode cfg p \<and> command_fresh cfg now c \<and> cs_valid c \<and> cs_enable c \<and>
     (sc_resume_on_command_return cfg \<longrightarrow> ph_command_session_ready p)"
  by (auto simp: admit_command_def split: if_splits)

lemma admit_channels_Inl: "admit_channels cfg now v p s = Inl r \<Longrightarrow> idle (snd r)"
  by (auto simp: admit_channels_def split: if_splits)

lemma admit_channels_Inr:
  "admit_channels cfg now v p s = Inr t \<Longrightarrow>
     (sv_lateral_enabled s \<or> longitudinal_requested cfg s) \<and>
     (vs_eps_fault v \<longrightarrow> sv_state t = SoftDisabling) \<and>
     sv_arm_requested t = sv_arm_requested s \<and>
     sv_lateral_enabled t = sv_lateral_enabled s \<and> sv_longitudinal_enabled t = sv_longitudinal_enabled s \<and>
     (t = s \<or> vs_eps_fault v \<and> sv_state s = Active \<and>
        t = transition SoftDisabling Eps_paused (s\<lparr>sv_soft_disable_deadline := now + kSoftDisableTime\<rparr>))"
  by (auto simp: admit_channels_def split: if_splits)

text \<open>What any allowed output rests on.\<close>

definition may_actuate ::
  "safety_config \<Rightarrow> time_point \<Rightarrow> vehicle_state \<Rightarrow> panda_health \<Rightarrow> command_sample \<Rightarrow> bool" where
  "may_actuate cfg now v p c \<longleftrightarrow>
     sc_allow_actuation cfg \<and> panda_fresh cfg now p \<and> \<not> panda_unhealthy p \<and>
     ph_harness_status p = sc_required_harness_status cfg \<and> configured_mode cfg p \<and>
     ph_controls_allowed p \<and>
     (sc_resume_on_command_return cfg \<longrightarrow> ph_ignition_on p \<and> ph_command_session_ready p) \<and>
     vs_valid v \<and>
     \<not> (Fin 0 < sc_max_active_speed_mps cfg \<and> sc_max_active_speed_mps cfg < vs_speed_mps v) \<and>
     \<not> (Fin 0 < sc_max_abs_steering_angle_deg cfg \<and>
        sc_max_abs_steering_angle_deg cfg \<le> dabs (vs_steering_angle_deg v)) \<and>
     command_fresh cfg now c \<and> cs_valid c \<and> cs_enable c"

lemma decision_simps [simp]:
  "sd_lateral_allowed (decision cfg now l g u h s) = l" "sd_longitudinal_allowed (decision cfg now l g u h s) = g"
  "sd_heartbeat_engaged (decision cfg now l g u h s) = h" "sd_state (decision cfg now l g u h s) = sv_state s"
  "sd_use_vehicle_safety_mode (decision cfg now l g u h s) = u"
  by (simp_all add: decision_def)

lemma soft_disable_Some:
  assumes "soft_disable cfg now v p s = Some (t, d)"
  shows "\<not> sd_lateral_allowed d \<and> (sd_longitudinal_allowed d \<longrightarrow>
     longitudinal_requested cfg s \<and> ph_controls_allowed p \<and> \<not> gas_override cfg v \<and>
     sv_arm_requested t = sv_arm_requested s \<and> sd_heartbeat_engaged d \<and> sv_state t = SoftDisabling)"
  using assms unfolding soft_disable_def Let_def by (auto simp: refuse_def split: if_splits)

lemma soft_disable_None:
  "soft_disable cfg now v p s = None \<Longrightarrow> sv_state s \<noteq> SoftDisabling \<or> \<not> vs_eps_fault v \<and> ph_controls_allowed p"
  by (auto simp: soft_disable_def Let_def split: if_splits)

lemma actuate_state: "sv_state (fst (actuate cfg now v p b a x s)) \<in> {Armed, Active}"
  by (simp add: actuate_def Let_def)

lemma actuate_allowed_snd:
  "sd_lateral_allowed (snd (actuate cfg now v p b a x s)) \<or> sd_longitudinal_allowed (snd (actuate cfg now v p b a x s)) \<Longrightarrow>
     ph_controls_allowed p \<and> (sd_lateral_allowed (snd (actuate cfg now v p b a x s)) \<longrightarrow> sv_lateral_enabled s) \<and>
     (sd_longitudinal_allowed (snd (actuate cfg now v p b a x s)) \<longrightarrow> longitudinal_requested cfg s \<and> \<not> gas_override cfg v) \<and>
     sv_arm_requested (fst (actuate cfg now v p b a x s)) = sv_arm_requested s \<and>
     sd_heartbeat_engaged (snd (actuate cfg now v p b a x s)) \<and> sv_state (fst (actuate cfg now v p b a x s)) = Active"
  by (simp add: actuate_def Let_def refuse_def split: if_split_asm)

lemma actuate_allowed:
  assumes "actuate cfg now v p b a x s = (t, d)" and "sd_lateral_allowed d \<or> sd_longitudinal_allowed d"
  shows "ph_controls_allowed p \<and> (sd_lateral_allowed d \<longrightarrow> sv_lateral_enabled s) \<and>
     (sd_longitudinal_allowed d \<longrightarrow> longitudinal_requested cfg s \<and> \<not> gas_override cfg v) \<and>
     sv_arm_requested t = sv_arm_requested s \<and> sd_heartbeat_engaged d \<and> sv_state t = Active"
  using actuate_allowed_snd [of cfg now v p b a x s] assms by simp

text \<open>The five places at which a decision can be taken.\<close>

lemma decide_rule:
  assumes "decide cfg now v p c e b a x s = (t, d)"
  obtains (vehicle) "admit_vehicle cfg now v p e s = Some (t, d)"
  | (command) "admit_vehicle cfg now v p e s = None" "admit_command cfg now v p c s = Some (t, d)"
  | (channels) "admit_vehicle cfg now v p e s = None" "admit_command cfg now v p c s = None"
      "admit_channels cfg now v p s = Inl (t, d)"
  | (soft) u where "admit_vehicle cfg now v p e s = None" "admit_command cfg now v p c s = None"
      "admit_channels cfg now v p s = Inr u" "soft_disable cfg now v p u = Some (t, d)"
  | (act) u where "admit_vehicle cfg now v p e s = None" "admit_command cfg now v p c s = None"
      "admit_channels cfg now v p s = Inr u" "soft_disable cfg now v p u = None"
      "actuate cfg now v p b a x u = (t, d)"
  using assms unfolding decide_def by (auto split: option.splits sum.splits)

text \<open>Behind the health check: the result of an armed, admitted state.\<close>

lemma decide_allowed:
  assumes "decide cfg now v p c cancelled b a x s = (t, d)"
    and "sd_lateral_allowed d \<or> sd_longitudinal_allowed d"
  shows "admit_vehicle cfg now v p cancelled s = None" and "admit_command cfg now v p c s = None"
    and "ph_controls_allowed p"
    and "sd_lateral_allowed d \<Longrightarrow> sv_lateral_enabled s \<and> \<not> vs_eps_fault v \<and> sv_state t = Active"
    and "sd_longitudinal_allowed d \<Longrightarrow> longitudinal_requested cfg s \<and> \<not> gas_override cfg v"
    and "sv_arm_requested t" and "sd_heartbeat_engaged d" and "is_engaged (sv_state t)"
proof -
  have ni: "\<not> idle d" using assms(2) by (auto simp: idle_def)
  have "admit_vehicle cfg now v p cancelled s = None \<and> admit_command cfg now v p c s = None \<and>
    ph_controls_allowed p \<and>
    (sd_lateral_allowed d \<longrightarrow> sv_lateral_enabled s \<and> \<not> vs_eps_fault v \<and> sv_state t = Active) \<and>
    (sd_longitudinal_allowed d \<longrightarrow> longitudinal_requested cfg s \<and> \<not> gas_override cfg v) \<and>
    sv_arm_requested t \<and> sd_heartbeat_engaged d \<and> is_engaged (sv_state t)"
    using assms(1)
  proof (cases rule: decide_rule)
    case vehicle
    from admit_vehicle_Some [OF this] ni show ?thesis by simp
  next
    case command
    from admit_command_Some [OF this(2)] ni show ?thesis by simp
  next
    case channels
    from admit_channels_Inl [OF this(3)] ni show ?thesis by simp
  next
    case (soft u)
    from soft_disable_Some [OF this(4)] assms(2) admit_channels_Inr [OF this(3)] this(1,2) show ?thesis
      by (simp add: is_engaged_def longitudinal_requested_def admit_vehicle_None)
  next
    case (act u)
    note u = admit_channels_Inr [OF act(3)]
    from soft_disable_None [OF act(4)] u have "\<not> vs_eps_fault v" by blast
    with actuate_allowed [OF act(5) assms(2)] u act(1,2) show ?thesis
      by (simp add: is_engaged_def longitudinal_requested_def admit_vehicle_None)
  qed
  then show "admit_vehicle cfg now v p cancelled s = None" and "admit_command cfg now v p c s = None"
    and "ph_controls_allowed p"
    and "sd_lateral_allowed d \<Longrightarrow> sv_lateral_enabled s \<and> \<not> vs_eps_fault v \<and> sv_state t = Active"
    and "sd_longitudinal_allowed d \<Longrightarrow> longitudinal_requested cfg s \<and> \<not> gas_override cfg v"
    and "sv_arm_requested t" and "sd_heartbeat_engaged d" and "is_engaged (sv_state t)" by simp_all
qed

section \<open>The blocks before the decision\<close>

lemma select_lane_keep_keeps:
  "sv_state (fst (select_lane_keep cfg v p l b s)) = sv_state s"
  "sv_arm_requested (fst (select_lane_keep cfg v p l b s)) = sv_arm_requested s"
  "sv_soft_disable_deadline (fst (select_lane_keep cfg v p l b s)) = sv_soft_disable_deadline s"
  "sv_last_tx_blocked (fst (select_lane_keep cfg v p l b s)) = sv_last_tx_blocked s"
  "sv_last_set_button_events (fst (select_lane_keep cfg v p l b s)) = sv_last_set_button_events s"
  "sv_last_lane_keep_button_events (fst (select_lane_keep cfg v p l b s)) = sv_last_lane_keep_button_events s"
  "\<not> sv_arm_requested s \<Longrightarrow> select_lane_keep cfg v p l b s = (s, False)"
  by (simp_all add: select_lane_keep_def Let_def)

lemma select_set_keeps:
  "sv_state (fst (select_set cfg b r)) = sv_state (fst r)"
  "sv_arm_requested (fst (select_set cfg b r)) = sv_arm_requested (fst r)"
  "sv_soft_disable_deadline (fst (select_set cfg b r)) = sv_soft_disable_deadline (fst r)"
  "sv_last_tx_blocked (fst (select_set cfg b r)) = sv_last_tx_blocked (fst r)"
  "sv_last_set_button_events (fst (select_set cfg b r)) = sv_last_set_button_events (fst r)"
  "sv_last_lane_keep_button_events (fst (select_set cfg b r)) = sv_last_lane_keep_button_events (fst r)"
  "\<not> sv_arm_requested (fst r) \<Longrightarrow> select_set cfg b r = r"
  by (simp_all add: select_set_def Let_def case_prod_beta)

lemma note_buttons_simps [simp]:
  "sv_state (note_buttons v s) = sv_state s" "sv_arm_requested (note_buttons v s) = sv_arm_requested s"
  "sv_soft_disable_deadline (note_buttons v s) = sv_soft_disable_deadline s"
  "sv_last_tx_blocked (note_buttons v s) = sv_last_tx_blocked s"
  "sv_lateral_enabled (note_buttons v s) = sv_lateral_enabled s"
  "sv_longitudinal_enabled (note_buttons v s) = sv_longitudinal_enabled s"
  "sv_last_set_button_events (note_buttons v s) = vs_set_button_events v"
  "sv_last_lane_keep_button_events (note_buttons v s) = vs_lane_keep_button_events v"
  by (simp_all add: note_buttons_def)

lemma select_channels_fst:
  "sv_state (fst (select_channels cfg v p s)) = sv_state s"
  "sv_arm_requested (fst (select_channels cfg v p s)) = sv_arm_requested s"
  "sv_soft_disable_deadline (fst (select_channels cfg v p s)) = sv_soft_disable_deadline s"
  "sv_last_tx_blocked (fst (select_channels cfg v p s)) = sv_last_tx_blocked s"
  "\<not> sv_arm_requested s \<Longrightarrow> sv_lateral_enabled (fst (select_channels cfg v p s)) = sv_lateral_enabled s \<and>
     sv_longitudinal_enabled (fst (select_channels cfg v p s)) = sv_longitudinal_enabled s"
  "sv_last_set_button_events (fst (select_channels cfg v p s)) = vs_set_button_events v"
  "sv_last_lane_keep_button_events (fst (select_channels cfg v p s)) = vs_lane_keep_button_events v"
  "sv_last_cancel_button_events (fst (select_channels cfg v p s)) = vs_cancel_button_events v"
  by (simp_all add: select_channels_def Let_def case_prod_beta select_set_keeps select_lane_keep_keeps)

lemma select_channels_keeps:
  assumes "select_channels cfg v p s = (t, off)"
  shows "sv_state t = sv_state s" and "sv_arm_requested t = sv_arm_requested s"
    and "sv_soft_disable_deadline t = sv_soft_disable_deadline s"
    and "sv_last_tx_blocked t = sv_last_tx_blocked s"
    and "\<not> sv_arm_requested s \<Longrightarrow> sv_lateral_enabled t = sv_lateral_enabled s \<and>
      sv_longitudinal_enabled t = sv_longitudinal_enabled s"
    and "sv_last_set_button_events t = vs_set_button_events v"
  using select_channels_fst [where cfg = cfg and v = v and p = p and s = s] assms by simp_all

lemma apply_brake_keeps:
  assumes "apply_brake cfg v s = (t, b)"
  shows "sv_state t = sv_state s" and "sv_arm_requested t = sv_arm_requested s"
    and "sv_soft_disable_deadline t = sv_soft_disable_deadline s"
    and "sv_lateral_enabled t \<longleftrightarrow>
      sv_lateral_enabled s \<and> \<not> (vs_brake_pressed v \<and> sc_lateral_disengage_on_brake cfg)"
    and "sv_longitudinal_enabled t \<longleftrightarrow>
      sv_longitudinal_enabled s \<and> \<not> (vs_brake_pressed v \<and> sc_longitudinal_disengage_on_brake cfg)"
    and "sv_longitudinal_latched_off t \<longleftrightarrow>
      sv_longitudinal_latched_off s \<or> vs_brake_pressed v \<and> sc_longitudinal_disengage_on_brake cfg"
    and "sv_last_set_button_events t = sv_last_set_button_events s"
  using assms by (auto simp: apply_brake_def Let_def split: if_splits)

lemma apply_acc_fault_keeps:
  assumes "apply_acc_fault cfg v s = (t, a)"
  shows "sv_state t = sv_state s" and "sv_arm_requested t = sv_arm_requested s"
    and "sv_soft_disable_deadline t = sv_soft_disable_deadline s"
    and "sv_lateral_enabled t = sv_lateral_enabled s"
    and "sv_longitudinal_enabled t \<longleftrightarrow>
      sv_longitudinal_enabled s \<and> \<not> (vs_acc_fault v \<and> sc_allow_longitudinal cfg)"
    and "sv_longitudinal_latched_off s \<Longrightarrow> sv_longitudinal_latched_off t"
    and "sv_last_set_button_events t = sv_last_set_button_events s"
  using assms by (auto simp: apply_acc_fault_def split: if_splits)

lemma check_health_fst:
  "sv_state (fst (check_health p off b s)) = sv_state s \<and>
      sv_arm_requested (fst (check_health p off b s)) = sv_arm_requested s \<and>
      sv_soft_disable_deadline (fst (check_health p off b s)) = sv_soft_disable_deadline s \<and> \<not> panda_unhealthy p \<or>
    sv_state (fst (check_health p off b s)) = Fault \<and> \<not> sv_arm_requested (fst (check_health p off b s)) \<and>
      \<not> sv_lateral_enabled (fst (check_health p off b s)) \<and>
      \<not> sv_longitudinal_enabled (fst (check_health p off b s)) \<and>
      sv_soft_disable_deadline (fst (check_health p off b s)) = 0"
  "sv_lateral_enabled (fst (check_health p off b s)) \<Longrightarrow> sv_lateral_enabled s"
  "sv_longitudinal_enabled (fst (check_health p off b s)) \<Longrightarrow> sv_longitudinal_enabled s"
  "sv_longitudinal_latched_off s \<Longrightarrow> sv_longitudinal_latched_off (fst (check_health p off b s))"
  "sv_last_set_button_events (fst (check_health p off b s)) = sv_last_set_button_events s"
  by (simp_all add: check_health_def Let_def case_prod_beta split: if_split_asm)

lemma check_health_keeps:
  assumes "check_health p off b s = (t, x)"
  shows "sv_state t = sv_state s \<and> sv_arm_requested t = sv_arm_requested s \<and>
      sv_soft_disable_deadline t = sv_soft_disable_deadline s \<and> \<not> panda_unhealthy p \<or>
      sv_state t = Fault \<and> \<not> sv_arm_requested t \<and> \<not> sv_lateral_enabled t \<and>
      \<not> sv_longitudinal_enabled t \<and> sv_soft_disable_deadline t = 0"
    and "sv_lateral_enabled t \<Longrightarrow> sv_lateral_enabled s"
    and "sv_longitudinal_enabled t \<Longrightarrow> sv_longitudinal_enabled s"
    and "sv_longitudinal_latched_off s \<Longrightarrow> sv_longitudinal_latched_off t"
    and "sv_last_set_button_events t = sv_last_set_button_events s"
  using check_health_fst [where p = p and off = off and b = b and s = s] assms by simp_all

lemma update_fresh:
  assumes "panda_fresh cfg now p" and "sc_allow_actuation cfg"
  obtains s1 off s2 b s3 a s4 x where
    "select_channels cfg v p (s\<lparr>sv_waiting_for_command := False\<rparr>) = (s1, off)"
    "apply_brake cfg v s1 = (s2, b)" "apply_acc_fault cfg v s2 = (s3, a)"
    "check_health p off b s3 = (s4, x)"
    "update cfg now v p c s = decide cfg now v p c (cancel_event v s) b a x s4"
proof -
  obtain s1 off where 1: "select_channels cfg v p (s\<lparr>sv_waiting_for_command := False\<rparr>) = (s1, off)" by fastforce
  obtain s2 b where 2: "apply_brake cfg v s1 = (s2, b)" by fastforce
  obtain s3 a where 3: "apply_acc_fault cfg v s2 = (s3, a)" by fastforce
  obtain s4 x where 4: "check_health p off b s3 = (s4, x)" by fastforce
  show ?thesis using assms 1 2 3 4
    by (intro that) (simp_all add: update_def cancel_event_def)
qed

lemma update_not_fresh: "\<not> panda_fresh cfg now p \<Longrightarrow>
    update cfg now v p c s =
      refuse cfg now False (transition Disconnected Panda_timeout (drop_channels (s\<lparr>sv_waiting_for_command := False\<rparr>)))"
  by (simp add: update_def)

lemma update_disabled: "\<not> sc_allow_actuation cfg \<Longrightarrow> panda_fresh cfg now p \<Longrightarrow>
    update cfg now v p c s =
      refuse cfg now False (transition Passive Actuation_disabled (drop_channels (s\<lparr>sv_waiting_for_command := False\<rparr>)))"
  by (simp add: update_def)

lemma update_stopped:
  assumes "\<not> panda_fresh cfg now p \<or> \<not> sc_allow_actuation cfg"
  shows "sv_state (fst (update cfg now v p c s)) \<in> {Disconnected, Passive}"
    and "idle (snd (update cfg now v p c s))" and "\<not> sv_arm_requested (fst (update cfg now v p c s))"
  using assms by (cases "panda_fresh cfg now p"; simp add: update_not_fresh update_disabled)+

lemma allowed_fresh:
  assumes "update cfg now v p c s = (t, d)" and "sd_lateral_allowed d \<or> sd_longitudinal_allowed d"
  shows "panda_fresh cfg now p" and "sc_allow_actuation cfg"
  using assms update_stopped(2) [of cfg now p v c s] by (auto simp: idle_def)

section \<open>Reachable states\<close>

text \<open>The supervisor as a state machine: the two operations of its clients.\<close>

inductive sv_step :: "safety_config \<Rightarrow> supervisor \<Rightarrow> supervisor \<Rightarrow> bool" for cfg where
  step_arm: "request_arm cfg arm s = (r, t) \<Longrightarrow> sv_step cfg s t"
| step_update: "update cfg now v p c s = (t, d) \<Longrightarrow> sv_step cfg s t"

inductive_cases sv_stepE: "sv_step cfg s t"

definition sv_init :: "safety_config \<Rightarrow> supervisor \<Rightarrow> bool" where
  "sv_init cfg s \<longleftrightarrow> make_supervisor cfg = Inr s"

definition sv_inv :: "safety_config \<Rightarrow> supervisor \<Rightarrow> bool" where
  "sv_inv cfg s \<longleftrightarrow>
     (sv_state s = Fault \<longrightarrow> \<not> sv_arm_requested s) \<and>
     (\<not> sv_arm_requested s \<longrightarrow> \<not> sv_lateral_enabled s \<and> \<not> sv_longitudinal_enabled s) \<and>
     (is_engaged (sv_state s) \<longrightarrow> sv_arm_requested s \<and> sc_allow_actuation cfg) \<and>
     (sv_state s \<noteq> SoftDisabling \<longrightarrow> sv_soft_disable_deadline s = 0)"

lemma sv_inv_init: "sv_init cfg s \<Longrightarrow> sv_inv cfg s"
  by (auto simp: sv_init_def make_supervisor_def initial_supervisor_def sv_inv_def is_engaged_def split: if_splits)

lemma sv_inv_arm: "sv_inv cfg s \<Longrightarrow> request_arm cfg arm s = (r, t) \<Longrightarrow> sv_inv cfg t"
  by (auto simp: request_arm_def Let_def sv_inv_def is_engaged_def split: if_splits)

lemma sv_inv_transition:
  "sv_inv cfg s \<Longrightarrow> sv_state s \<noteq> Fault \<Longrightarrow> n \<notin> {Fault, Active, SoftDisabling} \<Longrightarrow> sv_inv cfg (transition n r s)"
  by (auto simp: sv_inv_def is_engaged_def)

lemma sv_inv_dropped: "\<not> sv_arm_requested s \<Longrightarrow> \<not> sv_lateral_enabled s \<Longrightarrow> \<not> sv_longitudinal_enabled s \<Longrightarrow>
    n \<notin> {Active, SoftDisabling} \<Longrightarrow> sv_inv cfg (transition n r s)"
  by (auto simp: sv_inv_def is_engaged_def)

lemma sv_inv_fault [simp]: "sv_inv cfg (fault r s)" "sv_inv cfg (disarm r s)"
  by (simp_all add: fault_def disarm_def sv_inv_dropped)

lemma sv_inv_prepared:
  assumes inv: "sv_inv cfg s" and "select_channels cfg v p (s\<lparr>sv_waiting_for_command := False\<rparr>) = (s1, off)"
    "apply_brake cfg v s1 = (s2, b)" "apply_acc_fault cfg v s2 = (s3, a)" "check_health p off b s3 = (s4, x)"
  shows "sv_inv cfg s4"
proof -
  note k = select_channels_keeps [OF assms(2)] apply_brake_keeps(1-5) [OF assms(3)]
    apply_acc_fault_keeps(1-5) [OF assms(4)]
  have "sv_inv cfg s3" using inv k unfolding sv_inv_def by simp
  moreover have "sv_inv cfg s3 \<Longrightarrow> sv_inv cfg s4"
    using check_health_keeps(1-3) [OF assms(5)] unfolding sv_inv_def is_engaged_def by auto
  ultimately show ?thesis by blast
qed

lemma sv_inv_admitted:
  assumes "sv_inv cfg s" and "sc_allow_actuation cfg" and "admit_vehicle cfg now v p e s = None"
    and "admit_channels cfg now v p s = Inr u"
  shows "sv_inv cfg u" and "sv_arm_requested u"
proof -
  have arm: "sv_arm_requested s" using assms(3) by (simp add: admit_vehicle_None)
  from admit_channels_Inr [OF assms(4)] consider "u = s" |
    "u = transition SoftDisabling Eps_paused (s\<lparr>sv_soft_disable_deadline := now + kSoftDisableTime\<rparr>)" by blast
  then have "sv_inv cfg u \<and> sv_arm_requested u"
  proof cases
    case 1 with assms(1) arm show ?thesis by simp
  next
    case 2 with assms(2) arm show ?thesis by (simp add: sv_inv_def is_engaged_def)
  qed
  then show "sv_inv cfg u" and "sv_arm_requested u" by simp_all
qed

lemma sv_inv_soft:
  assumes "sv_inv cfg u" and "sv_arm_requested u" and "sc_allow_actuation cfg"
    and "soft_disable cfg now v p u = Some r"
  shows "sv_inv cfg (fst r)"
proof -
  have "sv_inv cfg (transition SoftDisabling q u)" if "sv_state u = SoftDisabling" for q
    using that assms(1-3) by (simp add: sv_inv_def is_engaged_def)
  with assms(4) show ?thesis by (auto simp: soft_disable_def Let_def split: if_split_asm)
qed

lemma sv_inv_actuate:
  assumes "sv_inv cfg u" and "sv_arm_requested u" and "sc_allow_actuation cfg"
  shows "sv_inv cfg (fst (actuate cfg now v p b a x u))"
proof -
  have "sv_inv cfg (transition n r u)" if "n \<in> {Armed, Active}" for n r
    using that assms by (auto simp: sv_inv_def is_engaged_def)
  then show ?thesis by (simp add: actuate_def Let_def)
qed

lemma sv_inv_decide:
  assumes inv: "sv_inv cfg s" and "sc_allow_actuation cfg" and "decide cfg now v p c e b a x s = (t, d)"
  shows "sv_inv cfg t"
  using assms(3)
proof (cases rule: decide_rule)
  case vehicle
  then show ?thesis using inv sv_inv_transition [OF inv]
    by (auto simp: admit_vehicle_def refuse_def split: if_splits)
next
  case command
  then have "sv_state s \<noteq> Fault" by (simp add: admit_vehicle_None)
  moreover have "sv_inv cfg (s\<lparr>sv_waiting_for_command := True\<rparr>)" using inv by (simp add: sv_inv_def)
  ultimately show ?thesis using command(2) inv
    by (auto simp: admit_command_def refuse_def sv_inv_transition split: if_splits)
next
  case channels
  then show ?thesis using inv
    by (auto simp: admit_vehicle_None admit_channels_def refuse_def sv_inv_transition split: if_splits)
next
  case (soft u)
  note u = sv_inv_admitted [OF inv assms(2) soft(1,3)]
  have "sv_inv cfg (fst (t, d))" using sv_inv_soft [OF u assms(2) soft(4)] .
  then show ?thesis by simp
next
  case (act u)
  note u = sv_inv_admitted [OF inv assms(2) act(1,3)]
  then show ?thesis using sv_inv_actuate [OF u assms(2), of now v p b a x] act(5) by simp
qed

lemma sv_inv_update: "sv_inv cfg s \<Longrightarrow> update cfg now v p c s = (t, d) \<Longrightarrow> sv_inv cfg t"
proof -
  assume inv: "sv_inv cfg s" and u: "update cfg now v p c s = (t, d)"
  consider "\<not> panda_fresh cfg now p" | "panda_fresh cfg now p" "\<not> sc_allow_actuation cfg"
    | "panda_fresh cfg now p" "sc_allow_actuation cfg" by blast
  then show ?thesis
  proof cases
    case 1
    with u update_not_fresh [OF 1, of v c s] show ?thesis by (auto simp: refuse_def sv_inv_dropped)
  next
    case 2
    with u update_disabled [OF 2(2,1), of v c s] show ?thesis by (auto simp: refuse_def sv_inv_dropped)
  next
    case 3
    obtain s1 off s2 b s3 a s4 x where st:
      "select_channels cfg v p (s\<lparr>sv_waiting_for_command := False\<rparr>) = (s1, off)"
      "apply_brake cfg v s1 = (s2, b)" "apply_acc_fault cfg v s2 = (s3, a)"
      "check_health p off b s3 = (s4, x)"
      and e: "update cfg now v p c s = decide cfg now v p c (cancel_event v s) b a x s4"
      using update_fresh [OF 3] by blast
    from sv_inv_decide [OF sv_inv_prepared [OF inv st] 3(2)] e u show ?thesis by metis
  qed
qed

interpretation sv: machine_invariant "sv_init cfg" "sv_step cfg" "sv_inv cfg" for cfg
proof unfold_locales
  fix s assume "sv_init cfg s" then show "sv_inv cfg s" by (rule sv_inv_init)
next
  fix s t assume inv: "sv_inv cfg s" and "sv_step cfg s t"
  from this(2) show "sv_inv cfg t" by (cases rule: sv_stepE) (auto intro: sv_inv_arm [OF inv] sv_inv_update [OF inv])
qed

end
