(* ===== verification/Supervisor_Properties.thy ===== *)
theory Supervisor_Properties
  imports Safety_Supervisor
begin

text \<open>
  What the supervisor guarantees: the conditions every allowed output rests on, the invariant of its
  reachable states, the fault latch, the bounded soft-disable window, the longitudinal latch behind
  the brake, and the refinement of the button handling to a machine of modes.
\<close>

section \<open>Properties\<close>

text \<open>C1: an output is allowed only when everything it depends on holds now: actuation is configured, the
  Panda's health is fresh and clean, its harness, safety mode and parameter are the required ones and
  it allows controls, the vehicle state is valid and within the host limits, and a fresh, valid,
  enabled command is there. Lateral also needs a healthy EPS; longitudinal needs the configuration, no
  ACC fault, and no gas override; a configured brake intervention excludes its channel.\<close>

theorem update_allowed_only_if:
  assumes "update cfg now v p c s = (t, d)" and "sd_lateral_allowed d \<or> sd_longitudinal_allowed d"
  shows "may_actuate cfg now v p c \<and> sv_arm_requested t \<and> is_engaged (sv_state t) \<and> sd_heartbeat_engaged d \<and>
    (sd_lateral_allowed d \<longrightarrow> sv_state t = Active \<and> \<not> vs_eps_fault v \<and>
       \<not> (vs_brake_pressed v \<and> sc_lateral_disengage_on_brake cfg)) \<and>
    (sd_longitudinal_allowed d \<longrightarrow> sc_allow_longitudinal cfg \<and> \<not> vs_acc_fault v \<and> \<not> gas_override cfg v \<and>
       \<not> (vs_brake_pressed v \<and> sc_longitudinal_disengage_on_brake cfg))"
proof -
  note fresh = allowed_fresh [OF assms]
  obtain s1 off s2 b s3 a s4 x where st:
    "select_channels cfg v p (s\<lparr>sv_waiting_for_command := False\<rparr>) = (s1, off)"
    "apply_brake cfg v s1 = (s2, b)" "apply_acc_fault cfg v s2 = (s3, a)"
    "check_health p off b s3 = (s4, x)"
    and u: "update cfg now v p c s = decide cfg now v p c (cancel_event v s) b a x s4"
    using update_fresh [OF fresh] by blast
  have "decide cfg now v p c (cancel_event v s) b a x s4 = (t, d)" using u assms(1) by simp
  note d = decide_allowed [OF this assms(2)]
  note av = d(1) [unfolded admit_vehicle_None] and ac = admit_command_None [OF d(2)]
  have healthy: "\<not> panda_unhealthy p" using check_health_keeps(1) [OF st(4)] av by blast
  have long: "longitudinal_requested cfg s4 \<Longrightarrow> sc_allow_longitudinal cfg \<and> \<not> vs_acc_fault v \<and>
      \<not> (vs_brake_pressed v \<and> sc_longitudinal_disengage_on_brake cfg)"
    using check_health_keeps(3) [OF st(4)] apply_acc_fault_keeps(5) [OF st(3)] apply_brake_keeps(5) [OF st(2)]
    by (auto simp: longitudinal_requested_def)
  have lat: "sv_lateral_enabled s4 \<Longrightarrow> \<not> (vs_brake_pressed v \<and> sc_lateral_disengage_on_brake cfg)"
    using check_health_keeps(2) [OF st(4)] apply_acc_fault_keeps(4) [OF st(3)] apply_brake_keeps(4) [OF st(2)]
    by auto
  have "may_actuate cfg now v p c" using fresh healthy av ac d(3) by (simp add: may_actuate_def)
  then show ?thesis using d(4-8) long lat by blast
qed

text \<open>An input of \<open>update\<close>: the time and what the node collected for it.\<close>

type_synonym tick = "time_point \<times> vehicle_state \<times> panda_health \<times> command_sample"

definition sv_tick :: "safety_config \<Rightarrow> tick \<Rightarrow> supervisor \<Rightarrow> supervisor \<times> safety_decision" where
  "sv_tick cfg i s = (case i of (now, v, p, c) \<Rightarrow> update cfg now v p c s)"

lemma update_disarmed:
  assumes "\<not> sv_arm_requested s" and "update cfg now v p c s = (t, d)"
  shows "\<not> sv_arm_requested t" and "idle d"
    and "sv_state s = Fault \<Longrightarrow> sv_state t \<noteq> Fault \<Longrightarrow> \<not> panda_fresh cfg now p \<or> \<not> sc_allow_actuation cfg"
proof -
  have "\<not> sv_arm_requested t \<and> idle d \<and> (sv_state s = Fault \<longrightarrow> sv_state t \<noteq> Fault \<longrightarrow>
      \<not> panda_fresh cfg now p \<or> \<not> sc_allow_actuation cfg)"
  proof (cases "panda_fresh cfg now p \<and> sc_allow_actuation cfg")
    case False
    then have stop: "\<not> panda_fresh cfg now p \<or> \<not> sc_allow_actuation cfg" by blast
    have "\<not> sv_arm_requested t" "idle d" using update_stopped(2,3) [OF stop, of v c s] assms(2) by simp_all
    with stop show ?thesis by blast
  next
    case True
    obtain s1 off s2 b s3 a s4 x where st:
      "select_channels cfg v p (s\<lparr>sv_waiting_for_command := False\<rparr>) = (s1, off)"
      "apply_brake cfg v s1 = (s2, b)" "apply_acc_fault cfg v s2 = (s3, a)"
      "check_health p off b s3 = (s4, x)"
      and e: "update cfg now v p c s = decide cfg now v p c (cancel_event v s) b a x s4"
      using update_fresh [OF True [THEN conjunct1] True [THEN conjunct2]] by blast
    have arm: "\<not> sv_arm_requested s4" and state: "sv_state s4 = sv_state s \<or> sv_state s4 = Fault"
      using check_health_keeps(1) [OF st(4)] apply_acc_fault_keeps(1,2) [OF st(3)] apply_brake_keeps(1,2) [OF st(2)]
        select_channels_keeps(1,2) [OF st(1)] assms(1) by auto
    define u where "u = (if sv_state s4 \<noteq> Fault then transition Passive Waiting_for_arm s4 else s4)"
    have r: "(t, d) = refuse cfg now False u"
      using e assms(2) arm by (simp add: decide_def admit_vehicle_def u_def)
    have "t = u" using arg_cong [OF r, of fst] by simp
    moreover have "idle d" using arg_cong [OF r, of snd] refuse_idle [of cfg now False u] by simp
    moreover have "sv_state s = Fault \<Longrightarrow> sv_state t = Fault" using state \<open>t = u\<close> by (auto simp: u_def)
    ultimately show ?thesis using arm by (simp add: u_def)
  qed
  then show "\<not> sv_arm_requested t" and "idle d"
    and "sv_state s = Fault \<Longrightarrow> sv_state t \<noteq> Fault \<Longrightarrow> \<not> panda_fresh cfg now p \<or> \<not> sc_allow_actuation cfg" by blast+
qed

lemma request_arm_off: "\<not> sv_arm_requested (snd (request_arm cfg False s))"
  by (simp add: request_arm_def Let_def)

interpretation disarmed: run_invariant "sv_tick cfg" "\<lambda>_. True" "\<lambda>s :: supervisor. \<not> sv_arm_requested s" idle for cfg
proof unfold_locales
  fix s :: supervisor and i assume "\<not> sv_arm_requested s"
  then show "\<not> sv_arm_requested (fst (sv_tick cfg i s)) \<and> idle (snd (sv_tick cfg i s))"
    unfolding sv_tick_def by (cases i) (use update_disarmed(1,2) [of s cfg, OF _ prod.collapse [symmetric]] in simp)
qed

text \<open>C2: nothing is allowed without a new arm request. A state of any run of the supervisor in which the
  fault state is entered, or that follows an operator's disarm, is disarmed; from there, whatever
  health, vehicle data, button events and commands the later ticks bring, every decision is idle.\<close>

theorem fault_and_disarm_latch:
  assumes "reach (sv_init cfg) (sv_step cfg) s"
    and "sv_state s = Fault \<or> (\<exists>s0 r. request_arm cfg False s0 = (r, s))"
  shows "list_all idle (snd (run (sv_tick cfg) ticks s)) \<and>
    \<not> sv_arm_requested (fst (run (sv_tick cfg) ticks s))"
proof -
  have "sv_inv cfg s" using assms(1) by (rule sv.reachable_inv)
  then have "\<not> sv_arm_requested s"
    using assms(2) request_arm_off [of cfg] by (metis (no_types) snd_conv sv_inv_def)
  from disarmed.run_good [OF this, of ticks cfg] show ?thesis by (simp add: list_all_iff)
qed

section \<open>The soft-disable window\<close>

lemma update_soft:
  assumes "update cfg now v p c s = (t, d)" and "sv_state t = SoftDisabling"
  shows "sv_state s = SoftDisabling \<and> sv_soft_disable_deadline t = sv_soft_disable_deadline s \<and>
      now < sv_soft_disable_deadline s \<or>
    sv_state s = Active \<and> sv_soft_disable_deadline t = now + kSoftDisableTime"
    and "\<not> sd_lateral_allowed d"
proof -
  have fresh: "panda_fresh cfg now p" "sc_allow_actuation cfg"
    using assms update_stopped [of cfg now p v c s] by fastforce+
  obtain s1 off s2 b s3 a s4 x where st:
    "select_channels cfg v p (s\<lparr>sv_waiting_for_command := False\<rparr>) = (s1, off)"
    "apply_brake cfg v s1 = (s2, b)" "apply_acc_fault cfg v s2 = (s3, a)"
    "check_health p off b s3 = (s4, x)"
    and e: "update cfg now v p c s = decide cfg now v p c (cancel_event v s) b a x s4"
    using update_fresh [OF fresh] by blast
  have k: "sv_state s4 = Fault \<or> sv_state s4 = sv_state s \<and> sv_soft_disable_deadline s4 = sv_soft_disable_deadline s"
    using check_health_keeps(1) [OF st(4)] apply_acc_fault_keeps(1,3) [OF st(3)] apply_brake_keeps(1,3) [OF st(2)]
      select_channels_keeps(1,3) [OF st(1)] by auto
  have dec: "decide cfg now v p c (cancel_event v s) b a x s4 = (t, d)" using e assms(1) by simp
  have "(sv_state s = SoftDisabling \<and> sv_soft_disable_deadline t = sv_soft_disable_deadline s \<and>
      now < sv_soft_disable_deadline s \<or>
    sv_state s = Active \<and> sv_soft_disable_deadline t = now + kSoftDisableTime) \<and> \<not> sd_lateral_allowed d"
    using dec
  proof (cases rule: decide_rule)
    case vehicle
    with assms(2) show ?thesis by (auto simp: admit_vehicle_def refuse_def split: if_splits)
  next
    case command
    from command(2) assms(2) show ?thesis by (auto simp: admit_command_def refuse_def split: if_splits)
  next
    case channels
    from channels(3) assms(2) show ?thesis by (auto simp: admit_channels_def refuse_def split: if_splits)
  next
    case (soft u)
    have "sv_state u = SoftDisabling" "now < sv_soft_disable_deadline u"
      "sv_soft_disable_deadline t = sv_soft_disable_deadline u"
      using soft(4) assms(2) by (auto simp: soft_disable_def Let_def refuse_def split: if_splits)
    moreover have "sv_state s4 \<noteq> Fault" using soft(1) by (simp add: admit_vehicle_None)
    moreover have "u = s4 \<or> sv_state s4 = Active \<and> sv_soft_disable_deadline u = now + kSoftDisableTime"
      using admit_channels_Inr [OF soft(3)] by auto
    ultimately show ?thesis using k soft_disable_Some [OF soft(4)] by metis
  next
    case (act u)
    from actuate_state [of cfg now v p b a x u] act(5) assms(2) show ?thesis by simp
  qed
  then show "sv_state s = SoftDisabling \<and> sv_soft_disable_deadline t = sv_soft_disable_deadline s \<and>
      now < sv_soft_disable_deadline s \<or>
    sv_state s = Active \<and> sv_soft_disable_deadline t = now + kSoftDisableTime"
    and "\<not> sd_lateral_allowed d" by blast+
qed

text \<open>The ticks during which the supervisor stays in \<open>SoftDisabling\<close>.\<close>

fun stays_soft :: "safety_config \<Rightarrow> tick list \<Rightarrow> supervisor \<Rightarrow> bool" where
  "stays_soft cfg [] s \<longleftrightarrow> sv_state s = SoftDisabling"
| "stays_soft cfg (i # is) s \<longleftrightarrow> sv_state s = SoftDisabling \<and> stays_soft cfg is (fst (sv_tick cfg i s))"

lemma stays_soft_deadline:
  "stays_soft cfg is s \<Longrightarrow>
   list_all (\<lambda>i. fst i < sv_soft_disable_deadline s) is \<and>
   list_all (\<lambda>d. \<not> sd_lateral_allowed d) (snd (run (sv_tick cfg) is s))"
proof (induction "is" arbitrary: s)
  case (Cons i "is")
  obtain now v p c where i: "i = (now, v, p, c)" by (cases i)
  obtain t d where u: "update cfg now v p c s = (t, d)" by fastforce
  then have tick: "sv_tick cfg i s = (t, d)" by (simp add: sv_tick_def i)
  have t: "stays_soft cfg is t" "sv_state s = SoftDisabling" using Cons.prems tick by simp_all
  then have soft: "sv_state t = SoftDisabling" by (cases "is") simp_all
  from update_soft [OF u soft] t(2)
  have "sv_soft_disable_deadline t = sv_soft_disable_deadline s" "now < sv_soft_disable_deadline s"
    "\<not> sd_lateral_allowed d" by auto
  with Cons.IH [OF t(1)] tick i show ?case by (simp add: case_prod_beta)
qed simp

text \<open>C15: a lateral pause for a temporary EPS fault lasts less than three seconds and is not extended by later
  ticks. If a tick at \<open>t0\<close> enters \<open>SoftDisabling\<close> and the supervisor stays in it for any number of
  further ticks, then each of them is before \<open>t0 + 3 s\<close>, and none of them allows lateral control.\<close>

theorem soft_disable_bounded:
  assumes "update cfg t0 v p c s = (s1, d)" and "sv_state s \<noteq> SoftDisabling" and "stays_soft cfg ticks s1"
  shows "list_all (\<lambda>i. fst i < t0 + 3000000000) ticks \<and> \<not> sd_lateral_allowed d \<and>
    list_all (\<lambda>d. \<not> sd_lateral_allowed d) (snd (run (sv_tick cfg) ticks s1))"
proof -
  have soft: "sv_state s1 = SoftDisabling" using assms(3) by (cases ticks) simp_all
  from update_soft [OF assms(1) soft] assms(2)
  have "sv_soft_disable_deadline s1 = t0 + 3000000000" "\<not> sd_lateral_allowed d"
    by (auto simp: kSoftDisableTime_def seconds_def)
  with stays_soft_deadline [OF assms(3)] show ?thesis by simp
qed

section \<open>The longitudinal latch\<close>

lemma admit_channels_keeps:
  "admit_channels cfg now v p s = Inr u \<Longrightarrow> sv_longitudinal_latched_off u = sv_longitudinal_latched_off s \<and>
    sv_last_set_button_events u = sv_last_set_button_events s \<and>
    sv_longitudinal_enabled u = sv_longitudinal_enabled s"
  by (auto simp: admit_channels_def split: if_split_asm)

lemma soft_disable_keeps:
  "soft_disable cfg now v p s = Some (t, d) \<Longrightarrow>
    sv_longitudinal_latched_off t = sv_longitudinal_latched_off s \<and>
    sv_last_set_button_events t = sv_last_set_button_events s \<and>
    (sv_longitudinal_enabled t \<longrightarrow> sv_longitudinal_enabled s)"
  by (auto simp: soft_disable_def Let_def refuse_def split: if_split_asm)

lemma actuate_keeps:
  "sv_longitudinal_latched_off (fst (actuate cfg now v p b a x s)) = sv_longitudinal_latched_off s"
  "sv_last_set_button_events (fst (actuate cfg now v p b a x s)) = sv_last_set_button_events s"
  "sv_longitudinal_enabled (fst (actuate cfg now v p b a x s)) = sv_longitudinal_enabled s"
  by (simp_all add: actuate_def Let_def)

text \<open>The decision changes neither the latch nor the button counters, and enables no channel.\<close>

lemma decide_keeps:
  assumes "decide cfg now v p c e b a x s = (t, d)"
  shows "sv_longitudinal_latched_off t = sv_longitudinal_latched_off s"
    and "sv_last_set_button_events t = sv_last_set_button_events s"
    and "sv_longitudinal_enabled t \<Longrightarrow> sv_longitudinal_enabled s"
proof -
  have "sv_longitudinal_latched_off t = sv_longitudinal_latched_off s \<and>
    sv_last_set_button_events t = sv_last_set_button_events s \<and>
    (sv_longitudinal_enabled t \<longrightarrow> sv_longitudinal_enabled s)"
    using assms
  proof (cases rule: decide_rule)
    case vehicle
    then show ?thesis by (auto simp: admit_vehicle_def refuse_def split: if_splits)
  next
    case command
    from this(2) show ?thesis by (auto simp: admit_command_def refuse_def split: if_splits)
  next
    case channels
    from this(3) show ?thesis by (auto simp: admit_channels_def refuse_def split: if_splits)
  next
    case (soft u)
    from admit_channels_keeps [OF soft(3)] soft_disable_keeps [OF soft(4)] show ?thesis by simp
  next
    case (act u)
    from admit_channels_keeps [OF act(3)] actuate_keeps [of cfg now v p b a x u] act(5) show ?thesis by simp
  qed
  then show "sv_longitudinal_latched_off t = sv_longitudinal_latched_off s"
    and "sv_last_set_button_events t = sv_last_set_button_events s"
    and "sv_longitudinal_enabled t \<Longrightarrow> sv_longitudinal_enabled s" by blast+
qed

text \<open>Longitudinal control is off until a SET press (or, in session mode, a new arming).\<close>

definition longitudinal_off :: "safety_config \<Rightarrow> supervisor \<Rightarrow> bool" where
  "longitudinal_off cfg s \<longleftrightarrow>
     (if sc_resume_on_command_return cfg then sv_longitudinal_latched_off s else \<not> sv_longitudinal_enabled s)"

lemma update_no_set:
  assumes off: "longitudinal_off cfg s" and n: "vs_set_button_events v = sv_last_set_button_events s"
    and u: "update cfg now v p c s = (t, d)"
  shows "longitudinal_off cfg t" and "sv_last_set_button_events t = sv_last_set_button_events s"
    and "\<not> sd_longitudinal_allowed d"
proof -
  have "longitudinal_off cfg t \<and> sv_last_set_button_events t = sv_last_set_button_events s \<and>
    \<not> sd_longitudinal_allowed d"
  proof (cases "panda_fresh cfg now p \<and> sc_allow_actuation cfg")
    case False
    then have "\<exists>n r. update cfg now v p c s =
        refuse cfg now False (transition n r (drop_channels (s\<lparr>sv_waiting_for_command := False\<rparr>)))"
      using update_not_fresh [of cfg now p v c s] update_disabled [of cfg now p v c s] by blast
    then show ?thesis using u off by (auto simp: refuse_def longitudinal_off_def)
  next
    case True
    obtain s1 o1 s2 b s3 a s4 x where st:
      "select_channels cfg v p (s\<lparr>sv_waiting_for_command := False\<rparr>) = (s1, o1)"
      "apply_brake cfg v s1 = (s2, b)" "apply_acc_fault cfg v s2 = (s3, a)"
      "check_health p o1 b s3 = (s4, x)"
      and e: "update cfg now v p c s = decide cfg now v p c (cancel_event v s) b a x s4"
      using update_fresh [OF True [THEN conjunct1] True [THEN conjunct2]] by blast
    have off1: "longitudinal_off cfg s1" "sv_arm_requested s1 \<Longrightarrow> \<not> sv_longitudinal_enabled s1"
      using st(1) off n
      by (auto simp: longitudinal_off_def select_channels_def select_set_def select_lane_keep_def
          note_buttons_def set_event_def Let_def split: if_splits)
    note keeps = check_health_keeps(3,4) [OF st(4)] apply_acc_fault_keeps(5,6) [OF st(3)]
      apply_brake_keeps(5,6) [OF st(2)]
    have le: "sv_longitudinal_enabled s4 \<Longrightarrow> sv_longitudinal_enabled s1"
      "sv_longitudinal_latched_off s1 \<Longrightarrow> sv_longitudinal_latched_off s4"
      using keeps by blast+
    have off4: "longitudinal_off cfg s4" using off1(1) le by (auto simp: longitudinal_off_def)
    have "sv_arm_requested s4 \<Longrightarrow> sv_arm_requested s1"
      using check_health_keeps(1) [OF st(4)] apply_acc_fault_keeps(2) [OF st(3)] apply_brake_keeps(2) [OF st(2)] by metis
    then have off4': "sv_arm_requested s4 \<Longrightarrow> \<not> sv_longitudinal_enabled s4" using off1(2) le(1) by blast
    have set4: "sv_last_set_button_events s4 = sv_last_set_button_events s"
      using n check_health_keeps(5) [OF st(4)] apply_acc_fault_keeps(7) [OF st(3)] apply_brake_keeps(7) [OF st(2)]
        select_channels_keeps(6) [OF st(1)] by simp
    have dec: "decide cfg now v p c (cancel_event v s) b a x s4 = (t, d)" using e u by simp
    have "\<not> sd_longitudinal_allowed d"
    proof
      assume al: "sd_longitudinal_allowed d"
      note da = decide_allowed [OF dec disjI2, OF al]
      from da(1) da(5) [OF al] off4' show False
        by (simp add: admit_vehicle_None longitudinal_requested_def)
    qed
    with decide_keeps [OF dec] off4 set4 show ?thesis by (auto simp: longitudinal_off_def)
  qed
  then show "longitudinal_off cfg t" and "sv_last_set_button_events t = sv_last_set_button_events s"
    and "\<not> sd_longitudinal_allowed d" by blast+
qed

lemma update_brake:
  assumes "panda_fresh cfg now p" and "sc_allow_actuation cfg"
    and "vs_brake_pressed v" and "sc_longitudinal_disengage_on_brake cfg"
    and "update cfg now v p c s = (t, d)"
  shows "longitudinal_off cfg t" and "sv_last_set_button_events t = vs_set_button_events v"
    and "\<not> sd_longitudinal_allowed d"
proof -
  obtain s1 o1 s2 b s3 a s4 x where st:
    "select_channels cfg v p (s\<lparr>sv_waiting_for_command := False\<rparr>) = (s1, o1)"
    "apply_brake cfg v s1 = (s2, b)" "apply_acc_fault cfg v s2 = (s3, a)"
    "check_health p o1 b s3 = (s4, x)"
    and e: "update cfg now v p c s = decide cfg now v p c (cancel_event v s) b a x s4"
    using update_fresh [OF assms(1,2)] by blast
  have s4: "\<not> sv_longitudinal_enabled s4" "sv_longitudinal_latched_off s4"
    "sv_last_set_button_events s4 = vs_set_button_events v"
    using check_health_keeps(3-5) [OF st(4)] apply_acc_fault_keeps(5-7) [OF st(3)]
      apply_brake_keeps(5-7) [OF st(2)] select_channels_keeps(6) [OF st(1)] assms(3,4) by auto
  have dec: "decide cfg now v p c (cancel_event v s) b a x s4 = (t, d)" using e assms(5) by simp
  from decide_keeps [OF dec] s4
  show "longitudinal_off cfg t" "sv_last_set_button_events t = vs_set_button_events v"
    by (auto simp: longitudinal_off_def)
  show "\<not> sd_longitudinal_allowed d"
    using decide_allowed(5) [OF dec] s4(1) by (auto simp: longitudinal_requested_def)
qed

text \<open>Either longitudinal control is off and stays so without a SET press, or nothing is armed.\<close>

definition braked :: "safety_config \<Rightarrow> u64 \<Rightarrow> supervisor \<Rightarrow> bool" where
  "braked cfg n s \<longleftrightarrow> \<not> sv_arm_requested s \<or> longitudinal_off cfg s \<and> sv_last_set_button_events s = n"

lemma brake_brakes:
  assumes "vs_brake_pressed v" and "sc_longitudinal_disengage_on_brake cfg" and "update cfg now v p c s = (t, d)"
  shows "braked cfg (vs_set_button_events v) t \<and> \<not> sd_longitudinal_allowed d"
proof (cases "panda_fresh cfg now p \<and> sc_allow_actuation cfg")
  case True
  then show ?thesis using update_brake [OF _ _ assms] by (simp add: braked_def)
next
  case False
  then have "\<not> panda_fresh cfg now p \<or> \<not> sc_allow_actuation cfg" by blast
  from update_stopped(2,3) [OF this, of v c s] assms(3) show ?thesis by (simp add: braked_def idle_def)
qed

lemma tick_keeps_braked:
  assumes "braked cfg (vs_set_button_events v) s" and "update cfg now v p c s = (t, d)"
  shows "braked cfg (vs_set_button_events v) t \<and> \<not> sd_longitudinal_allowed d"
proof (cases "sv_arm_requested s")
  case True
  then have "longitudinal_off cfg s" "vs_set_button_events v = sv_last_set_button_events s"
    using assms(1) by (simp_all add: braked_def)
  from update_no_set [OF this assms(2)] this(2) show ?thesis by (simp add: braked_def)
next
  case False
  from update_disarmed(1,2) [OF this assms(2)] show ?thesis by (simp add: braked_def idle_def)
qed

text \<open>A disarm, and an arm request on an armed supervisor, change neither the latch nor the counter.\<close>

lemma request_keeps_braked:
  assumes "braked cfg n s" and "arm \<longrightarrow> sv_arm_requested s"
  shows "braked cfg n (snd (request_arm cfg arm s))"
  using assms by (auto simp: braked_def request_arm_def longitudinal_off_def Let_def)

text \<open>What the node does to its supervisor: periods and arm requests. A sequence of them in which the SET
  counter stays where it is and a disarmed supervisor is not armed anew; and the decisions of its
  periods.\<close>

datatype sv_event = Period tick | Request bool

fun no_set_no_rearm :: "safety_config \<Rightarrow> u64 \<Rightarrow> sv_event list \<Rightarrow> supervisor \<Rightarrow> bool" where
  "no_set_no_rearm cfg n [] s \<longleftrightarrow> True"
| "no_set_no_rearm cfg n (Period (now, v, p, c) # es) s \<longleftrightarrow>
     vs_set_button_events v = n \<and> no_set_no_rearm cfg n es (fst (update cfg now v p c s))"
| "no_set_no_rearm cfg n (Request arm # es) s \<longleftrightarrow>
     (arm \<longrightarrow> sv_arm_requested s) \<and> no_set_no_rearm cfg n es (snd (request_arm cfg arm s))"

fun decisions :: "safety_config \<Rightarrow> sv_event list \<Rightarrow> supervisor \<Rightarrow> safety_decision list" where
  "decisions cfg [] s = []"
| "decisions cfg (Period (now, v, p, c) # es) s =
     (case update cfg now v p c s of (t, d) \<Rightarrow> d # decisions cfg es t)"
| "decisions cfg (Request arm # es) s = decisions cfg es (snd (request_arm cfg arm s))"

lemma braked_decisions:
  "braked cfg n s \<Longrightarrow> no_set_no_rearm cfg n es s \<Longrightarrow> list_all (\<lambda>d. \<not> sd_longitudinal_allowed d) (decisions cfg es s)"
proof (induction cfg n es s rule: no_set_no_rearm.induct)
  case (2 cfg n now v p c es s)
  obtain t d where u: "update cfg now v p c s = (t, d)" by fastforce
  have "braked cfg (vs_set_button_events v) s" using "2.prems" by simp
  from tick_keeps_braked [OF this u] "2.IH" "2.prems" u show ?case by simp
next
  case (3 cfg n arm es s)
  then show ?case using request_keeps_braked [of cfg n s arm] by simp
qed simp

text \<open>C12: where the configuration lets the brake end longitudinal control, it ends it until the driver
  presses SET or the supervisor is armed anew. A period with the brake pressed does not allow longitudinal
  control, and neither does any period after it, also with the brake released, in either mode and
  whatever the Panda, the commands and further requests are, as long as the SET counter stays where
  it was and no arm request comes while the supervisor is disarmed.\<close>

theorem brake_latches_longitudinal:
  assumes "vs_brake_pressed v" and "sc_longitudinal_disengage_on_brake cfg"
    and "no_set_no_rearm cfg (vs_set_button_events v) events (fst (update cfg now v p c s))"
  shows "list_all (\<lambda>d. \<not> sd_longitudinal_allowed d) (decisions cfg (Period (now, v, p, c) # events) s)"
proof -
  obtain t d where u: "update cfg now v p c s = (t, d)" by fastforce
  then have "no_set_no_rearm cfg (vs_set_button_events v) events t" using assms(3) by simp
  then show ?thesis
    using brake_brakes [OF assms(1,2) u] u braked_decisions [of cfg "vs_set_button_events v" t events] by simp
qed

section \<open>Button selection\<close>

text \<open>The specification of the two buttons: what each press does to the selected mode.\<close>

datatype control_mode = Mode_off | Mode_lateral | Mode_combined | Mode_longitudinal

definition mode_of :: "supervisor \<Rightarrow> control_mode" where
  "mode_of s = (if sv_lateral_enabled s then if sv_longitudinal_enabled s then Mode_combined else Mode_lateral
     else if sv_longitudinal_enabled s then Mode_longitudinal else Mode_off)"

definition press_lane_keep :: "safety_config \<Rightarrow> control_mode \<Rightarrow> control_mode" where
  "press_lane_keep cfg m =
     (if m = Mode_lateral \<and> sc_lateral_button_toggle cfg then Mode_off else Mode_lateral)"

definition press_set :: "safety_config \<Rightarrow> control_mode \<Rightarrow> control_mode" where
  "press_set cfg m =
     (if m = Mode_combined \<and> sc_longitudinal_button_toggle cfg then Mode_off else Mode_combined)"

lemma select_channels_mode:
  "\<not> sc_resume_on_command_return cfg \<Longrightarrow> mode_of (fst (select_channels cfg v p s)) =
      (if sv_arm_requested s then
         (if set_event v s then press_set cfg else id)
           ((if lane_keep_event v s then press_lane_keep cfg else id) (mode_of s))
       else mode_of s)"
  by (cases "sv_lateral_enabled s"; cases "sv_longitudinal_enabled s"; cases "lane_keep_event v s";
      cases "set_event v s")
    (simp_all add: select_channels_def select_lane_keep_def select_set_def note_buttons_def Let_def mode_of_def
      press_lane_keep_def press_set_def)

text \<open>C19: the channel selection refines the two-button mode machine. In button mode the flags after a tick
  stand for the mode after an LDA press (if its counter changed) followed by a SET press (if its
  counter changed); a disarmed supervisor ignores both. Presses are consumed.\<close>

theorem select_channels_refines_buttons:
  assumes "\<not> sc_resume_on_command_return cfg"
  shows "mode_of (fst (select_channels cfg v p s)) =
      (if sv_arm_requested s then
         (if set_event v s then press_set cfg else id)
           ((if lane_keep_event v s then press_lane_keep cfg else id) (mode_of s))
       else mode_of s) \<and>
    \<not> set_event v (fst (select_channels cfg v p s)) \<and>
    \<not> lane_keep_event v (fst (select_channels cfg v p s)) \<and>
    \<not> cancel_event v (fst (select_channels cfg v p s))"
  using select_channels_mode [OF assms, of v p s] select_channels_fst(6-8) [where cfg = cfg and v = v and p = p and s = s]
  by (simp add: set_event_def lane_keep_event_def cancel_event_def)

section \<open>Activation\<close>

text \<open>C18: an armed supervisor does actuate. When everything an output rests on holds, no EPS or ACC fault,
  brake, gas or cancel stands in the way, and the driver has just pressed SET to select combined
  control, the tick enters \<open>Active\<close> and allows both channels.\<close>

theorem set_press_activates:
  assumes "may_actuate cfg now v p c" and "\<not> sc_resume_on_command_return cfg"
    and "sc_allow_longitudinal cfg" and "sv_arm_requested s" and "sv_state s \<in> {Passive, Armed}"
    and "set_event v s" and "mode_of s \<noteq> Mode_combined" and "\<not> cancel_event v s"
    and "\<not> vs_eps_fault v" and "\<not> vs_acc_fault v" and "\<not> vs_brake_pressed v" and "\<not> vs_gas_pressed v"
  shows "\<exists>t d. update cfg now v p c s = (t, d) \<and> sv_state t = Active \<and> sd_lateral_allowed d \<and>
    sd_longitudinal_allowed d \<and> sd_heartbeat_engaged d"
proof -
  have fresh: "panda_fresh cfg now p" "sc_allow_actuation cfg" using assms(1) by (simp_all add: may_actuate_def)
  obtain s1 o1 s2 b s3 a s4 x where st:
    "select_channels cfg v p (s\<lparr>sv_waiting_for_command := False\<rparr>) = (s1, o1)"
    "apply_brake cfg v s1 = (s2, b)" "apply_acc_fault cfg v s2 = (s3, a)"
    "check_health p o1 b s3 = (s4, x)"
    and e: "update cfg now v p c s = decide cfg now v p c (cancel_event v s) b a x s4"
    using update_fresh [OF fresh] by blast
  let ?s = "s\<lparr>sv_waiting_for_command := False\<rparr>"
  have ev: "set_event v ?s" "mode_of ?s = mode_of s" using assms(6) by (simp_all add: set_event_def mode_of_def)
  have "mode_of s1 = press_set cfg ((if lane_keep_event v ?s then press_lane_keep cfg else id) (mode_of s))"
    using select_channels_mode [OF assms(2), of v p ?s] st(1) assms(4) ev by simp
  then have "mode_of s1 = Mode_combined"
    using assms(7) by (simp add: press_set_def press_lane_keep_def split: if_splits)
  then have s1: "sv_lateral_enabled s1" "sv_longitudinal_enabled s1" by (auto simp: mode_of_def split: if_splits)
  have s2: "s2 = s1" using st(2) assms(11) by (simp add: apply_brake_def)
  have s3: "s3 = s1" using st(3) s2 assms(10) by (simp add: apply_acc_fault_def)
  have s13: "sv_state s1 = sv_state s" "sv_arm_requested s1"
    using select_channels_keeps(1,2) [OF st(1)] assms(4) by simp_all
  have s4: "s4 = s1\<lparr>sv_last_tx_blocked := ph_safety_tx_blocked p\<rparr>"
    using st(4) s3 s13 assms(1,5) by (auto simp: check_health_def may_actuate_def is_engaged_def)
  have k: "sv_state s4 = sv_state s" "sv_arm_requested s4" "sv_lateral_enabled s4" "sv_longitudinal_enabled s4"
    using s4 s1 s13 by simp_all
  have "admit_vehicle cfg now v p (cancel_event v s) s4 = None"
    using k assms by (auto simp: admit_vehicle_None may_actuate_def)
  moreover have "admit_command cfg now v p c s4 = None"
    using assms(1,2) by (simp add: admit_command_def may_actuate_def standby_mode_def)
  moreover have "admit_channels cfg now v p s4 = Inr s4" using k assms(9) by (simp add: admit_channels_def)
  moreover have "soft_disable cfg now v p s4 = None" using k assms(5) by (auto simp: soft_disable_def)
  moreover have "actuate cfg now v p b a x s4 = (transition Active Active_both s4,
      decision cfg now True True True True (transition Active Active_both s4))"
    using k assms(1,3,12) by (simp add: actuate_def longitudinal_requested_def gas_override_def may_actuate_def Let_def)
  ultimately show ?thesis using e by (simp add: decide_def)
qed

section \<open>Witnesses\<close>

text \<open>A configuration with actuation, a healthy Panda, a vehicle whose driver pressed LDA once, and a
  fresh command.\<close>

definition sample_config :: safety_config where
  "sample_config = default_safety_config\<lparr>sc_allow_actuation := True, sc_allow_longitudinal := True\<rparr>"

definition sample_panda :: panda_health where
  "sample_panda = initial_health\<lparr>ph_connected := True, ph_controls_allowed := True, ph_safety_mode := 28,
     ph_safety_param := 3073, ph_harness_status := 1, ph_updated_at := 1000\<rparr>"

definition sample_vehicle :: vehicle_state where
  "sample_vehicle = initial_vehicle\<lparr>vs_valid := True, vs_lane_keep_button_events := 1\<rparr>"

definition sample_command :: command_sample where
  "sample_command = empty_command\<lparr>cs_enable := True, cs_valid := True, cs_received_at := 1000\<rparr>"

definition sample_armed :: supervisor where
  "sample_armed = initial_supervisor\<lparr>sv_state := Passive, sv_arm_requested := True\<rparr>"

definition sample_active :: supervisor where
  "sample_active = initial_supervisor\<lparr>sv_state := Active, sv_arm_requested := True, sv_lateral_enabled := True,
     sv_last_lane_keep_button_events := 1\<rparr>"

lemmas update_eval =
  update_def panda_fresh_def recent_def ms_def select_channels_def lane_keep_event_def set_event_def
  cancel_event_def note_buttons_def select_lane_keep_def select_set_def apply_brake_def
  apply_acc_fault_def check_health_def panda_unhealthy_def effective_faults_def decide_def
  admit_vehicle_def admit_command_def admit_channels_def soft_disable_def actuate_def refuse_def
  decision_def transition_def fault_def disarm_def drop_channels_def configured_mode_def
  standby_mode_def command_fresh_def longitudinal_requested_def gas_override_def is_engaged_def
  kSoftDisableTime_def seconds_def Let_def

lemmas sample_defs =
  sample_config_def sample_panda_def sample_vehicle_def sample_command_def sample_armed_def
  sample_active_def default_safety_config_def initial_health_def initial_vehicle_def
  empty_command_def initial_supervisor_def


theorem update_allowed_only_if_witness:
  "\<exists>t d. update sample_config 2000 sample_vehicle sample_panda sample_command sample_armed = (t, d) \<and>
     sd_lateral_allowed d \<and> may_actuate sample_config 2000 sample_vehicle sample_panda sample_command"
proof -
  obtain t d where u: "update sample_config 2000 sample_vehicle sample_panda sample_command sample_armed = (t, d)"
    by fastforce
  then have "d = snd (update sample_config 2000 sample_vehicle sample_panda sample_command sample_armed)" by simp
  then have "sd_lateral_allowed d" by (simp add: update_eval sample_defs)
  with update_allowed_only_if [OF u] u show ?thesis by blast
qed

theorem fault_and_disarm_latch_witness:
  "sv_state (fst (update sample_config 2000 sample_vehicle (sample_panda\<lparr>ph_heartbeat_lost := True\<rparr>)
      sample_command initial_supervisor)) = Fault \<and>
   list_all idle (snd (run (sv_tick sample_config) [(3000, sample_vehicle, sample_panda, sample_command)]
     (fst (update sample_config 2000 sample_vehicle (sample_panda\<lparr>ph_heartbeat_lost := True\<rparr>)
      sample_command initial_supervisor))))"
proof -
  let ?u = "update sample_config 2000 sample_vehicle (sample_panda\<lparr>ph_heartbeat_lost := True\<rparr>)
      sample_command initial_supervisor"
  have "sv_init sample_config initial_supervisor"
    by (simp add: sv_init_def make_supervisor_def sample_config_def default_safety_config_def)
  moreover have "sv_step sample_config initial_supervisor (fst ?u)"
    by (rule step_update) (rule surjective_pairing)
  ultimately have r: "reach (sv_init sample_config) (sv_step sample_config) (fst ?u)"
    using reach_step [OF reach_init] by metis
  have f: "sv_state (fst ?u) = Fault" by (simp add: update_eval sample_defs)
  with fault_and_disarm_latch [OF r] show ?thesis by blast
qed

definition sample_eps_vehicle :: vehicle_state where
  "sample_eps_vehicle = sample_vehicle\<lparr>vs_eps_fault := True\<rparr>"

theorem soft_disable_bounded_witness:
  "sv_state (fst (update sample_config 2000 sample_eps_vehicle sample_panda sample_command sample_active)) = SoftDisabling \<and>
   4000 < (2000 + 3000000000 :: int)"
proof -
  let ?t = "(4000, sample_eps_vehicle, sample_panda, sample_command)"
  obtain t d where u: "update sample_config 2000 sample_eps_vehicle sample_panda sample_command sample_active = (t, d)"
    by fastforce
  have t: "t = fst (update sample_config 2000 sample_eps_vehicle sample_panda sample_command sample_active)"
    using u by simp
  have st: "sv_state t = SoftDisabling"
    unfolding t by (simp add: update_eval sample_defs sample_eps_vehicle_def)
  have "stays_soft sample_config [?t] t"
    unfolding t by (simp add: sv_tick_def update_eval sample_defs sample_eps_vehicle_def)
  from soft_disable_bounded [OF u _ this] st t show ?thesis by (simp add: sample_active_def)
qed

definition sample_brake_vehicle :: vehicle_state where
  "sample_brake_vehicle = sample_vehicle\<lparr>vs_brake_pressed := True\<rparr>"

theorem brake_latches_longitudinal_witness:
  "list_all (\<lambda>d. \<not> sd_longitudinal_allowed d) (decisions sample_config
     [Period (2000, sample_brake_vehicle, sample_panda, sample_command), Request True,
      Period (3000, sample_vehicle, sample_panda, sample_command)]
     (sample_active\<lparr>sv_longitudinal_enabled := True\<rparr>))"
  by (rule brake_latches_longitudinal)
    (simp_all add: update_eval sample_defs sample_brake_vehicle_def request_arm_def)

theorem select_channels_refines_buttons_witness:
  "mode_of (fst (select_channels sample_config sample_vehicle sample_panda sample_armed)) = Mode_lateral"
  using select_channels_refines_buttons [of sample_config sample_vehicle sample_panda sample_armed]
  by (simp add: sample_defs set_event_def lane_keep_event_def mode_of_def press_lane_keep_def)

theorem set_press_activates_witness:
  "\<exists>t d. update sample_config 2000 (sample_vehicle\<lparr>vs_set_button_events := 1\<rparr>) sample_panda sample_command
      sample_armed = (t, d) \<and> sv_state t = Active \<and> sd_lateral_allowed d \<and> sd_longitudinal_allowed d"
proof -
  let ?v = "sample_vehicle\<lparr>vs_set_button_events := 1\<rparr>"
  have "may_actuate sample_config 2000 ?v sample_panda sample_command"
    by (simp add: may_actuate_def update_eval sample_defs)
  from set_press_activates [OF this, of sample_armed] show ?thesis
    by (simp add: sample_defs set_event_def cancel_event_def mode_of_def) blast
qed

end
