(* ===== verification/Command_Adapter.thy ===== *)
theory Command_Adapter
  imports Can_Types
begin

text \<open>
  The adapter from upstream commands to actuator values (\<open>src/command_adapter.cpp\<close>): the longitudinal
  request, the lateral input modes with their torque controller, and the limits on the torque. Torques
  are C++ \<open>int\<close> values: the two narrowing casts are \<open>to_int32\<close>, and the lemmas show that the sums of
  the slew limit stay far inside the type. What \<open>std::tan\<close>, \<open>std::atan\<close> and an out-of-range
  \<open>std::lround\<close> return is the parameter \<open>libm\<close>.
\<close>

section \<open>Constants and configuration\<close>

definition kRadiansToDegrees :: double where
  "kRadiansToDegrees = lit (572957795130823208768 / 10 ^ 19)"

definition kDegreesToRadians :: double where
  "kDegreesToRadians = lit 1 / kRadiansToDegrees"

definition kMaxValidTorque :: int where
  "kMaxValidTorque = 1021"

definition kSccMinAccel :: double where
  "kSccMinAccel = lit (- 1023 / 100)"

definition kSccMaxAccel :: double where
  "kSccMaxAccel = lit (1024 / 100)"

text \<open>The loop of \<open>interpolate\<close> with \<open>n\<close> intervals to go.\<close>

fun interpolate_loop :: "double \<Rightarrow> double list \<Rightarrow> double list \<Rightarrow> nat \<Rightarrow> nat \<Rightarrow> double" where
  "interpolate_loop v x y i 0 = y ! 3"
| "interpolate_loop v x y i (Suc n) =
     (if v \<le> x ! i
      then let ratio = (v - x ! (i - 1)) / (x ! i - x ! (i - 1))
           in y ! (i - 1) + ratio * (y ! i - y ! (i - 1))
      else interpolate_loop v x y (Suc i) n)"

definition interpolate :: "double \<Rightarrow> double list \<Rightarrow> double list \<Rightarrow> double" where
  "interpolate v x y =
     (if v \<le> x ! 0 then y ! 0 else if x ! 3 \<le> v then y ! 3 else interpolate_loop v x y 1 3)"

datatype lateral_input_mode = SteeringRateDegPerSec | SteeringRateRadPerSec | Curvature | DirectTorque

definition lateral_mode_from_string :: "string \<Rightarrow> exn + lateral_input_mode" where
  "lateral_mode_from_string s =
     (if s = ''steering_rate_deg_s'' then Inr SteeringRateDegPerSec
      else if s = ''steering_rate_rad_s'' then Inr SteeringRateRadPerSec
      else if s = ''curvature_1pm'' then Inr Curvature
      else if s = ''direct_torque'' then Inr DirectTorque
      else Inl (Invalid_argument (''unsupported lateral input mode: '' @ s)))"

record adapter_config =
  ac_lateral_mode :: lateral_input_mode
  ac_unfiltered_input :: bool
  ac_lateral_scale :: double
  ac_lateral_offset :: double
  ac_acceleration_scale :: double
  ac_acceleration_offset :: double
  ac_wheelbase_m :: double
  ac_steering_ratio :: double
  ac_steer_actuator_delay_s :: double
  ac_torque_kp :: double
  ac_torque_ki :: double
  ac_torque_kd :: double
  ac_torque_kf :: double
  ac_lat_accel_factor :: double
  ac_friction :: double
  ac_friction_threshold :: double
  ac_steering_angle_deadzone_deg :: double
  ac_integral_output_limit :: double
  ac_integrator_freeze_speed_mps :: double
  ac_low_speed_factor_bp_mps :: "double list"
  ac_low_speed_factor_v :: "double list"
  ac_max_target_angle_deg :: double
  ac_max_target_rate_deg_s :: double
  ac_torque_output_scale :: int
  ac_max_torque :: int
  ac_torque_rate_up :: int
  ac_torque_rate_down :: int
  ac_driver_torque_allowance :: double
  ac_driver_torque_multiplier :: double
  ac_driver_torque_factor :: double
  ac_steer_request_cutoff_angle_deg :: double
  ac_steer_request_valid_frames :: u32
  ac_steer_request_cut_frames :: u32
  ac_accel_min_mps2 :: double
  ac_accel_max_mps2 :: double
  ac_jerk_limit_mps3 :: double

definition default_adapter_config :: adapter_config where
  "default_adapter_config = \<lparr>ac_lateral_mode = SteeringRateDegPerSec, ac_unfiltered_input = True,
     ac_lateral_scale = lit 1, ac_lateral_offset = lit 0, ac_acceleration_scale = lit 1,
     ac_acceleration_offset = lit 0, ac_wheelbase_m = lit (297 / 100), ac_steering_ratio = lit (1426 / 100),
     ac_steer_actuator_delay_s = lit (1 / 10), ac_torque_kp = lit 1, ac_torque_ki = lit (1 / 10),
     ac_torque_kd = lit 0, ac_torque_kf = lit 1, ac_lat_accel_factor = lit (3172929 / 1000000),
     ac_friction = lit (96019 / 1000000), ac_friction_threshold = lit (3 / 10),
     ac_steering_angle_deadzone_deg = lit 0, ac_integral_output_limit = lit (378 / 100),
     ac_integrator_freeze_speed_mps = lit 0,
     ac_low_speed_factor_bp_mps = [lit 0, lit 10, lit 20, lit 30],
     ac_low_speed_factor_v = [lit 15, lit 13, lit 10, lit 5],
     ac_max_target_angle_deg = lit 175, ac_max_target_rate_deg_s = lit 500,
     ac_torque_output_scale = 270, ac_max_torque = 1021, ac_torque_rate_up = 2042,
     ac_torque_rate_down = 2042, ac_driver_torque_allowance = lit 250,
     ac_driver_torque_multiplier = lit 0, ac_driver_torque_factor = lit 1,
     ac_steer_request_cutoff_angle_deg = lit 85, ac_steer_request_valid_frames = 89,
     ac_steer_request_cut_frames = 2, ac_accel_min_mps2 = lit (- 1023 / 100),
     ac_accel_max_mps2 = lit (1024 / 100), ac_jerk_limit_mps3 = lit (127 / 10)\<rparr>"

section \<open>Construction\<close>

record adapter =
  ad_target_angle_deg :: double
  ad_target_rate_deg_s :: double
  ad_torque_integral :: double
  ad_previous_torque_error :: double
  ad_last_torque :: int
  ad_high_angle_frames :: u32
  ad_initialized :: bool

definition initial_adapter :: adapter where
  "initial_adapter = \<lparr>ad_target_angle_deg = Fin 0, ad_target_rate_deg_s = Fin 0,
     ad_torque_integral = Fin 0, ad_previous_torque_error = Fin 0, ad_last_torque = 0,
     ad_high_angle_frames = 0, ad_initialized = False\<rparr>"

definition config_finite :: "adapter_config \<Rightarrow> bool" where
  "config_finite cfg \<longleftrightarrow> list_all (\<lambda>field. isfinite (field cfg))
     [ac_lateral_scale, ac_lateral_offset, ac_acceleration_scale, ac_acceleration_offset,
      ac_wheelbase_m, ac_steering_ratio, ac_steer_actuator_delay_s, ac_torque_kp, ac_torque_ki,
      ac_torque_kd, ac_torque_kf, ac_lat_accel_factor, ac_friction, ac_friction_threshold,
      ac_steering_angle_deadzone_deg, ac_integral_output_limit, ac_integrator_freeze_speed_mps,
      ac_max_target_angle_deg, ac_max_target_rate_deg_s, ac_driver_torque_allowance,
      ac_driver_torque_multiplier, ac_driver_torque_factor, ac_steer_request_cutoff_angle_deg,
      ac_accel_min_mps2, ac_accel_max_mps2, ac_jerk_limit_mps3]"

definition config_ranges :: "adapter_config \<Rightarrow> bool" where
  "config_ranges cfg \<longleftrightarrow>
     list_all (\<lambda>field. \<not> field cfg \<le> Fin 0)
       [ac_wheelbase_m, ac_steering_ratio, ac_lat_accel_factor, ac_friction_threshold,
        ac_max_target_angle_deg, ac_max_target_rate_deg_s, ac_jerk_limit_mps3] \<and>
     list_all (\<lambda>field. \<not> field cfg < Fin 0)
       [ac_steer_actuator_delay_s, ac_torque_kp, ac_torque_ki, ac_torque_kd, ac_torque_kf, ac_friction,
        ac_steering_angle_deadzone_deg, ac_integral_output_limit, ac_integrator_freeze_speed_mps,
        ac_driver_torque_allowance, ac_driver_torque_multiplier, ac_driver_torque_factor,
        ac_steer_request_cutoff_angle_deg] \<and>
     \<not> ac_steer_request_valid_frames cfg < 89 \<and>
     \<not> ac_steer_request_cut_frames cfg < 1 \<and> \<not> 2 < ac_steer_request_cut_frames cfg"

fun low_speed_table_ok :: "double list \<Rightarrow> double list \<Rightarrow> double option \<Rightarrow> bool" where
  "low_speed_table_ok (x # xs) (y # ys) previous \<longleftrightarrow>
     isfinite x \<and> isfinite y \<and> \<not> y < Fin 0 \<and>
     (case previous of None \<Rightarrow> True | Some p \<Rightarrow> \<not> x \<le> p) \<and> low_speed_table_ok xs ys (Some x)"
| "low_speed_table_ok _ _ previous \<longleftrightarrow> True"

definition make_adapter :: "adapter_config \<Rightarrow> exn + adapter" where
  "make_adapter cfg =
     (if \<not> config_finite cfg \<or> \<not> config_ranges cfg
      then Inl (Invalid_argument ''invalid or non-finite command adapter configuration'')
      else if \<not> low_speed_table_ok (ac_low_speed_factor_bp_mps cfg) (ac_low_speed_factor_v cfg) None
      then Inl (Invalid_argument ''invalid Carrot low-speed factor table'')
      else if ac_max_torque cfg < 0 \<or> kMaxValidTorque < ac_max_torque cfg
      then Inl (Invalid_argument ''max_torque must be within [0, 1021]'')
      else if ac_torque_output_scale cfg < 1 \<or> kMaxValidTorque < ac_torque_output_scale cfg
      then Inl (Invalid_argument ''torque_output_scale must be within [1, 1021]'')
      else if ac_torque_rate_up cfg < 1 \<or> 2 * kMaxValidTorque < ac_torque_rate_up cfg \<or>
              ac_torque_rate_down cfg < 1 \<or> 2 * kMaxValidTorque < ac_torque_rate_down cfg
      then Inl (Invalid_argument ''software torque rates must be within [1, 2042]'')
      else if ac_accel_min_mps2 cfg < kSccMinAccel \<or> kSccMaxAccel < ac_accel_max_mps2 cfg \<or>
              ac_accel_max_mps2 cfg < ac_accel_min_mps2 cfg
      then Inl (Invalid_argument ''software acceleration bounds exceed SCC encoding'')
      else Inr initial_adapter)"

definition reset :: "vehicle_state \<Rightarrow> adapter \<Rightarrow> adapter" where
  "reset vehicle a = a\<lparr>ad_target_angle_deg := vs_steering_angle_deg vehicle,
     ad_target_rate_deg_s := Fin 0, ad_torque_integral := Fin 0, ad_previous_torque_error := Fin 0,
     ad_last_torque := 0, ad_high_angle_frames := 0, ad_initialized := True\<rparr>"

section \<open>Torque limits\<close>

definition slew_bounds :: "adapter_config \<Rightarrow> int \<Rightarrow> int \<times> int" where
  "slew_bounds cfg last_torque =
     (if 0 < last_torque then (last_torque - ac_torque_rate_down cfg, last_torque + ac_torque_rate_up cfg)
      else if last_torque < 0
      then (last_torque - ac_torque_rate_up cfg, last_torque + ac_torque_rate_down cfg)
      else (- ac_torque_rate_up cfg, ac_torque_rate_up cfg))"

definition apply_torque_slew :: "adapter_config \<Rightarrow> int \<Rightarrow> int \<Rightarrow> int" where
  "apply_torque_slew cfg last_torque desired =
     (case slew_bounds cfg last_torque of (lower, upper) \<Rightarrow> cclamp desired lower upper)"

definition apply_driver_torque_limits :: "libm \<Rightarrow> adapter_config \<Rightarrow> int \<Rightarrow> double \<Rightarrow> int" where
  "apply_driver_torque_limits m cfg desired driver_torque =
     (let maximum = of_integer (ac_max_torque cfg);
          driver_maximum = maximum + (ac_driver_torque_allowance cfg +
            driver_torque * ac_driver_torque_factor cfg) * ac_driver_torque_multiplier cfg;
          driver_minimum = - maximum + (- ac_driver_torque_allowance cfg +
            driver_torque * ac_driver_torque_factor cfg) * ac_driver_torque_multiplier cfg;
          maximum_allowed = cmax (cmin maximum driver_maximum) (lit 0);
          minimum_allowed = cmin (cmax (- maximum) driver_minimum) (lit 0)
      in to_int32 (lround m (cclamp (of_integer desired) minimum_allowed maximum_allowed)))"

text \<open>The remainder by a zero cycle is undefined.\<close>

definition update_steering_request ::
  "adapter_config \<Rightarrow> bool \<Rightarrow> double \<Rightarrow> adapter \<Rightarrow> (exn + bool) \<times> adapter" where
  "update_steering_request cfg active steering_angle_deg a =
     (if \<not> active \<or> deq (ac_steer_request_cutoff_angle_deg cfg) (lit 0) \<or>
         dabs steering_angle_deg < ac_steer_request_cutoff_angle_deg cfg
      then (Inr active, a\<lparr>ad_high_angle_frames := 0\<rparr>)
      else
        let cycle = ac_steer_request_valid_frames cfg + ac_steer_request_cut_frames cfg
        in if cycle = 0 then (Inl Undefined_behaviour, a)
           else
             let position = ad_high_angle_frames a mod cycle
             in (Inr (position < ac_steer_request_valid_frames cfg),
                 a\<lparr>ad_high_angle_frames := (ad_high_angle_frames a + 1) mod cycle\<rparr>))"

definition low_speed_factor :: "adapter_config \<Rightarrow> double \<Rightarrow> double" where
  "low_speed_factor cfg speed_mps =
     interpolate speed_mps (ac_low_speed_factor_bp_mps cfg) (ac_low_speed_factor_v cfg)"

section \<open>The lateral controller\<close>

text \<open>Where the input mode puts the target angle and rate.\<close>

definition clamp_rate :: "adapter_config \<Rightarrow> double \<Rightarrow> double" where
  "clamp_rate cfg rate =
     (if ac_unfiltered_input cfg then rate
      else cclamp rate (- ac_max_target_rate_deg_s cfg) (ac_max_target_rate_deg_s cfg))"

definition clamp_angle :: "adapter_config \<Rightarrow> double \<Rightarrow> double" where
  "clamp_angle cfg angle =
     (if ac_unfiltered_input cfg then angle
      else cclamp angle (- ac_max_target_angle_deg cfg) (ac_max_target_angle_deg cfg))"

definition advance_target :: "double \<Rightarrow> double \<Rightarrow> adapter \<Rightarrow> adapter" where
  "advance_target rate dt a = a\<lparr>ad_target_rate_deg_s := rate,
     ad_target_angle_deg := ad_target_angle_deg a + rate * dt\<rparr>"

definition move_target :: "libm \<Rightarrow> adapter_config \<Rightarrow> double \<Rightarrow> double \<Rightarrow> adapter \<Rightarrow> adapter" where
  "move_target m cfg lateral dt a =
     (let a = (case ac_lateral_mode cfg of
          SteeringRateDegPerSec \<Rightarrow> advance_target (clamp_rate cfg lateral) dt a
        | SteeringRateRadPerSec \<Rightarrow> advance_target (clamp_rate cfg (lateral * kRadiansToDegrees)) dt a
        | _ \<Rightarrow>
            let new_target = (lm_atan m (ac_wheelbase_m cfg * lateral) * ac_steering_ratio cfg) * kRadiansToDegrees;
                requested_rate = (new_target - ad_target_angle_deg a) / dt
            in if ac_unfiltered_input cfg
               then a\<lparr>ad_target_rate_deg_s := requested_rate, ad_target_angle_deg := new_target\<rparr>
               else advance_target (clamp_rate cfg requested_rate) dt a)
      in a\<lparr>ad_target_angle_deg := clamp_angle cfg (ad_target_angle_deg a)\<rparr>)"

definition curvature_of :: "libm \<Rightarrow> adapter_config \<Rightarrow> double \<Rightarrow> double" where
  "curvature_of m cfg angle =
     lm_tan m (angle * kDegreesToRadians / ac_steering_ratio cfg) / ac_wheelbase_m cfg"

definition feedforward_torque :: "libm \<Rightarrow> adapter_config \<Rightarrow> double \<Rightarrow> double \<Rightarrow> double \<Rightarrow> double" where
  "feedforward_torque m cfg desired_curvature actual_curvature speed_squared =
     (let desired_lateral_accel = desired_curvature * speed_squared;
          actual_lateral_accel = actual_curvature * speed_squared;
          curvature_deadzone = dabs (curvature_of m cfg (ac_steering_angle_deadzone_deg cfg));
          lateral_accel_deadzone = curvature_deadzone * speed_squared;
          lateral_accel_error = desired_lateral_accel - actual_lateral_accel;
          friction_error = (if dabs lateral_accel_error < lateral_accel_deadzone then lit 0 else lateral_accel_error);
          friction = cclamp (friction_error / ac_friction_threshold cfg) (lit (- 1)) (lit 1) * ac_friction cfg
      in desired_lateral_accel / ac_lat_accel_factor cfg + friction)"

definition controller_torque ::
  "libm \<Rightarrow> adapter_config \<Rightarrow> vehicle_state \<Rightarrow> double \<Rightarrow> adapter \<Rightarrow> int \<times> adapter" where
  "controller_torque m cfg vehicle dt a =
     (let predicted_target_angle =
            ad_target_angle_deg a + ad_target_rate_deg_s a * ac_steer_actuator_delay_s cfg;
          control_target_angle = clamp_angle cfg predicted_target_angle;
          desired_curvature = curvature_of m cfg control_target_angle;
          actual_curvature = curvature_of m cfg (vs_steering_angle_deg vehicle);
          speed = cmax (vs_speed_mps vehicle) (lit 0);
          speed_squared = speed * speed;
          low_speed = low_speed_factor cfg speed;
          setpoint = desired_curvature * (speed_squared + low_speed * low_speed);
          measurement = actual_curvature * (speed_squared + low_speed * low_speed);
          torque_error = (setpoint - measurement) / ac_lat_accel_factor cfg;
          feedforward = feedforward_torque m cfg desired_curvature actual_curvature speed_squared;
          freeze_integrator = speed < ac_integrator_freeze_speed_mps cfg \<or>
            ac_max_torque cfg \<le> \<bar>ad_last_torque a\<bar>;
          a = (if \<not> freeze_integrator \<and> lit 0 < ac_torque_ki cfg
               then let integral_limit = ac_integral_output_limit cfg / ac_torque_ki cfg
                    in a\<lparr>ad_torque_integral := cclamp (ad_torque_integral a + torque_error * dt)
                           (- integral_limit) integral_limit\<rparr>
               else a);
          derivative = (torque_error - ad_previous_torque_error a) / dt;
          a = a\<lparr>ad_previous_torque_error := torque_error\<rparr>;
          normalized_torque =
            ((ac_torque_kp cfg * torque_error + ac_torque_ki cfg * ad_torque_integral a) +
             ac_torque_kd cfg * derivative) + ac_torque_kf cfg * feedforward
      in (to_int32 (lround m (normalized_torque * of_integer (ac_torque_output_scale cfg))), a))"

section \<open>Update\<close>

definition longitudinal_output ::
  "adapter_config \<Rightarrow> command_sample \<Rightarrow> vehicle_state \<Rightarrow> bool \<Rightarrow> control_output" where
  "longitudinal_output cfg command vehicle longitudinal_allowed =
     (let out = empty_output\<lparr>co_longitudinal_active := longitudinal_allowed\<rparr>
      in if longitudinal_allowed then
           let requested = cs_acceleration_mps2 command * ac_acceleration_scale cfg + ac_acceleration_offset cfg;
               accel = cclamp requested (ac_accel_min_mps2 cfg) (ac_accel_max_mps2 cfg)
           in out\<lparr>co_acceleration_mps2 := accel,
                  co_stopping := accel < lit (- 1 / 10) \<and> vs_speed_mps vehicle < lit (3 / 10)\<rparr>
         else out)"

definition pause_lateral :: "vehicle_state \<Rightarrow> adapter \<Rightarrow> adapter" where
  "pause_lateral vehicle a = a\<lparr>ad_torque_integral := Fin 0, ad_previous_torque_error := Fin 0,
     ad_target_angle_deg := vs_steering_angle_deg vehicle, ad_target_rate_deg_s := Fin 0,
     ad_last_torque := 0\<rparr>"

definition desired_torque ::
  "libm \<Rightarrow> adapter_config \<Rightarrow> command_sample \<Rightarrow> vehicle_state \<Rightarrow> double \<Rightarrow> adapter \<Rightarrow> int \<times> adapter" where
  "desired_torque m cfg command vehicle dt a =
     (let lateral = cs_lateral command * ac_lateral_scale cfg + ac_lateral_offset cfg
      in if ac_lateral_mode cfg = DirectTorque then (to_int32 (lround m lateral), a)
         else controller_torque m cfg vehicle dt (move_target m cfg lateral dt a))"

definition limit_torque :: "libm \<Rightarrow> adapter_config \<Rightarrow> vehicle_state \<Rightarrow> int \<Rightarrow> int \<Rightarrow> int" where
  "limit_torque m cfg vehicle last_torque desired =
     (let desired = cclamp desired (- ac_max_torque cfg) (ac_max_torque cfg);
          desired = apply_driver_torque_limits m cfg desired (vs_driver_torque vehicle)
      in apply_torque_slew cfg last_torque desired)"

definition update_adapter ::
  "libm \<Rightarrow> adapter_config \<Rightarrow> command_sample \<Rightarrow> vehicle_state \<Rightarrow> double \<Rightarrow> bool \<Rightarrow> bool \<Rightarrow> adapter \<Rightarrow>
   (exn + control_output) \<times> adapter" where
  "update_adapter m cfg command vehicle dt lateral_allowed longitudinal_allowed a =
     (if \<not> isfinite dt \<or> dt \<le> lit 0
      then (Inl (Invalid_argument ''control period must be finite and positive''), a)
      else
        let dt = (if \<not> ac_unfiltered_input cfg then cclamp dt (lit (1 / 1000)) (lit (5 / 100)) else dt);
            a = (if \<not> ad_initialized a then reset vehicle a else a)
        in if \<not> isfinite (cs_lateral command) \<or> \<not> isfinite (cs_acceleration_mps2 command)
           then (Inl (Invalid_argument ''control command contains a non-finite value''), a)
           else
             let output = longitudinal_output cfg command vehicle longitudinal_allowed
             in if \<not> lateral_allowed then
                  let a = pause_lateral vehicle a;
                      (r, a) = update_steering_request cfg False (vs_steering_angle_deg vehicle) a
                  in (ebind r (\<lambda>b. Inr (output\<lparr>co_steering_torque := 0, co_steering_request := b\<rparr>)), a)
                else
                  let (desired, a) = desired_torque m cfg command vehicle dt a;
                      torque = limit_torque m cfg vehicle (ad_last_torque a) desired;
                      a = a\<lparr>ad_last_torque := torque\<rparr>;
                      (r, a) = update_steering_request cfg True (vs_steering_angle_deg vehicle) a
                  in (ebind r (\<lambda>b. Inr (output\<lparr>co_steering_torque := torque, co_lateral_active := True,
                        co_steering_request := b\<rparr>)), a))"

end
