(* ===== verification/Adapter_Properties.thy ===== *)
theory Adapter_Properties
  imports Command_Adapter
begin

text \<open>
  What the command adapter guarantees: the limits on the torque in every reachable state and for any
  driver torque, the bounds of the acceleration, the inputs on which an update returns, the
  pass-through of direct torque up to 32 bits, and the steering request cycle at high angles.
\<close>

section \<open>Rounding and limits\<close>

lemma round_half_away_bounds:
  "0 \<le> q \<Longrightarrow> q \<le> of_int n \<Longrightarrow> 0 \<le> round_half_away q \<and> round_half_away q \<le> n"
  "q \<le> 0 \<Longrightarrow> of_int n \<le> q \<Longrightarrow> n \<le> round_half_away q \<and> round_half_away q \<le> 0"
  by (auto simp: round_half_away_def) linarith+

lemma round_half_away_of_int [simp]: "round_half_away (of_int n) = n"
  by (simp add: round_half_away_def) linarith

lemma lround_small: "\<bar>round_half_away q\<bar> \<le> 2 ^ 31 \<Longrightarrow> lround m (Fin q) = round_half_away q"
  by (simp add: Let_def abs_le_iff)

text \<open>A limit built from any driver torque, a NaN included, lies between zero and the maximum.\<close>

lemma upper_limit: "0 \<le> M \<Longrightarrow> \<exists>q. cmax (cmin (Fin M) x) (Fin 0) = Fin q \<and> 0 \<le> q \<and> q \<le> M"
  by (cases x) (auto simp: cmax_def cmin_def)

lemma lower_limit: "0 \<le> M \<Longrightarrow> \<exists>q. cmin (cmax (Fin (- M)) x) (Fin 0) = Fin q \<and> - M \<le> q \<and> q \<le> 0"
  by (cases x) (auto simp: cmax_def cmin_def)

lemma of_integer_small [simp]: "\<bar>i\<bar> \<le> 2 ^ 53 \<Longrightarrow> of_integer i = Fin (of_int i)"
  by (simp add: of_integer_def)

text \<open>The driver's torque only ever shrinks the request, and never turns it round.\<close>

lemma driver_limits_shrink:
  assumes "0 \<le> ac_max_torque cfg" "ac_max_torque cfg \<le> 1021" and "\<bar>d\<bar> \<le> 1021"
  shows "0 \<le> d \<Longrightarrow> 0 \<le> apply_driver_torque_limits m cfg d x \<and> apply_driver_torque_limits m cfg d x \<le> d"
    and "d \<le> 0 \<Longrightarrow> d \<le> apply_driver_torque_limits m cfg d x \<and> apply_driver_torque_limits m cfg d x \<le> 0"
proof -
  let ?M = "of_int (ac_max_torque cfg) :: rat"
  have M: "of_integer (ac_max_torque cfg) = Fin ?M" "0 \<le> ?M" using assms by simp_all
  have dd: "of_integer d = Fin (of_int d)" using assms by simp
  obtain lo hi where lim: "apply_driver_torque_limits m cfg d x =
      to_int32 (lround m (cclamp (Fin (of_int d)) (Fin lo) (Fin hi)))" "lo \<le> 0" "0 \<le> hi"
  proof -
    let ?u = "Fin ?M + (ac_driver_torque_allowance cfg + x * ac_driver_torque_factor cfg) * ac_driver_torque_multiplier cfg"
    let ?l = "Fin (- ?M) + (- ac_driver_torque_allowance cfg + x * ac_driver_torque_factor cfg) * ac_driver_torque_multiplier cfg"
    obtain hi lo where "cmax (cmin (Fin ?M) ?u) (Fin 0) = Fin hi" "0 \<le> hi"
      "cmin (cmax (Fin (- ?M)) ?l) (Fin 0) = Fin lo" "lo \<le> 0"
      using upper_limit [OF M(2), of ?u] lower_limit [OF M(2), of ?l] by blast
    then show ?thesis by (intro that [of lo hi]) (simp_all add: apply_driver_torque_limits_def Let_def M(1) dd)
  qed
  have r: "apply_driver_torque_limits m cfg d x = round_half_away q"
    if "cclamp (Fin (of_int d)) (Fin lo) (Fin hi) = Fin q" "\<bar>round_half_away q\<bar> \<le> 1021" for q
  proof -
    have "lround m (Fin q) = round_half_away q" using that(2) by (intro lround_small) simp
    then show ?thesis using that by (simp add: lim(1) to_int32_id del: lround.simps)
  qed
  show "0 \<le> apply_driver_torque_limits m cfg d x \<and> apply_driver_torque_limits m cfg d x \<le> d" if d0: "0 \<le> d"
  proof -
    define q where "q = (if hi < of_int d then hi else of_int d)"
    have "\<not> of_int d < lo" using d0 lim(2) by (simp add: not_less order_trans [of lo 0])
    then have c: "cclamp (Fin (of_int d)) (Fin lo) (Fin hi) = Fin q" by (simp add: cclamp_def q_def)
    have "0 \<le> q" "q \<le> of_int d" using d0 lim(3) by (simp_all add: q_def)
    from round_half_away_bounds(1) [OF this] r [OF c] assms(3) show ?thesis by simp
  qed
  show "d \<le> apply_driver_torque_limits m cfg d x \<and> apply_driver_torque_limits m cfg d x \<le> 0" if d0: "d \<le> 0"
  proof -
    define q where "q = (if of_int d < lo then lo else of_int d)"
    have "\<not> hi < of_int d" using d0 lim(3) by (simp add: not_less order_trans [of _ 0])
    then have c: "cclamp (Fin (of_int d)) (Fin lo) (Fin hi) = Fin q" by (simp add: cclamp_def q_def)
    have "q \<le> 0" "of_int d \<le> q" using d0 lim(2) by (simp_all add: q_def)
    from round_half_away_bounds(2) [OF this] r [OF c] assms(3) show ?thesis by simp
  qed
qed

lemma make_adapter_ok:
  assumes "make_adapter cfg = Inr a"
  shows "a = initial_adapter" and "0 \<le> ac_max_torque cfg" and "ac_max_torque cfg \<le> 1021"
    and "1 \<le> ac_torque_rate_up cfg" and "ac_torque_rate_up cfg \<le> 2042"
    and "1 \<le> ac_torque_rate_down cfg" and "ac_torque_rate_down cfg \<le> 2042"
    and "config_finite cfg" and "config_ranges cfg"
    and "\<not> ac_accel_min_mps2 cfg < kSccMinAccel" and "\<not> kSccMaxAccel < ac_accel_max_mps2 cfg"
    and "\<not> ac_accel_max_mps2 cfg < ac_accel_min_mps2 cfg"
  using assms by (simp_all add: make_adapter_def kMaxValidTorque_def split: if_split_asm)

lemma slew_bounded:
  assumes "\<bar>lt\<bar> \<le> M" and "\<bar>d\<bar> \<le> M" and "1 \<le> ac_torque_rate_up cfg" and "1 \<le> ac_torque_rate_down cfg"
  shows "\<bar>apply_torque_slew cfg lt d\<bar> \<le> M"
    and "fst (slew_bounds cfg lt) \<le> apply_torque_slew cfg lt d"
    and "apply_torque_slew cfg lt d \<le> snd (slew_bounds cfg lt)"
  using assms by (auto simp: apply_torque_slew_def slew_bounds_def cclamp_def abs_le_iff)

lemma limit_torque_bounded:
  assumes cfg: "make_adapter cfg = Inr a0" and lt: "\<bar>lt\<bar> \<le> ac_max_torque cfg"
  shows "\<bar>limit_torque m cfg v lt d\<bar> \<le> ac_max_torque cfg"
    and "fst (slew_bounds cfg lt) \<le> limit_torque m cfg v lt d"
    and "limit_torque m cfg v lt d \<le> snd (slew_bounds cfg lt)"
proof -
  note c = make_adapter_ok [OF cfg]
  define d1 where "d1 = cclamp d (- ac_max_torque cfg) (ac_max_torque cfg)"
  define d2 where "d2 = apply_driver_torque_limits m cfg d1 (vs_driver_torque v)"
  have d1: "\<bar>d1\<bar> \<le> ac_max_torque cfg" using cclamp_int_bounds [OF c(2), of d] by (simp add: d1_def abs_le_iff)
  then have "\<bar>d1\<bar> \<le> 1021" using c(3) by simp
  from driver_limits_shrink [OF c(2,3) this, of m "vs_driver_torque v"] d1
  have "\<bar>d2\<bar> \<le> ac_max_torque cfg" unfolding d2_def by (cases "0 \<le> d1") auto
  from slew_bounded [OF lt this c(4,6)]
  show "\<bar>limit_torque m cfg v lt d\<bar> \<le> ac_max_torque cfg"
    and "fst (slew_bounds cfg lt) \<le> limit_torque m cfg v lt d"
    and "limit_torque m cfg v lt d \<le> snd (slew_bounds cfg lt)"
    by (simp_all add: limit_torque_def d1_def d2_def)
qed

section \<open>The acceleration request\<close>

lemma finite_Fin: "isfinite x \<Longrightarrow> \<exists>q. x = Fin q"
  by (cases x) auto

lemma rnd_add_not_NaN: "rnd a + Fin b \<noteq> NaN"
  using rnd_cases [of a] rnd_cases [of "rval a + b"] by auto

lemma mult_add_not_NaN: "Fin a * Fin b + Fin c \<noteq> NaN"
  by (simp add: rnd_add_not_NaN)

lemma clamp_not_NaN: "x \<noteq> NaN \<Longrightarrow> l \<le> u \<Longrightarrow> \<exists>q. cclamp x (Fin l) (Fin u) = Fin q \<and> l \<le> q \<and> q \<le> u"
  by (cases x) (auto simp: cclamp_def)

section \<open>The adapter as a machine\<close>

inductive ad_step :: "libm \<Rightarrow> adapter_config \<Rightarrow> adapter \<Rightarrow> adapter \<Rightarrow> bool" for m cfg where
  step_reset: "ad_step m cfg a (reset v a)"
| step_adapt: "update_adapter m cfg c v dt lat long a = (r, b) \<Longrightarrow> ad_step m cfg a b"

definition ad_init :: "adapter_config \<Rightarrow> adapter \<Rightarrow> bool" where
  "ad_init cfg a \<longleftrightarrow> make_adapter cfg = Inr a"

definition ad_inv :: "adapter_config \<Rightarrow> adapter \<Rightarrow> bool" where
  "ad_inv cfg a \<longleftrightarrow> is_Inr (make_adapter cfg) \<and> \<bar>ad_last_torque a\<bar> \<le> ac_max_torque cfg"

lemma advance_target_last [simp]: "ad_last_torque (advance_target r dt a) = ad_last_torque a"
  by (simp add: advance_target_def)

lemma move_target_last [simp]: "ad_last_torque (move_target m cfg l dt a) = ad_last_torque a"
  by (simp add: move_target_def Let_def split: lateral_input_mode.split)

lemma controller_torque_last [simp]: "ad_last_torque (snd (controller_torque m cfg v dt a)) = ad_last_torque a"
  by (simp add: controller_torque_def Let_def)

lemma desired_torque_last [simp]: "ad_last_torque (snd (desired_torque m cfg c v dt a)) = ad_last_torque a"
  by (simp add: desired_torque_def Let_def)

lemma steering_request_last [simp]:
  "ad_last_torque (snd (update_steering_request cfg act x a)) = ad_last_torque a"
  by (simp add: update_steering_request_def Let_def)

text \<open>The state \<open>update\<close> starts its work from.\<close>

definition started :: "vehicle_state \<Rightarrow> adapter \<Rightarrow> adapter" where
  "started v a = (if \<not> ad_initialized a then reset v a else a)"

definition effective_dt :: "adapter_config \<Rightarrow> double \<Rightarrow> double" where
  "effective_dt cfg dt = (if \<not> ac_unfiltered_input cfg then cclamp dt (lit (1 / 1000)) (lit (5 / 100)) else dt)"

definition admissible :: "double \<Rightarrow> command_sample \<Rightarrow> bool" where
  "admissible dt c \<longleftrightarrow> isfinite dt \<and> \<not> dt \<le> lit 0 \<and> isfinite (cs_lateral c) \<and> isfinite (cs_acceleration_mps2 c)"

lemma update_inadmissible:
  "\<not> admissible dt c \<Longrightarrow> (\<exists>e. fst (update_adapter m cfg c v dt lat long a) = Inl (Invalid_argument e)) \<and>
     snd (update_adapter m cfg c v dt lat long a) \<in> {a, started v a}"
  by (auto simp: update_adapter_def admissible_def started_def Let_def)

lemma update_paused:
  "admissible dt c \<Longrightarrow> update_adapter m cfg c v dt False long a =
     (Inr ((longitudinal_output cfg c v long)\<lparr>co_steering_torque := 0, co_steering_request := False\<rparr>),
      (pause_lateral v (started v a))\<lparr>ad_high_angle_frames := 0\<rparr>)"
  by (simp add: update_adapter_def admissible_def started_def update_steering_request_def Let_def)

text \<open>The torque a lateral tick sends.\<close>

definition lateral_torque ::
  "libm \<Rightarrow> adapter_config \<Rightarrow> command_sample \<Rightarrow> vehicle_state \<Rightarrow> double \<Rightarrow> adapter \<Rightarrow> int" where
  "lateral_torque m cfg c v dt a =
     limit_torque m cfg v (ad_last_torque (started v a))
       (fst (desired_torque m cfg c v (effective_dt cfg dt) (started v a)))"

lemma update_lateral:
  assumes "admissible dt c"
  shows "fst (update_adapter m cfg c v dt True long a) =
      ebind (fst (update_steering_request cfg True (vs_steering_angle_deg v)
          ((snd (desired_torque m cfg c v (effective_dt cfg dt) (started v a)))\<lparr>ad_last_torque := lateral_torque m cfg c v dt a\<rparr>)))
        (\<lambda>b. Inr ((longitudinal_output cfg c v long)\<lparr>co_steering_torque := lateral_torque m cfg c v dt a,
           co_lateral_active := True, co_steering_request := b\<rparr>))"
    and "snd (update_adapter m cfg c v dt True long a) =
      snd (update_steering_request cfg True (vs_steering_angle_deg v)
        ((snd (desired_torque m cfg c v (effective_dt cfg dt) (started v a)))\<lparr>ad_last_torque := lateral_torque m cfg c v dt a\<rparr>))"
proof -
  have last: "ad_last_torque (snd (desired_torque m cfg c v (effective_dt cfg dt) (started v a))) =
      ad_last_torque (started v a)" by simp
  show "fst (update_adapter m cfg c v dt True long a) =
      ebind (fst (update_steering_request cfg True (vs_steering_angle_deg v)
          ((snd (desired_torque m cfg c v (effective_dt cfg dt) (started v a)))\<lparr>ad_last_torque := lateral_torque m cfg c v dt a\<rparr>)))
        (\<lambda>b. Inr ((longitudinal_output cfg c v long)\<lparr>co_steering_torque := lateral_torque m cfg c v dt a,
           co_lateral_active := True, co_steering_request := b\<rparr>))"
    and "snd (update_adapter m cfg c v dt True long a) =
      snd (update_steering_request cfg True (vs_steering_angle_deg v)
        ((snd (desired_torque m cfg c v (effective_dt cfg dt) (started v a)))\<lparr>ad_last_torque := lateral_torque m cfg c v dt a\<rparr>))"
    using assms last
    by (simp_all add: update_adapter_def admissible_def started_def effective_dt_def [symmetric]
        lateral_torque_def Let_def case_prod_beta)
qed

lemma ad_inv_started: "ad_inv cfg a \<Longrightarrow> ad_inv cfg (reset v a) \<and> ad_inv cfg (started v a)"
  using make_adapter_ok(2) [of cfg] by (auto simp: ad_inv_def reset_def started_def is_Inr_iff)

lemma lateral_torque_bounded:
  assumes "ad_inv cfg a"
  shows "\<bar>lateral_torque m cfg c v dt a\<bar> \<le> ac_max_torque cfg"
    and "fst (slew_bounds cfg (ad_last_torque (started v a))) \<le> lateral_torque m cfg c v dt a"
    and "lateral_torque m cfg c v dt a \<le> snd (slew_bounds cfg (ad_last_torque (started v a)))"
proof -
  obtain a0 where "make_adapter cfg = Inr a0" using assms by (auto simp: ad_inv_def is_Inr_iff)
  moreover have "\<bar>ad_last_torque (started v a)\<bar> \<le> ac_max_torque cfg"
    using ad_inv_started [OF assms, of v] by (simp add: ad_inv_def)
  ultimately show "\<bar>lateral_torque m cfg c v dt a\<bar> \<le> ac_max_torque cfg"
    and "fst (slew_bounds cfg (ad_last_torque (started v a))) \<le> lateral_torque m cfg c v dt a"
    and "lateral_torque m cfg c v dt a \<le> snd (slew_bounds cfg (ad_last_torque (started v a)))"
    unfolding lateral_torque_def by (auto intro: limit_torque_bounded)
qed

lemma ad_inv_update: "ad_inv cfg a \<Longrightarrow> ad_inv cfg (snd (update_adapter m cfg c v dt lat long a))"
proof -
  assume inv: "ad_inv cfg a"
  show ?thesis
  proof (cases "admissible dt c")
    case False
    with update_inadmissible [OF this, of m cfg v lat long a] inv ad_inv_started [OF inv, of v] show ?thesis by auto
  next
    case True
    from inv make_adapter_ok(2) [of cfg] have "0 \<le> ac_max_torque cfg" by (auto simp: ad_inv_def is_Inr_iff)
    with True inv lateral_torque_bounded(1) [OF inv, of m c v dt] show ?thesis
      by (cases lat) (simp_all add: update_paused update_lateral(2) ad_inv_def pause_lateral_def)
  qed
qed

interpretation ad: machine_invariant "ad_init cfg" "ad_step m cfg" "ad_inv cfg" for m cfg
proof unfold_locales
  fix a assume "ad_init cfg a"
  then show "ad_inv cfg a" using make_adapter_ok(1,2) [of cfg a]
    by (simp add: ad_init_def ad_inv_def initial_adapter_def)
next
  fix a b assume inv: "ad_inv cfg a" and "ad_step m cfg a b"
  from this(2) show "ad_inv cfg b"
  proof (cases rule: ad_step.cases)
    case (step_reset v)
    with ad_inv_started [OF inv] show ?thesis by simp
  next
    case (step_adapt c v dt lat long r)
    with ad_inv_update [OF inv, of m c v dt lat long] show ?thesis by simp
  qed
qed

lemma steering_request_defined:
  assumes "unat (ac_steer_request_valid_frames cfg) < 2 ^ 31" and "\<not> 2 < ac_steer_request_cut_frames cfg"
    and "\<not> ac_steer_request_valid_frames cfg < 89"
  shows "unat (ac_steer_request_valid_frames cfg + ac_steer_request_cut_frames cfg) =
      unat (ac_steer_request_valid_frames cfg) + unat (ac_steer_request_cut_frames cfg)"
    and "ac_steer_request_valid_frames cfg + ac_steer_request_cut_frames cfg \<noteq> 0"
    and "\<exists>b. fst (update_steering_request cfg act x a) = Inr b"
proof -
  have c: "unat (ac_steer_request_cut_frames cfg) \<le> 2" using assms(2) by (simp add: word_less_nat_alt)
  have v: "89 \<le> unat (ac_steer_request_valid_frames cfg)" using assms(3) by (simp add: word_less_nat_alt)
  show u: "unat (ac_steer_request_valid_frames cfg + ac_steer_request_cut_frames cfg) =
      unat (ac_steer_request_valid_frames cfg) + unat (ac_steer_request_cut_frames cfg)"
    using assms(1) c by (intro unat_add_lem [THEN iffD1]) simp
  show nz: "ac_steer_request_valid_frames cfg + ac_steer_request_cut_frames cfg \<noteq> 0"
    using u v by (metis add_is_0 not_numeral_le_zero unat_0)
  show "\<exists>b. fst (update_steering_request cfg act x a) = Inr b"
    using nz by (simp add: update_steering_request_def Let_def)
qed

lemma longitudinal_output_simps [simp]:
  "co_steering_torque (longitudinal_output cfg c v l) = 0"
  "\<not> co_lateral_active (longitudinal_output cfg c v l)"
  "\<not> co_steering_request (longitudinal_output cfg c v l)"
  "co_longitudinal_active (longitudinal_output cfg c v l) = l"
  by (simp_all add: longitudinal_output_def empty_output_def Let_def)

lemma update_returns:
  assumes "make_adapter cfg = Inr a0" and "unat (ac_steer_request_valid_frames cfg) < 2 ^ 31" and True: "admissible dt c"
  shows "\<exists>out. fst (update_adapter m cfg c v dt lat long a) = Inr out"
proof -
  have "config_ranges cfg" using make_adapter_ok(9) [OF assms(1)] .
  then have r: "\<not> 2 < ac_steer_request_cut_frames cfg" "\<not> ac_steer_request_valid_frames cfg < 89"
    by (simp_all add: config_ranges_def)
  show ?thesis
  proof (cases lat)
    case False
    with update_paused [OF True] show ?thesis by simp
  next
    case lat: True
    obtain q where "fst (update_steering_request cfg True (vs_steering_angle_deg v)
        ((snd (desired_torque m cfg c v (effective_dt cfg dt) (started v a)))\<lparr>ad_last_torque := lateral_torque m cfg c v dt a\<rparr>)) = Inr q"
      using steering_request_defined(3) [OF assms(2) r] by blast
    then show ?thesis using True lat by (simp add: update_lateral(1))
  qed
qed

section \<open>Properties\<close>

text \<open>C11: the torque never leaves its bounds. In every reachable state of an adapter, whatever the command,
  the driver's torque (a NaN or infinity included) and the mathematical library, an update that
  returns sends a torque within the configured maximum, hence within the 1021 counts the frame can
  carry, and within the slew bounds of the last one; when lateral control is not allowed it sends zero
  torque, no request, and starts the next activation from zero.\<close>

theorem steering_torque_bounded:
  assumes "reach (ad_init cfg) (ad_step m cfg) a"
    and "update_adapter m cfg c v dt lat long a = (Inr out, b)"
  shows "\<bar>co_steering_torque out\<bar> \<le> ac_max_torque cfg \<and> ac_max_torque cfg \<le> 1021 \<and>
    ad_last_torque b = co_steering_torque out \<and> co_lateral_active out = lat \<and>
    (if lat then fst (slew_bounds cfg (ad_last_torque (started v a))) \<le> co_steering_torque out \<and>
       co_steering_torque out \<le> snd (slew_bounds cfg (ad_last_torque (started v a)))
     else co_steering_torque out = 0 \<and> \<not> co_steering_request out)"
proof -
  have inv: "ad_inv cfg a" using assms(1) by (rule ad.reachable_inv)
  then have mx: "0 \<le> ac_max_torque cfg" "ac_max_torque cfg \<le> 1021"
    using make_adapter_ok(2,3) [of cfg] by (auto simp: ad_inv_def is_Inr_iff)
  have adm: "admissible dt c"
    using update_inadmissible [of dt c m cfg v lat long a] assms(2) by (cases "admissible dt c") auto
  show ?thesis
  proof (cases lat)
    case True
    have "fst (update_adapter m cfg c v dt True long a) = Inr out" "snd (update_adapter m cfg c v dt True long a) = b"
      using assms(2) True by simp_all
    then have "co_steering_torque out = lateral_torque m cfg c v dt a" "co_lateral_active out"
      "ad_last_torque b = lateral_torque m cfg c v dt a"
      unfolding update_lateral [OF adm] by (auto simp: ebind_eq_Inr)
    with lateral_torque_bounded [OF inv, where m = m and c = c and v = v and dt = dt] mx True show ?thesis by simp
  next
    case False
    with assms(2) update_paused [OF adm, of m cfg v long a] mx show ?thesis
      by (auto simp: pause_lateral_def)
  qed
qed

text \<open>C28: an update returns exactly for a positive finite period and a finite command; for any other input
  it reports an invalid argument, and apart from the first initialisation leaves the state as it was.
  The steering cycle the node configures cannot make it fail.\<close>

theorem update_returns_iff:
  assumes "make_adapter cfg = Inr a0" and "unat (ac_steer_request_valid_frames cfg) < 2 ^ 31"
  shows "is_Inr (fst (update_adapter m cfg c v dt lat long a)) = admissible dt c \<and>
    (admissible dt c \<or> (\<exists>e. fst (update_adapter m cfg c v dt lat long a) = Inl (Invalid_argument e)) \<and>
       snd (update_adapter m cfg c v dt lat long a) \<in> {a, started v a})"
proof (cases "admissible dt c")
  case True
  from update_returns [OF assms this, of m v lat long a] True show ?thesis by auto
next
  case False
  from update_inadmissible [OF this, of m cfg v lat long a] False show ?thesis by auto
qed

text \<open>C27: an allowed longitudinal request is the scaled command clamped to the configured bounds, a finite
  number; without permission the acceleration is zero. Both hold whether or not lateral control is
  allowed.\<close>

theorem acceleration_bounded:
  assumes "make_adapter cfg = Inr a0" and "update_adapter m cfg c v dt lat long a = (Inr out, b)"
  shows "co_longitudinal_active out = long \<and> isfinite (co_acceleration_mps2 out) \<and>
    (if long then ac_accel_min_mps2 cfg \<le> co_acceleration_mps2 out \<and> co_acceleration_mps2 out \<le> ac_accel_max_mps2 cfg \<and>
       co_acceleration_mps2 out = cclamp (cs_acceleration_mps2 c * ac_acceleration_scale cfg + ac_acceleration_offset cfg)
         (ac_accel_min_mps2 cfg) (ac_accel_max_mps2 cfg)
     else co_acceleration_mps2 out = Fin 0 \<and> \<not> co_stopping out)"
proof -
  have adm: "admissible dt c"
    using update_inadmissible [of dt c m cfg v lat long a] assms(2) by (cases "admissible dt c") auto
  have accel: "co_acceleration_mps2 out = co_acceleration_mps2 (longitudinal_output cfg c v long)"
    "co_longitudinal_active out = long" "co_stopping out = co_stopping (longitudinal_output cfg c v long)"
  proof -
    have "fst (update_adapter m cfg c v dt lat long a) = Inr out" using assms(2) by simp
    then have "\<exists>t l q. out = (longitudinal_output cfg c v long)\<lparr>co_steering_torque := t, co_lateral_active := l,
        co_steering_request := q\<rparr>"
    proof (cases lat)
      case True
      with \<open>fst _ = Inr out\<close> obtain q where "(longitudinal_output cfg c v long)\<lparr>co_steering_torque := lateral_torque m cfg c v dt a,
          co_lateral_active := True, co_steering_request := q\<rparr> = out"
        by (auto simp: update_lateral(1) [OF adm] ebind_eq_Inr)
      then show ?thesis by blast
    next
      case False
      with \<open>fst _ = Inr out\<close> have "out = (longitudinal_output cfg c v long)\<lparr>co_steering_torque := 0, co_steering_request := False\<rparr>"
        by (simp add: update_paused [OF adm])
      then have "out = (longitudinal_output cfg c v long)\<lparr>co_steering_torque := 0, co_lateral_active := False,
          co_steering_request := False\<rparr>" by simp
      then show ?thesis by blast
    qed
    then show "co_acceleration_mps2 out = co_acceleration_mps2 (longitudinal_output cfg c v long)"
      "co_longitudinal_active out = long" "co_stopping out = co_stopping (longitudinal_output cfg c v long)" by auto
  qed
  have fin: "isfinite (ac_accel_min_mps2 cfg)" "isfinite (ac_accel_max_mps2 cfg)"
    "isfinite (ac_acceleration_scale cfg)" "isfinite (ac_acceleration_offset cfg)"
    using make_adapter_ok(8) [OF assms(1)] by (simp_all add: config_finite_def)
  obtain lo hi s o' q where f: "ac_accel_min_mps2 cfg = Fin lo" "ac_accel_max_mps2 cfg = Fin hi"
    "ac_acceleration_scale cfg = Fin s" "ac_acceleration_offset cfg = Fin o'" "cs_acceleration_mps2 c = Fin q"
    using fin adm by (auto simp: admissible_def dest!: finite_Fin)
  have lohi: "lo \<le> hi" using make_adapter_ok(12) [OF assms(1)] f by simp
  obtain w where w: "cclamp (cs_acceleration_mps2 c * ac_acceleration_scale cfg + ac_acceleration_offset cfg)
      (Fin lo) (Fin hi) = Fin w" "lo \<le> w" "w \<le> hi"
    using clamp_not_NaN [OF mult_add_not_NaN lohi] f by metis
  show ?thesis using accel f w by (cases long) (simp_all add: longitudinal_output_def empty_output_def Let_def)
qed

section \<open>Direct torque\<close>

text \<open>With multiplier zero the driver's torque has no effect, and with the full rates neither has the slew.\<close>

lemma no_driver_limit:
  assumes "0 \<le> ac_max_torque cfg" "ac_max_torque cfg \<le> 1021" and "\<bar>d\<bar> \<le> ac_max_torque cfg"
    and "ac_driver_torque_multiplier cfg = Fin 0"
  shows "apply_driver_torque_limits m cfg d x = d"
proof -
  let ?M = "of_int (ac_max_torque cfg) :: rat"
  have M: "of_integer (ac_max_torque cfg) = Fin ?M" using assms by simp
  have dd: "of_integer d = Fin (of_int d)" using assms by simp
  have rM: "rnd ?M = Fin ?M" "rnd (- ?M) = Fin (- ?M)"
    using assms rnd_of_int [of "ac_max_torque cfg"] rnd_of_int [of "- ac_max_torque cfg"] by simp_all
  have zero: "y * Fin 0 = Fin 0 \<or> y * Fin 0 = NaN" for y by (cases y) simp_all
  have up: "cmax (cmin (Fin ?M) (Fin ?M + y * Fin 0)) (Fin 0) = Fin ?M" for y
    using zero [of y] assms(1) rM by (auto simp: cmax_def cmin_def)
  have lo: "cmin (cmax (Fin (- ?M)) (Fin (- ?M) + y * Fin 0)) (Fin 0) = Fin (- ?M)" for y
    using zero [of y] assms(1) rM by (auto simp: cmax_def cmin_def)
  have le: "- ?M \<le> of_int d" "of_int d \<le> ?M" using assms(3) by (simp_all add: abs_le_iff)
  then have "cclamp (Fin (of_int d)) (Fin (- ?M)) (Fin ?M) = Fin (of_int d)" by (auto simp: cclamp_def)
  then have "apply_driver_torque_limits m cfg d x = to_int32 (lround m (Fin (of_int d)))"
    using M dd up lo assms(4) by (simp add: apply_driver_torque_limits_def Let_def del: lround.simps)
  also have "lround m (Fin (of_int d)) = d" using assms by (subst lround_small) simp_all
  finally show ?thesis using assms by (simp add: to_int32_id)
qed

lemma full_slew:
  assumes "ac_torque_rate_up cfg = 2042" "ac_torque_rate_down cfg = 2042" and "\<bar>lt\<bar> \<le> 1021" and "\<bar>d\<bar> \<le> 1021"
  shows "apply_torque_slew cfg lt d = d"
  using assms by (auto simp: apply_torque_slew_def slew_bounds_def cclamp_def)

text \<open>The lateral value of a direct-torque command, with no scaling.\<close>

definition passes_through :: "adapter_config \<Rightarrow> bool" where
  "passes_through cfg \<longleftrightarrow> ac_lateral_mode cfg = DirectTorque \<and> ac_lateral_scale cfg = Fin 1 \<and>
     ac_lateral_offset cfg = Fin 0 \<and> ac_driver_torque_multiplier cfg = Fin 0 \<and>
     ac_torque_rate_up cfg = 2042 \<and> ac_torque_rate_down cfg = 2042"

lemma direct_torque_value:
  assumes "passes_through cfg" and "ad_inv cfg a" and "cs_lateral c = Fin q" and "b64 (Fin q)"
    and "\<bar>round_half_away q\<bar> < 2 ^ 62"
  shows "lateral_torque m cfg c v dt a =
    cclamp (to_int32 (round_half_away q)) (- ac_max_torque cfg) (ac_max_torque cfg)"
proof -
  have lat: "Fin q * Fin 1 + Fin 0 = Fin q" using assms(4) by simp
  have lr: "lround m (Fin q) = round_half_away q" using assms(5) by (simp add: Let_def abs_less_iff)
  have c: "0 \<le> ac_max_torque cfg" "ac_max_torque cfg \<le> 1021"
    using assms(2) make_adapter_ok(2,3) [of cfg] by (auto simp: ad_inv_def is_Inr_iff)
  have st: "\<bar>ad_last_torque (started v a)\<bar> \<le> 1021"
    using ad_inv_started [OF assms(2), of v] c by (simp add: ad_inv_def)
  let ?d = "cclamp (to_int32 (round_half_away q)) (- ac_max_torque cfg) (ac_max_torque cfg)"
  have d: "\<bar>?d\<bar> \<le> ac_max_torque cfg" using c(1) by (simp add: cclamp_def abs_le_iff)
  have "fst (desired_torque m cfg c v (effective_dt cfg dt) (started v a)) = to_int32 (round_half_away q)"
    using assms(1,3) lat lr by (simp add: desired_torque_def passes_through_def Let_def)
  then have "lateral_torque m cfg c v dt a = limit_torque m cfg v (ad_last_torque (started v a)) (to_int32 (round_half_away q))"
    by (simp add: lateral_torque_def)
  also have "\<dots> = apply_torque_slew cfg (ad_last_torque (started v a)) ?d"
    using no_driver_limit [OF c d] assms(1) by (simp add: limit_torque_def passes_through_def)
  also have "\<dots> = ?d" using full_slew [OF _ _ st] assms(1) d c by (simp add: passes_through_def)
  finally show ?thesis .
qed

text \<open>In the pass-through configuration a direct-torque command reaches the wire unchanged up to
  saturation: for every 32-bit command the torque is the command, rounded to the nearest integer and
  clamped to the maximum.\<close>

theorem direct_torque_passes_through:
  assumes "passes_through cfg" and "reach (ad_init cfg) (ad_step m cfg) a" and "cs_lateral c = Fin q"
    and "b64 (Fin q)" and "\<bar>q\<bar> < 2147483647" and "update_adapter m cfg c v dt True long a = (Inr out, b)"
  shows "co_steering_torque out = cclamp (round_half_away q) (- ac_max_torque cfg) (ac_max_torque cfg)"
proof -
  have inv: "ad_inv cfg a" using assms(2) by (rule ad.reachable_inv)
  have adm: "admissible dt c"
    using update_inadmissible [of dt c m cfg v True long a] assms(6) by (cases "admissible dt c") auto
  have "fst (update_adapter m cfg c v dt True long a) = Inr out" using assms(6) by simp
  then have out: "co_steering_torque out = lateral_torque m cfg c v dt a"
    unfolding update_lateral(1) [OF adm] by (auto simp: ebind_eq_Inr)
  have r: "\<bar>round_half_away q\<bar> \<le> 2147483647"
    using round_half_away_bounds(1) [of q 2147483647] round_half_away_bounds(2) [of q "- 2147483647"] assms(5)
    by (cases "0 \<le> q") (auto simp: abs_less_iff)
  then have "to_int32 (round_half_away q) = round_half_away q" by (intro to_int32_id) simp_all
  with out direct_torque_value [OF assms(1) inv assms(3,4), of m v dt] r show ?thesis by simp
qed

text \<open>The saturation fails beyond 32 bits: the result of \<open>std::lround\<close> is narrowed to \<open>int\<close> before it is
  clamped. A direct-torque command of +3000000000 sends the largest torque in the opposite direction.\<close>

theorem direct_torque_wraps:
  assumes "passes_through cfg" and "reach (ad_init cfg) (ad_step m cfg) a" and "cs_lateral c = Fin 3000000000"
    and "update_adapter m cfg c v dt True long a = (Inr out, b)"
  shows "co_steering_torque out = - ac_max_torque cfg"
proof -
  have inv: "ad_inv cfg a" using assms(2) by (rule ad.reachable_inv)
  have adm: "admissible dt c"
    using update_inadmissible [of dt c m cfg v True long a] assms(4) by (cases "admissible dt c") auto
  have "fst (update_adapter m cfg c v dt True long a) = Inr out" using assms(4) by simp
  then have out: "co_steering_torque out = lateral_torque m cfg c v dt a"
    unfolding update_lateral(1) [OF adm] by (auto simp: ebind_eq_Inr)
  have b: "b64 (Fin 3000000000)" using rnd_of_int [of 3000000000] by simp
  have r: "round_half_away 3000000000 = 3000000000" using round_half_away_of_int [of 3000000000] by simp
  have c: "0 \<le> ac_max_torque cfg" "ac_max_torque cfg \<le> 1021"
    using inv make_adapter_ok(2,3) [of cfg] by (auto simp: ad_inv_def is_Inr_iff)
  have "to_int32 3000000000 = - 1294967296" by (simp add: to_int32_def)
  with out direct_torque_value [OF assms(1) inv assms(3) b, of m v dt] r c show ?thesis
    by (simp add: cclamp_def)
qed

text \<open>One frame of lateral control at an angle, as an input of a machine.\<close>

definition update_steering_request' :: "adapter_config \<Rightarrow> double \<Rightarrow> adapter \<Rightarrow> adapter \<times> (exn + bool)" where
  "update_steering_request' cfg x a = (case update_steering_request cfg True x a of (r, b) \<Rightarrow> (b, r))"

section \<open>The steering request cycle\<close>

lemma steering_request_run:
  assumes cfg: "unat (ac_steer_request_valid_frames cfg) < 2 ^ 31" "config_ranges cfg"
    and cut: "\<not> deq (ac_steer_request_cutoff_angle_deg cfg) (lit 0)"
    and h: "unat (ad_high_angle_frames a) = h mod (unat (ac_steer_request_valid_frames cfg) + unat (ac_steer_request_cut_frames cfg))"
    and angles: "list_all (\<lambda>x. \<not> dabs x < ac_steer_request_cutoff_angle_deg cfg) xs"
  shows "snd (run (update_steering_request' cfg) xs a) =
    map (\<lambda>k. Inr ((h + k) mod (unat (ac_steer_request_valid_frames cfg) + unat (ac_steer_request_cut_frames cfg))
      < unat (ac_steer_request_valid_frames cfg))) [0..<length xs]"
  using h angles
proof (induction xs arbitrary: a h)
  case (Cons x xs)
  have r: "\<not> 2 < ac_steer_request_cut_frames cfg" "\<not> ac_steer_request_valid_frames cfg < 89"
    using cfg(2) by (simp_all add: config_ranges_def)
  let ?c = "ac_steer_request_valid_frames cfg + ac_steer_request_cut_frames cfg"
  let ?n = "unat (ac_steer_request_valid_frames cfg) + unat (ac_steer_request_cut_frames cfg)"
  note d = steering_request_defined(1,2) [OF cfg(1) r]
  have n: "?n < 2 ^ 32 - 1" "0 < ?n"
  proof -
    have "unat (ac_steer_request_cut_frames cfg) \<le> 2" using r(1) by (simp add: word_less_nat_alt)
    with cfg(1) show "?n < 2 ^ 32 - 1" by simp
    show "0 < ?n" using r(2) by (simp add: word_less_nat_alt)
  qed
  have hn: "unat (ad_high_angle_frames a) < ?n" using Cons.prems(1) n(2) by simp
  have inc: "unat (ad_high_angle_frames a + 1) = unat (ad_high_angle_frames a) + 1"
    using hn n(1) by (intro unat_add_lem [THEN iffD1, THEN trans]) simp_all
  define b where "b = a\<lparr>ad_high_angle_frames := (ad_high_angle_frames a + 1) mod ?c\<rparr>"
  have b: "unat (ad_high_angle_frames b) = Suc h mod ?n"
    using inc d(1) Cons.prems(1) by (simp add: b_def unat_mod_distrib mod_Suc_eq)
  have pos: "ad_high_angle_frames a mod ?c < ac_steer_request_valid_frames cfg \<longleftrightarrow>
      h mod ?n < unat (ac_steer_request_valid_frames cfg)"
    using d(1) Cons.prems(1) by (simp add: word_less_nat_alt unat_mod_distrib)
  have step: "update_steering_request' cfg x a = (b, Inr (h mod ?n < unat (ac_steer_request_valid_frames cfg)))"
    using Cons.prems(2) cut d(2) pos
    by (simp add: update_steering_request'_def update_steering_request_def Let_def b_def)
  have "snd (run (update_steering_request' cfg) xs b) =
      map (\<lambda>k. Inr ((Suc h + k) mod ?n < unat (ac_steer_request_valid_frames cfg))) [0..<length xs]"
    using Cons.prems(2) by (intro Cons.IH b) simp
  then show ?case by (simp add: step case_prod_beta map_upt_Suc del: upt_Suc)
qed simp

text \<open>C29: at high steering angles the request is cut as the EPS demands. From the start of a high-angle
  phase, frame \<open>k\<close> carries the request exactly when \<open>k mod (valid + cut) < valid\<close>: out of every
  \<open>valid + cut\<close> frames in a row \<open>cut\<close> consecutive ones, one or two, are without request.\<close>

theorem steering_request_cycle:
  assumes "make_adapter cfg = Inr a0" and "unat (ac_steer_request_valid_frames cfg) < 2 ^ 31"
    and "\<not> deq (ac_steer_request_cutoff_angle_deg cfg) (lit 0)" and "ad_high_angle_frames a = 0"
    and "list_all (\<lambda>x. \<not> dabs x < ac_steer_request_cutoff_angle_deg cfg) xs"
  shows "unat (ac_steer_request_cut_frames cfg) \<in> {1, 2} \<and>
    snd (run (update_steering_request' cfg) xs a) =
      map (\<lambda>k. Inr (k mod (unat (ac_steer_request_valid_frames cfg) + unat (ac_steer_request_cut_frames cfg))
        < unat (ac_steer_request_valid_frames cfg))) [0..<length xs]"
proof -
  have r: "config_ranges cfg" using make_adapter_ok(9) [OF assms(1)] .
  then have "unat (ac_steer_request_cut_frames cfg) \<le> 2" "1 \<le> unat (ac_steer_request_cut_frames cfg)"
    by (simp_all add: config_ranges_def word_less_nat_alt)
  then have "unat (ac_steer_request_cut_frames cfg) \<in> {1, 2}" by auto
  with steering_request_run [OF assms(2) r assms(3) _ assms(5), of a 0] assms(4) show ?thesis by simp
qed

section \<open>Witnesses\<close>

definition sample_adapter_config :: adapter_config where
  "sample_adapter_config = default_adapter_config\<lparr>ac_lateral_mode := DirectTorque\<rparr>"

text \<open>The default literals as the doubles they denote.\<close>

lemma rnd_numeral: "numeral n \<le> (2 ^ 53 :: int) \<Longrightarrow> rnd (numeral n) = Fin (numeral n)"
  using rnd_of_int [of "numeral n"] by simp

lemma adapter_literals:
  "rnd (297 / 100) = Fin (6687845446645187 / 2251799813685248)"
  "rnd (713 / 50) = Fin (8027666335787909 / 562949953421312)"
  "rnd (1 / 10) = Fin (3602879701896397 / 36028797018963968)"
  "rnd (3172929 / 1000000) = Fin (893100116379565 / 281474976710656)"
  "rnd (96019 / 1000000) = Fin (3459449060963901 / 36028797018963968)"
  "rnd (3 / 10) = Fin (5404319552844595 / 18014398509481984)"
  "rnd (189 / 50) = Fin (8511803295730237 / 2251799813685248)"
  "rnd (- (1023 / 100)) = Fin (- (2879489011750011 / 281474976710656))"
  "rnd (256 / 25) = Fin (5764607523034235 / 562949953421312)"
  "rnd (127 / 10) = Fin (3574732204225331 / 281474976710656)"
  by (simp_all add: float_eval)

lemma make_sample_adapter: "make_adapter sample_adapter_config = Inr initial_adapter"
proof -
  have "config_finite sample_adapter_config"
    by (simp add: config_finite_def sample_adapter_config_def default_adapter_config_def adapter_literals rnd_numeral)
  moreover have "config_ranges sample_adapter_config"
    by (simp add: config_ranges_def sample_adapter_config_def default_adapter_config_def adapter_literals rnd_numeral)
  moreover have "low_speed_table_ok (ac_low_speed_factor_bp_mps sample_adapter_config)
      (ac_low_speed_factor_v sample_adapter_config) None"
    by (simp add: sample_adapter_config_def default_adapter_config_def rnd_numeral)
  ultimately show ?thesis
    by (simp add: make_adapter_def kMaxValidTorque_def kSccMinAccel_def kSccMaxAccel_def)
      (simp add: sample_adapter_config_def default_adapter_config_def adapter_literals)
qed

definition sample_lateral_command :: "rat \<Rightarrow> command_sample" where
  "sample_lateral_command q = empty_command\<lparr>cs_lateral := Fin q, cs_acceleration_mps2 := Fin (- 2)\<rparr>"

lemma sample_adapter:
  "passes_through sample_adapter_config" "ac_max_torque sample_adapter_config = 1021"
  "unat (ac_steer_request_valid_frames sample_adapter_config) < 2 ^ 31"
  "ac_steer_request_valid_frames sample_adapter_config = 89" "ac_steer_request_cut_frames sample_adapter_config = 2"
  "ac_steer_request_cutoff_angle_deg sample_adapter_config = Fin 85"
  by (simp_all add: passes_through_def sample_adapter_config_def default_adapter_config_def rnd_numeral)

lemma sample_reach: "reach (ad_init sample_adapter_config) (ad_step m sample_adapter_config) initial_adapter"
  by (rule reach_init) (simp add: ad_init_def make_sample_adapter)

lemma sample_update:
  "\<exists>out b. update_adapter m sample_adapter_config (sample_lateral_command q) initial_vehicle (Fin 1) lat long
     initial_adapter = (Inr out, b)"
proof -
  have "admissible (Fin 1) (sample_lateral_command q)"
    by (simp add: admissible_def sample_lateral_command_def)
  with update_returns [OF make_sample_adapter sample_adapter(3)]
  show ?thesis by (metis prod.collapse)
qed

definition sample_libm :: libm where
  "sample_libm = \<lparr>lm_tan = (\<lambda>x. x), lm_atan = (\<lambda>x. x), lm_lround_oor = (\<lambda>x. 0)\<rparr>"

abbreviation sample_run :: "rat \<Rightarrow> bool \<Rightarrow> bool \<Rightarrow> (exn + control_output) \<times> adapter" where
  "sample_run q lat long \<equiv> update_adapter sample_libm sample_adapter_config (sample_lateral_command q) initial_vehicle (Fin 1) lat long
    initial_adapter"

theorem steering_torque_bounded_witness:
  "\<exists>out b. sample_run 5000 True False = (Inr out, b) \<and> \<bar>co_steering_torque out\<bar> \<le> 1021"
proof -
  obtain out b where u: "sample_run 5000 True False = (Inr out, b)" using sample_update by blast
  from steering_torque_bounded [OF sample_reach u] u show ?thesis by auto
qed

theorem update_returns_iff_witness:
  "is_Inr (fst (sample_run 7 True True)) \<and>
   \<not> is_Inr (fst (update_adapter sample_libm sample_adapter_config (sample_lateral_command 7) initial_vehicle NaN True
      True initial_adapter))"
  using update_returns_iff [OF make_sample_adapter sample_adapter(3), of sample_libm "sample_lateral_command 7"
      initial_vehicle "Fin 1" True True initial_adapter]
    update_returns_iff [OF make_sample_adapter sample_adapter(3), of sample_libm "sample_lateral_command 7"
      initial_vehicle NaN True True initial_adapter]
  by (simp add: admissible_def sample_lateral_command_def)

theorem acceleration_bounded_witness:
  "\<exists>out b. sample_run 0 False True = (Inr out, b) \<and> co_acceleration_mps2 out = Fin (- 2)"
proof -
  obtain out b where u: "sample_run 0 False True = (Inr out, b)" using sample_update by blast
  have "rnd (- 2) = Fin (- 2)" using rnd_of_int [of "- 2"] by simp
  with acceleration_bounded [OF make_sample_adapter u] u show ?thesis
    by (simp add: sample_lateral_command_def)
      (simp add: sample_adapter_config_def default_adapter_config_def adapter_literals cclamp_def)
qed

theorem direct_torque_passes_through_witness:
  "\<exists>out b. sample_run (- 300) True False = (Inr out, b) \<and> co_steering_torque out = - 300"
proof -
  obtain out b where u: "sample_run (- 300) True False = (Inr out, b)" using sample_update by blast
  have r: "rnd (- 300) = Fin (- 300)" "round_half_away (- 300) = - 300"
    using rnd_of_int [of "- 300"] round_half_away_of_int [of "- 300"] by simp_all
  have "cs_lateral (sample_lateral_command (- 300)) = Fin (- 300)" by (simp add: sample_lateral_command_def)
  from direct_torque_passes_through [OF sample_adapter(1) sample_reach this _ _ u] u r sample_adapter(2)
  show ?thesis by (simp add: cclamp_def)
qed

theorem direct_torque_wraps_witness:
  "\<exists>out b. sample_run 3000000000 True False = (Inr out, b) \<and> co_steering_torque out = - 1021"
proof -
  obtain out b where u: "sample_run 3000000000 True False = (Inr out, b)" using sample_update by blast
  have "cs_lateral (sample_lateral_command 3000000000) = Fin 3000000000" by (simp add: sample_lateral_command_def)
  from direct_torque_wraps [OF sample_adapter(1) sample_reach this u] u sample_adapter(2) show ?thesis by simp
qed

theorem steering_request_cycle_witness:
  "snd (run (update_steering_request' sample_adapter_config) (replicate 92 (Fin 90)) initial_adapter) ! 88 = Inr True \<and>
   snd (run (update_steering_request' sample_adapter_config) (replicate 92 (Fin 90)) initial_adapter) ! 89 = Inr False \<and>
   snd (run (update_steering_request' sample_adapter_config) (replicate 92 (Fin 90)) initial_adapter) ! 91 = Inr True"
proof -
  have "\<not> deq (ac_steer_request_cutoff_angle_deg sample_adapter_config) (lit 0)"
    "ad_high_angle_frames initial_adapter = 0"
    "list_all (\<lambda>x. \<not> dabs x < ac_steer_request_cutoff_angle_deg sample_adapter_config) (replicate 92 (Fin 90))"
    by (simp_all add: sample_adapter initial_adapter_def list_all_iff)
  from steering_request_cycle [OF make_sample_adapter sample_adapter(3) this]
  show ?thesis by (simp add: sample_adapter del: upt_Suc)
qed

end
