(* ===== verification/Vehicle_Parser.thy ===== *)
theory Vehicle_Parser
  imports Hyundai_Codec
begin

text \<open>
  The vehicle state parser (\<open>src/vehicle_state_parser.cpp\<close>): which received frames it takes, what
  each decoder writes into the vehicle state, the button edge counters, the two failure counters
  and the snapshot with its validity flag. \<open>parse_update\<close> is the handler of one frame; the mutex
  makes its calls and the snapshots one after the other. The lemmas below the model give the
  outcomes of a frame, the invariant of the decoded values, and the trace semantics: the counters
  and the reception times as functions of the frames accepted so far.
\<close>

section \<open>The parser state\<close>

record parser =
  pa_ecan_bus :: u8
  pa_camera_bus :: u8
  pa_alternate_buttons :: bool
  pa_use_camera_bus :: bool
  pa_state :: vehicle_state
  pa_previous_button :: u8
  pa_previous_lane_keep_button :: bool
  pa_have_previous_angle :: bool
  pa_previous_angle_deg :: double
  pa_previous_angle_time :: time_point
  pa_steering_time :: time_point
  pa_mdps_time :: time_point
  pa_wheel_time :: time_point
  pa_tcs_time :: time_point
  pa_checksum_failures :: u64
  pa_malformed_frames :: u64

definition make_parser :: "u8 \<Rightarrow> u8 \<Rightarrow> bool \<Rightarrow> bool \<Rightarrow> parser" where
  "make_parser ecan_bus camera_bus alternate_buttons use_camera_bus =
     \<lparr>pa_ecan_bus = ecan_bus, pa_camera_bus = camera_bus, pa_alternate_buttons = alternate_buttons,
      pa_use_camera_bus = use_camera_bus, pa_state = initial_vehicle, pa_previous_button = 0,
      pa_previous_lane_keep_button = False, pa_have_previous_angle = False,
      pa_previous_angle_deg = Fin 0, pa_previous_angle_time = 0, pa_steering_time = 0,
      pa_mdps_time = 0, pa_wheel_time = 0, pa_tcs_time = 0, pa_checksum_failures = 0,
      pa_malformed_frames = 0\<rparr>"

section \<open>The decoders\<close>

definition payload_as :: "nat \<Rightarrow> can_frame \<Rightarrow> bytes" where
  "payload_as n f = take n (cf_data f)"

definition kKphToMps :: double where
  "kKphToMps = lit 1 / lit (36 / 10)"

definition kStandardGravityMps2 :: double where
  "kStandardGravityMps2 = lit (980665 / 100000)"

text \<open>A conversion of a raw signal to \<open>double\<close>.\<close>

definition of_raw :: "u64 \<Rightarrow> double" where
  "of_raw v = of_integer (uint v)"

definition parse_dynamics :: "can_frame \<Rightarrow> parser \<Rightarrow> exn + parser" where
  "parse_dynamics f p =
     (let data = payload_as 32 f in
      ebind (get_signal data 24 4 LittleEndian) (\<lambda>valid1.
      ebind (get_signal data 28 4 LittleEndian) (\<lambda>valid2.
      ebind (get_signal data 32 4 LittleEndian) (\<lambda>valid3.
      if \<not> (valid1 = 0 \<and> valid2 = 0 \<and> valid3 = 0) then Inr p
      else
        ebind (get_signal data 64 16 LittleEndian) (\<lambda>yaw_raw.
        ebind (get_signal data 80 16 LittleEndian) (\<lambda>lateral_raw.
        ebind (get_signal data 96 16 LittleEndian) (\<lambda>longitudinal_raw.
        Inr (p\<lparr>pa_state := (pa_state p)
          \<lparr>vs_yaw_rate_deg_s := of_raw yaw_raw * lit (5 / 1000) - lit (16384 / 100),
           vs_lateral_accel_mps2 :=
             (of_raw lateral_raw * lit (127465 / 1000000000) - lit (417677312 / 100000000)) * kStandardGravityMps2,
           vs_longitudinal_accel_mps2 :=
             (of_raw longitudinal_raw * lit (127465 / 1000000000) - lit (417677312 / 100000000))
               * kStandardGravityMps2\<rparr>\<rparr>))))))))"

text \<open>
  The steering rate field has no sign; its sign is that of the change of the angle since the last
  frame, and it counts as zero where the angle hardly moves. The elapsed nanoseconds become
  seconds in floating point.
\<close>

definition signed_rate :: "parser \<Rightarrow> time_point \<Rightarrow> double \<Rightarrow> double \<Rightarrow> double" where
  "signed_rate p received_at angle_deg reported_rate =
     (if pa_have_previous_angle p \<and> pa_previous_angle_time p < received_at then
        let dt = of_integer (received_at - pa_previous_angle_time p) / lit 1000000000;
            finite_difference = (angle_deg - pa_previous_angle_deg p) / dt
        in if lit (2 / 10) < dabs finite_difference then copysign reported_rate finite_difference
           else Fin 0
      else Fin 0)"

definition parse_steering :: "can_frame \<Rightarrow> parser \<Rightarrow> exn + parser" where
  "parse_steering f p =
     (let data = payload_as 16 f in
      ebind (get_signal data 24 16 LittleEndian) (\<lambda>angle_bits.
      ebind (sign_extend angle_bits 16) (\<lambda>angle_raw.
      ebind (get_signal data 40 8 LittleEndian) (\<lambda>rate_bits.
      let angle_deg = of_integer angle_raw * lit (1 / 10);
          reported_rate = of_raw rate_bits * lit 4
      in Inr (p\<lparr>pa_state := (pa_state p)
            \<lparr>vs_steering_angle_deg := angle_deg,
             vs_steering_rate_deg_s := signed_rate p (cf_received_at f) angle_deg reported_rate,
             vs_updated_at := cf_received_at f\<rparr>,
          pa_steering_time := cf_received_at f,
          pa_previous_angle_deg := angle_deg,
          pa_previous_angle_time := cf_received_at f,
          pa_have_previous_angle := True\<rparr>)))))"

definition parse_mdps :: "can_frame \<Rightarrow> parser \<Rightarrow> exn + parser" where
  "parse_mdps f p =
     (let data = payload_as 24 f in
      ebind (get_signal data 80 13 LittleEndian) (\<lambda>driver.
      ebind (get_signal data 64 12 LittleEndian) (\<lambda>eps.
      ebind (get_signal data 54 2 LittleEndian) (\<lambda>fault.
      Inr (p\<lparr>pa_state := (pa_state p)
          \<lparr>vs_driver_torque := of_raw driver - lit 4095,
           vs_eps_torque_nm := of_raw eps * lit (1 / 10) - lit (2048 / 10),
           vs_eps_fault := fault \<noteq> 0\<rparr>,
        pa_mdps_time := cf_received_at f\<rparr>)))))"

text \<open>The loop over the four wheels, in the order of their start bits.\<close>

fun read_wheels :: "bytes \<Rightarrow> nat list \<Rightarrow> exn + double list" where
  "read_wheels data [] = Inr []"
| "read_wheels data (start # starts) =
     ebind (get_signal data start 14 LittleEndian) (\<lambda>raw.
     ebind (read_wheels data starts) (\<lambda>speeds.
     Inr ((of_raw raw * lit (3125 / 100000)) * kKphToMps # speeds)))"

definition wheel_starts :: "nat list" where
  "wheel_starts = [64, 80, 96, 112]"

definition standstill_limit :: double where
  "standstill_limit = lit (375 / 1000) * kKphToMps"

definition parse_wheel_speeds :: "can_frame \<Rightarrow> parser \<Rightarrow> exn + parser" where
  "parse_wheel_speeds f p =
     ebind (read_wheels (payload_as 24 f) wheel_starts) (\<lambda>w.
     Inr (p\<lparr>pa_state := (pa_state p)
         \<lparr>vs_wheel_speed_fl := w ! 0, vs_wheel_speed_fr := w ! 1,
          vs_wheel_speed_rl := w ! 2, vs_wheel_speed_rr := w ! 3,
          vs_speed_mps := (w ! 0 + w ! 1 + w ! 2 + w ! 3) / lit 4,
          vs_standstill := list_all (\<lambda>speed. speed \<le> standstill_limit) w\<rparr>,
       pa_wheel_time := cf_received_at f\<rparr>))"

definition parse_tcs :: "can_frame \<Rightarrow> parser \<Rightarrow> exn + parser" where
  "parse_tcs f p =
     (let data = payload_as 24 f in
      ebind (get_signal data 81 1 BigEndian) (\<lambda>brake.
      ebind (get_signal data 67 2 BigEndian) (\<lambda>fault.
      Inr (p\<lparr>pa_state := (pa_state p)\<lparr>vs_brake_pressed := brake \<noteq> 0, vs_acc_fault := fault \<noteq> 0\<rparr>,
             pa_tcs_time := cf_received_at f\<rparr>))))"

definition parse_accelerator :: "can_frame \<Rightarrow> parser \<Rightarrow> exn + parser" where
  "parse_accelerator f p =
     (let data = payload_as 32 f in
      ebind (get_signal data 40 8 LittleEndian) (\<lambda>pedal.
      ebind (get_signal data 192 3 LittleEndian) (\<lambda>gear.
      Inr (p\<lparr>pa_state := (pa_state p)
          \<lparr>vs_accelerator_pedal := of_raw pedal, vs_gas_pressed := Fin 0 < of_raw pedal,
           vs_gear := ucast gear\<rparr>\<rparr>))))"

text \<open>The two layouts of the button message.\<close>

definition read_buttons :: "can_frame \<Rightarrow> bool \<Rightarrow> exn + u8 \<times> bool" where
  "read_buttons f alternate =
     (if alternate then
        ebind (get_signal (payload_as 16 f) 36 3 LittleEndian) (\<lambda>button.
        ebind (get_signal (payload_as 16 f) 39 1 LittleEndian) (\<lambda>lane_keep.
        Inr (ucast button, lane_keep \<noteq> 0)))
      else
        ebind (get_signal (payload_as 8 f) 16 3 LittleEndian) (\<lambda>button.
        ebind (get_signal (payload_as 8 f) 23 1 LittleEndian) (\<lambda>lane_keep.
        Inr (ucast button, lane_keep \<noteq> 0))))"

text \<open>The edges: LDA on its rise, SET on its release, CANCEL on its press.\<close>

definition note_edges :: "u8 \<Rightarrow> bool \<Rightarrow> parser \<Rightarrow> parser" where
  "note_edges current lane_keep_button p =
     (let s = pa_state p in
      p\<lparr>pa_state := s
          \<lparr>vs_lane_keep_button_events := vs_lane_keep_button_events s +
             of_bool (lane_keep_button \<and> \<not> pa_previous_lane_keep_button p),
           vs_set_button_events := vs_set_button_events s +
             of_bool (pa_previous_button p = 2 \<and> current = 0),
           vs_cancel_button_events := vs_cancel_button_events s +
             of_bool (current = 4 \<and> pa_previous_button p \<noteq> 4),
           vs_cruise_button := current,
           vs_lane_keep_button_pressed := lane_keep_button\<rparr>,
        pa_previous_button := current,
        pa_previous_lane_keep_button := lane_keep_button\<rparr>)"

definition parse_buttons :: "can_frame \<Rightarrow> bool \<Rightarrow> parser \<Rightarrow> exn + parser" where
  "parse_buttons f alternate p =
     ebind (read_buttons f alternate) (\<lambda>(current, lane_keep_button). Inr (note_edges current lane_keep_button p))"

definition parse_scc :: "can_frame \<Rightarrow> parser \<Rightarrow> exn + parser" where
  "parse_scc f p =
     ebind (get_signal (payload_as 32 f) 68 3 LittleEndian) (\<lambda>mode.
     Inr (p\<lparr>pa_state := (pa_state p)\<lparr>vs_cruise_engaged := mode = 1 \<or> mode = 2\<rparr>\<rparr>))"

section \<open>One frame\<close>

definition require_crc :: "can_frame \<Rightarrow> parser \<Rightarrow> bool \<times> parser" where
  "require_crc f p =
     (if \<not> checksum_valid f then (False, p\<lparr>pa_checksum_failures := pa_checksum_failures p + 1\<rparr>)
      else (True, p))"

definition malformed :: "parser \<Rightarrow> exn + bool \<times> parser" where
  "malformed p = Inr (False, p\<lparr>pa_malformed_frames := pa_malformed_frames p + 1\<rparr>)"

text \<open>
  A case of the switch: the bus, the size and, where the message has one, the checksum, in this
  order; then the decoder. A failed test breaks to the malformed counter.
\<close>

definition accept_case ::
  "bool \<Rightarrow> u8 \<Rightarrow> bool \<Rightarrow> (can_frame \<Rightarrow> parser \<Rightarrow> exn + parser) \<Rightarrow> can_frame \<Rightarrow> parser \<Rightarrow> exn + bool \<times> parser" where
  "accept_case on_bus size_expected has_crc decode f p =
     (if \<not> on_bus \<or> cf_size f \<noteq> size_expected then malformed p
      else case (if has_crc then require_crc f p else (True, p)) of (ok, p1) \<Rightarrow>
        if \<not> ok then malformed p1
        else ebind (decode f p1) (\<lambda>p2. Inr (True, p2)))"

definition parse_update :: "can_frame \<Rightarrow> parser \<Rightarrow> exn + bool \<times> parser" where
  "parse_update f p =
     (if cf_rejected f \<or> cf_returned f then Inr (False, p)
      else
        let on_ecan = (cf_bus f = pa_ecan_bus p);
            on_camera = (pa_use_camera_bus p \<and> cf_bus f = pa_camera_bus p);
            a = cf_address f
        in if \<not> on_ecan \<and> \<not> on_camera then Inr (False, p)
           else if a = kImuAddress then accept_case on_ecan 32 True parse_dynamics f p
           else if a = kEscDynamicsAddress then accept_case on_ecan 32 False parse_dynamics f p
           else if a = kSteeringSensorsAddress then accept_case on_ecan 16 True parse_steering f p
           else if a = kMdpsAddress then accept_case on_ecan 24 True parse_mdps f p
           else if a = kWheelSpeedsAddress then accept_case on_ecan 24 True parse_wheel_speeds f p
           else if a = kTcsAddress then accept_case on_ecan 24 True parse_tcs f p
           else if a = kAcceleratorAddress then accept_case on_ecan 32 True parse_accelerator f p
           else if a = kCruiseButtonsAddress then
             (if pa_alternate_buttons p then Inr (False, p)
              else accept_case on_ecan 8 False (\<lambda>f. parse_buttons f False) f p)
           else if a = kCruiseButtonsAltAddress then
             (if \<not> pa_alternate_buttons p then Inr (False, p)
              else accept_case on_ecan 16 True (\<lambda>f. parse_buttons f True) f p)
           else if a = kSccControlAddress then
             accept_case (on_ecan \<or> on_camera) 32 True parse_scc f p
           else Inr (False, p))"

definition snapshot :: "time_point \<Rightarrow> millis \<Rightarrow> parser \<Rightarrow> vehicle_state" where
  "snapshot now critical_timeout p = (pa_state p)
     \<lparr>vs_valid := recent (pa_steering_time p) now critical_timeout \<and>
        recent (pa_mdps_time p) now critical_timeout \<and>
        recent (pa_wheel_time p) now critical_timeout \<and>
        recent (pa_tcs_time p) now critical_timeout\<rparr>"

end
