(* ===== verification/Parser_Properties.thy ===== *)
theory Parser_Properties
  imports Vehicle_Parser
begin

text \<open>
  What the vehicle state parser guarantees: every frame is handled without an exception, the
  decoded values stay in the ranges of their signals, the button counters count edges of the
  accepted button frames, the snapshot is valid exactly while the four critical messages arrive,
  and a corrupted frame changes nothing but the counters.
\<close>

section \<open>Reading a signal\<close>

definition signal :: "bytes \<Rightarrow> nat \<Rightarrow> nat \<Rightarrow> byte_order \<Rightarrow> u64" where
  "signal d s n ord = (case get_signal d s n ord of Inr v \<Rightarrow> v | Inl _ \<Rightarrow> 0)"

lemma signal_reads:
  assumes "signal_fits ord s n (length d)"
  shows "get_signal d s n ord = Inr (signal d s n ord)"
proof -
  obtain w where "get_signal d s n ord = Inr w" using get_signal_bits [OF assms] by blast
  then show ?thesis by (simp add: signal_def)
qed

lemma signal_range:
  assumes "signal_fits ord s n (length d)" and "n < 64"
  shows "0 \<le> uint (signal d s n ord)" and "uint (signal d s n ord) < 2 ^ n"
proof -
  obtain w where w: "get_signal d s n ord = Inr w" "\<forall>k. bit w k \<longrightarrow> k < n"
    using get_signal_bits [OF assms(1)] by blast
  have "take_bit n (uint w) = uint w"
    by (rule bit_eqI) (use w(2) in \<open>auto simp: bit_simps bit_uint_iff\<close>)
  then have "uint w < 2 ^ n" by (simp add: take_bit_int_eq_self_iff)
  with w(1) show "uint (signal d s n ord) < 2 ^ n" by (simp add: signal_def)
qed simp

lemma payload_as_length [simp]: "wf_frame f \<Longrightarrow> n \<le> 64 \<Longrightarrow> length (payload_as n f) = n"
  by (simp add: payload_as_def wf_frame_def)

section \<open>Values within integer bounds\<close>

definition inrange :: "int \<Rightarrow> int \<Rightarrow> double \<Rightarrow> bool" where
  "inrange lo hi x \<longleftrightarrow> (\<exists>q. x = Fin q \<and> of_int lo \<le> q \<and> q \<le> of_int hi)"

lemma inrange_finite: "inrange lo hi x \<Longrightarrow> isfinite x"
  by (auto simp: inrange_def)

lemma inrange_mono: "inrange lo hi x \<Longrightarrow> lo' \<le> lo \<Longrightarrow> hi \<le> hi' \<Longrightarrow> inrange lo' hi' x"
  unfolding inrange_def of_int_le_iff [where 'a = rat, symmetric] by (blast intro: order_trans)

lemma inrange_rnd:
  assumes "of_int lo \<le> q" "q \<le> of_int hi" and "\<bar>lo\<bar> \<le> 2 ^ 53" "\<bar>hi\<bar> \<le> 2 ^ 53"
  shows "inrange lo hi (rnd q)"
proof -
  have "rval (of_int lo) \<le> rval q" "rval q \<le> rval (of_int hi)" using assms(1,2) by (auto intro: rval_mono)
  then have b: "of_int lo \<le> rval q" "rval q \<le> of_int hi" using assms(3,4) by (simp_all add: rval_of_int)
  have "\<bar>q\<bar> \<le> of_int (2 ^ 53)"
  proof -
    have "of_int lo \<le> (of_int (2 ^ 53) :: rat)" "of_int hi \<le> (of_int (2 ^ 53) :: rat)"
      "of_int (- (2 ^ 53)) \<le> (of_int lo :: rat)" "of_int (- (2 ^ 53)) \<le> (of_int hi :: rat)"
      using assms(3,4) unfolding of_int_le_iff by linarith+
    with assms(1,2) show ?thesis by simp
  qed
  then have "rnd q = Fin (rval q)" using rnd_bounded(1) [of q 53] by simp
  with b show ?thesis by (simp add: inrange_def)
qed

lemma inrange_times:
  assumes "inrange lo hi x" and "y = Fin c" and "0 \<le> c"
    and "of_int lo' \<le> of_int lo * c" "of_int hi * c \<le> of_int hi'" and "\<bar>lo'\<bar> \<le> 2 ^ 53" "\<bar>hi'\<bar> \<le> 2 ^ 53"
  shows "inrange lo' hi' (x * y)"
proof -
  obtain q where q: "x = Fin q" "of_int lo \<le> q" "q \<le> of_int hi" using assms(1) by (auto simp: inrange_def)
  have "of_int lo * c \<le> q * c" "q * c \<le> of_int hi * c" using q assms(3) by (simp_all add: mult_right_mono)
  then have "of_int lo' \<le> q * c" "q * c \<le> of_int hi'" using assms(4,5) by linarith+
  from inrange_rnd [OF this assms(6,7)] show ?thesis using q(1) assms(2) by simp
qed

lemma inrange_minus:
  assumes "inrange lo hi x" and "y = Fin c" and "of_int lo' \<le> of_int lo - c" "of_int hi - c \<le> of_int hi'"
    and "\<bar>lo'\<bar> \<le> 2 ^ 53" "\<bar>hi'\<bar> \<le> 2 ^ 53"
  shows "inrange lo' hi' (x - y)"
proof -
  obtain q where q: "x = Fin q" "of_int lo \<le> q" "q \<le> of_int hi" using assms(1) by (auto simp: inrange_def)
  have "of_int lo' \<le> q + - c" "q + - c \<le> of_int hi'" using q assms(3,4) by linarith+
  from inrange_rnd [OF this assms(5,6)] show ?thesis using q(1) assms(2) by (simp add: minus_double_def)
qed

lemma inrange_plus:
  assumes "inrange lo hi x" and "inrange lo' hi' y" and "\<bar>lo + lo'\<bar> \<le> 2 ^ 53" "\<bar>hi + hi'\<bar> \<le> 2 ^ 53"
  shows "inrange (lo + lo') (hi + hi') (x + y)"
proof -
  obtain q r where q: "x = Fin q" "of_int lo \<le> q" "q \<le> of_int hi" "y = Fin r" "of_int lo' \<le> r" "r \<le> of_int hi'"
    using assms(1,2) by (auto simp: inrange_def)
  then have "of_int (lo + lo') \<le> q + r" "q + r \<le> of_int (hi + hi')" by simp_all
  from inrange_rnd [OF this assms(3,4)] show ?thesis using q by simp
qed

lemma inrange_of_integer: "lo \<le> i \<Longrightarrow> i \<le> hi \<Longrightarrow> \<bar>lo\<bar> \<le> 2 ^ 53 \<Longrightarrow> \<bar>hi\<bar> \<le> 2 ^ 53 \<Longrightarrow> inrange lo hi (of_integer i)"
  unfolding of_integer_def by (rule inrange_rnd) simp_all

lemma inrange_of_raw:
  assumes "signal_fits ord s n (length d)" and "n \<le> 53"
  shows "inrange 0 (2 ^ n - 1) (of_raw (signal d s n ord))"
proof -
  have "(2::int) ^ n \<le> 2 ^ 53" using assms(2) by (intro power_increasing) simp_all
  then show ?thesis unfolding of_raw_def
    using signal_range [OF assms(1)] assms(2) by (intro inrange_of_integer) simp_all
qed

lemma inrange_copysign: "inrange 0 hi x \<Longrightarrow> inrange (- hi) hi (copysign x y)"
  by (auto simp: inrange_def copysign_def)

section \<open>The values of the decoders\<close>

lemmas parser_defs =
  parse_dynamics_def parse_steering_def parse_mdps_def parse_tcs_def parse_accelerator_def parse_scc_def
  Let_def signal_reads

definition vehicle_ok :: "vehicle_state \<Rightarrow> bool" where
  "vehicle_ok s \<longleftrightarrow>
     inrange 0 143 (vs_speed_mps s) \<and> inrange (- 164) 165 (vs_yaw_rate_deg_s s) \<and>
     inrange (- 50) 50 (vs_lateral_accel_mps2 s) \<and> inrange (- 50) 50 (vs_longitudinal_accel_mps2 s) \<and>
     list_all (inrange 0 143) [vs_wheel_speed_fl s, vs_wheel_speed_fr s, vs_wheel_speed_rl s, vs_wheel_speed_rr s] \<and>
     inrange (- 3277) 3277 (vs_steering_angle_deg s) \<and> inrange (- 1020) 1020 (vs_steering_rate_deg_s s) \<and>
     inrange (- 4095) 4096 (vs_driver_torque s) \<and> inrange (- 205) 206 (vs_eps_torque_nm s) \<and>
     inrange 0 255 (vs_accelerator_pedal s) \<and> (vs_gas_pressed s \<longleftrightarrow> Fin 0 < vs_accelerator_pedal s) \<and>
     vs_gear s < 8 \<and> vs_cruise_button s < 8 \<and>
     (vs_standstill s \<longleftrightarrow> list_all (\<lambda>w. w \<le> standstill_limit)
       [vs_wheel_speed_fl s, vs_wheel_speed_fr s, vs_wheel_speed_rl s, vs_wheel_speed_rr s])"

lemma literal_values:
  "lit (5 / 1000) = Fin (5764607523034235 / 1152921504606846976)"
  "lit (16384 / 100) = Fin (5764607523034235 / 35184372088832)"
  "lit (127465 / 1000000000) = Fin (587828558338847 / 4611686018427387904)"
  "lit (417677312 / 100000000) = Fin (587828558338847 / 140737488355328)"
  "lit (1 / 10) = Fin (3602879701896397 / 36028797018963968)"
  "lit (2048 / 10) = Fin (3602879701896397 / 17592186044416)"
  "lit (3125 / 100000) = Fin (1 / 32)" "lit 4095 = Fin 4095" "lit 4 = Fin 4"
  "kKphToMps = Fin (2501999792983609 / 9007199254740992)"
  "kStandardGravityMps2 = Fin (5520653160719109 / 562949953421312)"
  "standstill_limit = Fin (7505999378950827 / 72057594037927936)"
  by (simp_all add: kKphToMps_def kStandardGravityMps2_def standstill_limit_def float_eval)

lemma yaw_range: "signal_fits ord s 16 (length d) \<Longrightarrow>
    inrange (- 164) 165 (of_raw (signal d s 16 ord) * lit (5 / 1000) - lit (16384 / 100))"
  by (rule inrange_minus [OF inrange_times [OF inrange_of_raw literal_values(1), where lo' = 0 and hi' = 328]
        literal_values(2)]) simp_all

lemma accel_range: "signal_fits ord s 16 (length d) \<Longrightarrow>
    inrange (- 50) 50 ((of_raw (signal d s 16 ord) * lit (127465 / 1000000000) - lit (417677312 / 100000000))
      * kStandardGravityMps2)"
  by (rule inrange_times [OF inrange_minus [OF inrange_times [OF inrange_of_raw literal_values(3),
        where lo' = 0 and hi' = 9] literal_values(4), where lo' = "- 5" and hi' = 5] literal_values(11)]) simp_all

lemma driver_range: "signal_fits ord s 13 (length d) \<Longrightarrow>
    inrange (- 4095) 4096 (of_raw (signal d s 13 ord) - lit 4095)"
  by (rule inrange_minus [OF inrange_of_raw literal_values(8)]) simp_all

lemma eps_range: "signal_fits ord s 12 (length d) \<Longrightarrow>
    inrange (- 205) 206 (of_raw (signal d s 12 ord) * lit (1 / 10) - lit (2048 / 10))"
  by (rule inrange_minus [OF inrange_times [OF inrange_of_raw literal_values(5), where lo' = 0 and hi' = 410]
        literal_values(6)]) simp_all

lemma wheel_range: "signal_fits ord s 14 (length d) \<Longrightarrow>
    inrange 0 143 ((of_raw (signal d s 14 ord) * lit (3125 / 100000)) * kKphToMps)"
  by (rule inrange_times [OF inrange_times [OF inrange_of_raw literal_values(7), where lo' = 0 and hi' = 512]
        literal_values(10)]) simp_all

lemma inrange_quarter: "inrange 0 572 x \<Longrightarrow> inrange 0 143 (x / lit 4)"
  unfolding literal_values(9) by (cases x) (auto simp: inrange_def [of 0 572] intro!: inrange_rnd)

lemma mean_range:
  assumes "inrange 0 143 a" "inrange 0 143 b" "inrange 0 143 c" "inrange 0 143 d"
  shows "inrange 0 143 ((a + b + c + d) / lit 4)"
  using inrange_plus [OF inrange_plus [OF inrange_plus [OF assms(1,2)] assms(3)] assms(4)]
  by (intro inrange_quarter) simp

lemma angle_range:
  assumes "- 32768 \<le> i" "i < 32768"
  shows "inrange (- 3277) 3277 (of_integer i * lit (1 / 10))"
  by (rule inrange_times [OF inrange_of_integer literal_values(5), where lo = "- 32768" and hi = 32767])
    (use assms in simp_all)

lemma rate_range: "signal_fits ord s 8 (length d) \<Longrightarrow> inrange 0 1020 (of_raw (signal d s 8 ord) * lit 4)"
  by (rule inrange_times [OF inrange_of_raw literal_values(9)]) simp_all

lemma signed_rate_range: "inrange 0 1020 r \<Longrightarrow> inrange (- 1020) 1020 (signed_rate p t a r)"
  by (auto simp: signed_rate_def Let_def intro: inrange_copysign) (simp_all add: inrange_def)

lemma pedal_range: "signal_fits ord s 8 (length d) \<Longrightarrow> inrange 0 255 (of_raw (signal d s 8 ord))"
  by (rule inrange_mono [OF inrange_of_raw]) simp_all

lemma three_bits: "signal_fits ord s 3 (length d) \<Longrightarrow> (ucast (signal d s 3 ord) :: u8) < 8"
  using signal_range [of ord s 3 d] by (simp add: word_less_def unsigned_ucast_eq take_bit_int_eq_self)

lemmas ranges =
  yaw_range [simplified] accel_range [simplified] driver_range [simplified] eps_range [simplified]
  wheel_range [simplified] mean_range [simplified] angle_range [simplified] rate_range [simplified]
  signed_rate_range pedal_range three_bits

section \<open>Which frame is which message\<close>

datatype message = Dynamics | Steering | Mdps | Wheels | Tcs | Accelerator | Buttons bool | Scc

fun decode :: "message \<Rightarrow> can_frame \<Rightarrow> parser \<Rightarrow> exn + parser" where
  "decode Dynamics = parse_dynamics"
| "decode Steering = parse_steering"
| "decode Mdps = parse_mdps"
| "decode Wheels = parse_wheel_speeds"
| "decode Tcs = parse_tcs"
| "decode Accelerator = parse_accelerator"
| "decode (Buttons alternate) = (\<lambda>f. parse_buttons f alternate)"
| "decode Scc = parse_scc"

text \<open>The message of an address with its size and whether it has a checksum.\<close>

definition message_of :: "bool \<Rightarrow> u32 \<Rightarrow> (message \<times> u8 \<times> bool) option" where
  "message_of alternate a =
     (if a = kImuAddress then Some (Dynamics, 32, True)
      else if a = kEscDynamicsAddress then Some (Dynamics, 32, False)
      else if a = kSteeringSensorsAddress then Some (Steering, 16, True)
      else if a = kMdpsAddress then Some (Mdps, 24, True)
      else if a = kWheelSpeedsAddress then Some (Wheels, 24, True)
      else if a = kTcsAddress then Some (Tcs, 24, True)
      else if a = kAcceleratorAddress then Some (Accelerator, 32, True)
      else if a = kCruiseButtonsAddress then (if alternate then None else Some (Buttons False, 8, False))
      else if a = kCruiseButtonsAltAddress then (if alternate then Some (Buttons True, 16, True) else None)
      else if a = kSccControlAddress then Some (Scc, 32, True)
      else None)"

definition from_bus :: "parser \<Rightarrow> message \<Rightarrow> can_frame \<Rightarrow> bool" where
  "from_bus p m f \<longleftrightarrow> cf_bus f = pa_ecan_bus p \<or> m = Scc \<and> pa_use_camera_bus p \<and> cf_bus f = pa_camera_bus p"

definition accepted :: "parser \<Rightarrow> can_frame \<Rightarrow> message option" where
  "accepted p f =
     (if cf_rejected f \<or> cf_returned f then None
      else case message_of (pa_alternate_buttons p) (cf_address f) of None \<Rightarrow> None
        | Some (m, sz, crc) \<Rightarrow>
            if from_bus p m f \<and> cf_size f = sz \<and> (crc \<longrightarrow> checksum_valid f) then Some m else None)"

definition count_failures :: "u64 \<Rightarrow> u64 \<Rightarrow> parser \<Rightarrow> parser" where
  "count_failures k l p = p\<lparr>pa_checksum_failures := pa_checksum_failures p + k,
     pa_malformed_frames := pa_malformed_frames p + l\<rparr>"

lemma accept_case_True:
  "on \<Longrightarrow> cf_size f = n \<Longrightarrow> (crc \<longrightarrow> checksum_valid f) \<Longrightarrow>
   accept_case on n crc dec f p = ebind (dec f p) (\<lambda>q. Inr (True, q))"
  by (simp add: accept_case_def require_crc_def)

lemma accept_case_False:
  "\<not> (on \<and> cf_size f = n \<and> (crc \<longrightarrow> checksum_valid f)) \<Longrightarrow>
   accept_case on n crc dec f p =
     Inr (False, count_failures (of_bool (on \<and> cf_size f = n)) 1 p)"
  by (auto simp: accept_case_def require_crc_def malformed_def count_failures_def)

lemma parse_update_cases:
  "parse_update f p =
     (if cf_rejected f \<or> cf_returned f \<or>
         \<not> (cf_bus f = pa_ecan_bus p \<or> pa_use_camera_bus p \<and> cf_bus f = pa_camera_bus p) then Inr (False, p)
      else case message_of (pa_alternate_buttons p) (cf_address f) of None \<Rightarrow> Inr (False, p)
        | Some (m, sz, crc) \<Rightarrow> accept_case (from_bus p m f) sz crc (decode m) f p)"
proof (cases "cf_rejected f \<or> cf_returned f \<or>
    \<not> (cf_bus f = pa_ecan_bus p \<or> pa_use_camera_bus p \<and> cf_bus f = pa_camera_bus p)")
  case True
  then show ?thesis by (auto simp: parse_update_def Let_def)
next
  case False
  have push: "(case (if c then x else y) of None \<Rightarrow> n | Some r \<Rightarrow> g r) =
      (if c then case x of None \<Rightarrow> n | Some r \<Rightarrow> g r else case y of None \<Rightarrow> n | Some r \<Rightarrow> g r)"
    for c n and x y :: "(message \<times> u8 \<times> bool) option" and g :: "message \<times> u8 \<times> bool \<Rightarrow> exn + bool \<times> parser"
    by (rule if_distrib)
  have flip: "(if \<not> c then x else y) = (if c then y else x)" for c and x y :: "exn + bool \<times> parser"
    by simp
  have bus: "(cf_bus f \<noteq> pa_ecan_bus p \<and> (pa_use_camera_bus p \<longrightarrow> cf_bus f \<noteq> pa_camera_bus p)) = False"
    using False by blast
  from False show ?thesis
    by (simp add: parse_update_def message_of_def Let_def from_bus_def push flip bus split del: if_split cong: if_cong)
qed

lemma parse_update_accepted:
  "accepted p f = Some m \<Longrightarrow> parse_update f p = ebind (decode m f p) (\<lambda>q. Inr (True, q))"
  by (auto simp: parse_update_cases accepted_def accept_case_True from_bus_def
      split: if_split_asm option.split_asm prod.split_asm)

lemma parse_update_refused:
  assumes "accepted p f = None"
  shows "\<exists>k l. parse_update f p = Inr (False, count_failures k l p)"
proof -
  have id: "\<exists>k l. p = count_failures k l p" by (intro exI [of _ 0]) (simp add: count_failures_def)
  show ?thesis
  proof (cases "message_of (pa_alternate_buttons p) (cf_address f)")
    case None
    then show ?thesis using id by (simp add: parse_update_cases)
  next
    case (Some r)
    obtain m sz crc where r: "r = (m, sz, crc)" by (cases r)
    show ?thesis
    proof (cases "cf_rejected f \<or> cf_returned f")
      case True
      then have "parse_update f p = Inr (False, p)" unfolding parse_update_cases by argo
      then show ?thesis using id by simp
    next
      case False
      then have "\<not> (from_bus p m f \<and> cf_size f = sz \<and> (crc \<longrightarrow> checksum_valid f))"
        using assms Some r by (auto simp: accepted_def split: if_splits)
      from accept_case_False [OF this] show ?thesis using id Some r by (auto simp: parse_update_cases)
    qed
  qed
qed

section \<open>What a decoder does\<close>

definition same_setup :: "parser \<Rightarrow> parser \<Rightarrow> bool" where
  "same_setup p q \<longleftrightarrow> pa_ecan_bus q = pa_ecan_bus p \<and> pa_camera_bus q = pa_camera_bus p \<and>
     pa_alternate_buttons q = pa_alternate_buttons p \<and> pa_use_camera_bus q = pa_use_camera_bus p"

definition same_counters :: "parser \<Rightarrow> parser \<Rightarrow> bool" where
  "same_counters p q \<longleftrightarrow> pa_checksum_failures q = pa_checksum_failures p \<and>
     pa_malformed_frames q = pa_malformed_frames p"

definition stamp :: "message \<Rightarrow> parser \<Rightarrow> time_point" where
  "stamp m p = (case m of Steering \<Rightarrow> pa_steering_time p | Mdps \<Rightarrow> pa_mdps_time p
     | Wheels \<Rightarrow> pa_wheel_time p | Tcs \<Rightarrow> pa_tcs_time p | _ \<Rightarrow> 0)"

definition critical :: "message list" where
  "critical = [Steering, Mdps, Wheels, Tcs]"

definition buttons_of :: "parser \<Rightarrow> u8 \<times> bool \<times> u64 \<times> u64 \<times> u64" where
  "buttons_of p = (pa_previous_button p, pa_previous_lane_keep_button p,
     vs_lane_keep_button_events (pa_state p), vs_set_button_events (pa_state p),
     vs_cancel_button_events (pa_state p))"

lemma read_wheels_ok:
  assumes "wf_frame f"
  shows "\<exists>a b c d. read_wheels (payload_as 24 f) wheel_starts = Inr [a, b, c, d] \<and>
    inrange 0 143 a \<and> inrange 0 143 b \<and> inrange 0 143 c \<and> inrange 0 143 d"
  using assms by (simp add: wheel_starts_def signal_reads ranges)

lemma read_buttons_ok:
  assumes "wf_frame f"
  shows "\<exists>b l. read_buttons f alternate = Inr (b, l) \<and> b < 8"
  using assms by (simp add: read_buttons_def signal_reads ranges)

lemma sign_extend_ok:
  assumes "signal_fits ord s 16 (length d)"
  shows "\<exists>i. sign_extend (signal d s 16 ord) 16 = Inr i \<and> - 32768 \<le> i \<and> i < 32768"
proof -
  have r: "uint (signal d s 16 ord) < 2 ^ 16" using signal_range [OF assms] by simp
  obtain i where i: "sign_extend (signal d s 16 ord) 16 = Inr i" by (simp add: sign_extend_signed [OF _ _ r])
  from sign_extend_range [OF _ _ r i] i show ?thesis by simp
qed

lemma decode_ok:
  assumes "wf_frame f"
  shows "\<exists>q. decode m f p = Inr q \<and> same_setup p q \<and> same_counters p q \<and>
    (\<forall>k\<in>set critical. stamp k q = (if k = m then cf_received_at f else stamp k p)) \<and>
    (vehicle_ok (pa_state p) \<longrightarrow> vehicle_ok (pa_state q))"
proof (cases m)
  case Dynamics
  with assms show ?thesis
    by (simp add: parser_defs same_setup_def same_counters_def critical_def stamp_def vehicle_ok_def ranges)
next
  case Steering
  obtain i where i: "sign_extend (signal (payload_as 16 f) 24 16 LittleEndian) 16 = Inr i"
    "- 32768 \<le> i" "i < 32768" using sign_extend_ok [of LittleEndian 24 "payload_as 16 f"] assms by auto
  with Steering assms show ?thesis
    by (simp add: parser_defs same_setup_def same_counters_def critical_def stamp_def vehicle_ok_def ranges)
next
  case Mdps
  with assms show ?thesis
    by (simp add: parser_defs same_setup_def same_counters_def critical_def stamp_def vehicle_ok_def ranges)
next
  case Wheels
  obtain a b c d where w: "read_wheels (payload_as 24 f) wheel_starts = Inr [a, b, c, d]"
    "inrange 0 143 a" "inrange 0 143 b" "inrange 0 143 c" "inrange 0 143 d"
    using read_wheels_ok [OF assms] by blast
  with Wheels show ?thesis
    by (simp add: parse_wheel_speeds_def same_setup_def same_counters_def critical_def stamp_def vehicle_ok_def ranges)
next
  case Tcs
  with assms show ?thesis
    by (simp add: parser_defs motorola_def same_setup_def same_counters_def critical_def stamp_def vehicle_ok_def)
next
  case Accelerator
  with assms show ?thesis
    by (simp add: parser_defs same_setup_def same_counters_def critical_def stamp_def vehicle_ok_def ranges)
next
  case (Buttons alternate)
  obtain b l where "read_buttons f alternate = Inr (b, l)" "b < 8" using read_buttons_ok [OF assms] by blast
  with Buttons show ?thesis
    by (simp add: parse_buttons_def note_edges_def Let_def same_setup_def same_counters_def critical_def stamp_def vehicle_ok_def)
next
  case Scc
  with assms show ?thesis
    by (simp add: parser_defs same_setup_def same_counters_def critical_def stamp_def vehicle_ok_def)
qed

section \<open>Traces of frames\<close>

text \<open>The frames of a reception, in order (\<open>receive_loop\<close> hands each to the parser).\<close>

fun parse_all :: "can_frame list \<Rightarrow> parser \<Rightarrow> exn + parser" where
  "parse_all [] p = Inr p"
| "parse_all (f # fs) p = ebind (parse_update f p) (\<lambda>(ok, q). parse_all fs q)"

text \<open>The button values of an accepted button frame, and what one such frame does.\<close>

definition button_frame :: "parser \<Rightarrow> can_frame \<Rightarrow> (u8 \<times> bool) option" where
  "button_frame p f =
     (case accepted p f of
        Some (Buttons alternate) \<Rightarrow> (case read_buttons f alternate of Inr v \<Rightarrow> Some v | Inl _ \<Rightarrow> None)
      | _ \<Rightarrow> None)"

definition lane_keep_edge :: "u8 \<times> bool \<Rightarrow> u8 \<times> bool \<Rightarrow> bool" where
  "lane_keep_edge x y \<longleftrightarrow> \<not> snd x \<and> snd y"

definition set_edge :: "u8 \<times> bool \<Rightarrow> u8 \<times> bool \<Rightarrow> bool" where
  "set_edge x y \<longleftrightarrow> fst x = 2 \<and> fst y = 0"

definition cancel_edge :: "u8 \<times> bool \<Rightarrow> u8 \<times> bool \<Rightarrow> bool" where
  "cancel_edge x y \<longleftrightarrow> fst x \<noteq> 4 \<and> fst y = 4"

definition last_button :: "parser \<Rightarrow> u8 \<times> bool" where
  "last_button p = (pa_previous_button p, pa_previous_lane_keep_button p)"

definition button_counts :: "parser \<Rightarrow> u64 \<times> u64 \<times> u64" where
  "button_counts p = (vs_lane_keep_button_events (pa_state p), vs_set_button_events (pa_state p),
     vs_cancel_button_events (pa_state p))"

definition bump :: "u8 \<times> bool \<Rightarrow> u8 \<times> bool \<Rightarrow> u64 \<times> u64 \<times> u64 \<Rightarrow> u64 \<times> u64 \<times> u64" where
  "bump x y = (\<lambda>(l, s, c). (l + of_bool (lane_keep_edge x y), s + of_bool (set_edge x y),
     c + of_bool (cancel_edge x y)))"

lemma accepted_cong: "same_setup p q \<Longrightarrow> accepted q f = accepted p f"
  by (simp add: accepted_def same_setup_def from_bus_def split: option.split)

lemma decode_buttons:
  assumes "wf_frame f" and "decode m f p = Inr q"
  shows "(last_button q, button_counts q) =
    (case m of Buttons alternate \<Rightarrow>
        (case read_buttons f alternate of Inr v \<Rightarrow> (v, bump (last_button p) v (button_counts p))
          | Inl _ \<Rightarrow> (last_button p, button_counts p))
      | _ \<Rightarrow> (last_button p, button_counts p))"
proof (cases m)
  case (Buttons alternate)
  obtain b l where "read_buttons f alternate = Inr (b, l)" using read_buttons_ok [OF assms(1)] by blast
  with Buttons assms(2) show ?thesis
    by (auto simp: parse_buttons_def note_edges_def Let_def last_button_def button_counts_def bump_def
        lane_keep_edge_def set_edge_def cancel_edge_def)
next
  case Steering
  obtain i where "sign_extend (signal (payload_as 16 f) 24 16 LittleEndian) 16 = Inr i"
    using sign_extend_ok [of LittleEndian 24 "payload_as 16 f"] assms(1) by auto
  with Steering assms show ?thesis by (auto simp: parser_defs last_button_def button_counts_def)
next
  case Wheels
  with assms show ?thesis
    by (auto simp: parse_wheel_speeds_def ebind_eq_Inr last_button_def button_counts_def)
qed (use assms in \<open>auto simp: parser_defs motorola_def last_button_def button_counts_def split: if_split_asm\<close>)

lemma parse_update_step:
  assumes "wf_frame f"
  obtains ok q where "parse_update f p = Inr (ok, q)" and "same_setup p q"
    and "\<And>k. k \<in> set critical \<Longrightarrow>
      stamp k q = (if accepted p f = Some k then cf_received_at f else stamp k p)"
    and "vehicle_ok (pa_state p) \<Longrightarrow> vehicle_ok (pa_state q)"
    and "(last_button q, button_counts q) = (case button_frame p f of
        None \<Rightarrow> (last_button p, button_counts p)
      | Some v \<Rightarrow> (v, bump (last_button p) v (button_counts p)))"
proof (cases "accepted p f")
  case None
  obtain k l where u: "parse_update f p = Inr (False, count_failures k l p)" using parse_update_refused [OF None] by blast
  show thesis
    by (rule that [OF u]) (use None in \<open>auto simp: same_setup_def count_failures_def stamp_def critical_def
      button_frame_def last_button_def button_counts_def\<close>)
next
  case (Some m)
  obtain q where q: "decode m f p = Inr q" "same_setup p q"
    "\<forall>k\<in>set critical. stamp k q = (if k = m then cf_received_at f else stamp k p)"
    "vehicle_ok (pa_state p) \<longrightarrow> vehicle_ok (pa_state q)"
    using decode_ok [OF assms] by blast
  have "parse_update f p = Inr (True, q)" using parse_update_accepted [OF Some] q(1) by simp
  then show thesis
  proof (rule that)
    show "(last_button q, button_counts q) = (case button_frame p f of
        None \<Rightarrow> (last_button p, button_counts p)
      | Some v \<Rightarrow> (v, bump (last_button p) v (button_counts p)))"
      using decode_buttons [OF assms q(1)] Some
      by (simp add: button_frame_def split: message.splits sum.splits)
  qed (use q Some in auto)
qed

text \<open>How many steps of a sequence are edges.\<close>

fun edges :: "('a \<Rightarrow> 'a \<Rightarrow> bool) \<Rightarrow> 'a \<Rightarrow> 'a list \<Rightarrow> nat" where
  "edges e x [] = 0"
| "edges e x (y # ys) = of_bool (e x y) + edges e y ys"

fun button_trace :: "parser \<Rightarrow> can_frame list \<Rightarrow> (u8 \<times> bool) list" where
  "button_trace p [] = []"
| "button_trace p (f # fs) =
     (case button_frame p f of None \<Rightarrow> button_trace p fs | Some v \<Rightarrow> v # button_trace p fs)"

text \<open>When the last frame accepted as a message arrived.\<close>

fun last_accepted :: "parser \<Rightarrow> message \<Rightarrow> can_frame list \<Rightarrow> time_point \<Rightarrow> time_point" where
  "last_accepted p m [] t = t"
| "last_accepted p m (f # fs) t =
     last_accepted p m fs (if accepted p f = Some m then cf_received_at f else t)"

lemma button_frame_cong: "same_setup p q \<Longrightarrow> button_frame q f = button_frame p f"
  by (simp add: button_frame_def accepted_cong)

lemma traces_cong:
  assumes "same_setup p q"
  shows "button_trace q fs = button_trace p fs" and "last_accepted q m fs t = last_accepted p m fs t"
proof -
  show "button_trace q fs = button_trace p fs"
    by (induction fs) (simp_all add: button_frame_cong [OF assms] split: option.split)
  show "last_accepted q m fs t = last_accepted p m fs t"
    by (induction fs arbitrary: t) (simp_all add: accepted_cong [OF assms])
qed

definition add_edges :: "u8 \<times> bool \<Rightarrow> (u8 \<times> bool) list \<Rightarrow> u64 \<times> u64 \<times> u64 \<Rightarrow> u64 \<times> u64 \<times> u64" where
  "add_edges x vs = (\<lambda>(l, s, c). (l + of_nat (edges lane_keep_edge x vs), s + of_nat (edges set_edge x vs),
     c + of_nat (edges cancel_edge x vs)))"

lemma add_edges_Cons: "add_edges x (y # ys) n = add_edges y ys (bump x y n)"
  by (cases n) (simp add: add_edges_def bump_def)

lemma parse_all_trace:
  assumes "list_all wf_frame fs"
  shows "\<exists>q. parse_all fs p = Inr q \<and> same_setup p q \<and>
    (\<forall>k\<in>set critical. stamp k q = last_accepted p k fs (stamp k p)) \<and>
    (vehicle_ok (pa_state p) \<longrightarrow> vehicle_ok (pa_state q)) \<and>
    button_counts q = add_edges (last_button p) (button_trace p fs) (button_counts p)"
  using assms
proof (induction fs arbitrary: p)
  case Nil
  then show ?case by (simp add: same_setup_def add_edges_def case_prod_beta)
next
  case (Cons f fs)
  have "wf_frame f" using Cons.prems by simp
  from parse_update_step [OF this, of p] obtain ok r where r: "parse_update f p = Inr (ok, r)" "same_setup p r"
    "\<And>k. k \<in> set critical \<Longrightarrow> stamp k r = (if accepted p f = Some k then cf_received_at f else stamp k p)"
    "vehicle_ok (pa_state p) \<Longrightarrow> vehicle_ok (pa_state r)"
    "(last_button r, button_counts r) = (case button_frame p f of
        None \<Rightarrow> (last_button p, button_counts p)
      | Some v \<Rightarrow> (v, bump (last_button p) v (button_counts p)))" by blast
  obtain q where q: "parse_all fs r = Inr q" "same_setup r q"
    "\<forall>k\<in>set critical. stamp k q = last_accepted r k fs (stamp k r)"
    "vehicle_ok (pa_state r) \<longrightarrow> vehicle_ok (pa_state q)"
    "button_counts q = add_edges (last_button r) (button_trace r fs) (button_counts r)"
    using Cons.IH [of r] Cons.prems by auto
  have "button_counts q = add_edges (last_button p) (button_trace p (f # fs)) (button_counts p)"
    using q(5) r(5) traces_cong [OF r(2)]
    by (cases "button_frame p f") (simp_all add: add_edges_Cons)
  moreover have "same_setup p q" using r(2) q(2) by (simp add: same_setup_def)
  ultimately show ?case using r(1,3,4) q(1,3,4) traces_cong [OF r(2)] by (intro exI [of _ q]) simp
qed

lemma initial_vehicle_ok: "vehicle_ok initial_vehicle"
  by (simp add: vehicle_ok_def initial_vehicle_def inrange_def literal_values)

section \<open>The guarantees\<close>

text \<open>C34: whatever frames arrive, the parser handles all of them without an exception, and every number
  of a snapshot is finite and in the range of its signal.\<close>

theorem parser_values_in_range:
  assumes "list_all wf_frame frames"
  shows "\<exists>q. parse_all frames (make_parser ecan camera alternate use_camera) = Inr q \<and>
    vehicle_ok (snapshot now timeout q)"
proof -
  from parse_all_trace [OF assms, of "make_parser ecan camera alternate use_camera"]
  obtain q where q: "parse_all frames (make_parser ecan camera alternate use_camera) = Inr q"
    "vehicle_ok (pa_state q)" using initial_vehicle_ok by (auto simp: make_parser_def)
  then show ?thesis by (auto simp: snapshot_def vehicle_ok_def)
qed

text \<open>C32: the three button counters count edges of the accepted button frames: LDA rising, SET released
  (2 to 0), CANCEL pressed (to 4), from a released start. Frames of other messages, corrupted frames
  and frames of other buses do not count, wherever they stand between the button frames.\<close>

theorem button_counters_count_edges:
  assumes "list_all wf_frame frames"
    and "parse_all frames (make_parser ecan camera alternate use_camera) = Inr q"
  shows "let presses = button_trace (make_parser ecan camera alternate use_camera) frames;
      v = snapshot now timeout q
    in vs_lane_keep_button_events v = of_nat (edges lane_keep_edge (0, False) presses) \<and>
       vs_set_button_events v = of_nat (edges set_edge (0, False) presses) \<and>
       vs_cancel_button_events v = of_nat (edges cancel_edge (0, False) presses)"
  using parse_all_trace [OF assms(1), of "make_parser ecan camera alternate use_camera"] assms(2)
  by (auto simp: button_counts_def last_button_def add_edges_def make_parser_def initial_vehicle_def
      snapshot_def Let_def)

text \<open>C31: a snapshot is valid exactly while the last accepted frame of each of the four critical messages
  (steering, MDPS, wheel speeds, TCS) is recent; a message that stops, or only arrives corrupted,
  invalidates the state after the timeout.\<close>

theorem snapshot_valid_iff:
  assumes "list_all wf_frame frames"
    and "parse_all frames (make_parser ecan camera alternate use_camera) = Inr q"
  shows "vs_valid (snapshot now timeout q) \<longleftrightarrow>
    (\<forall>m\<in>set critical.
       recent (last_accepted (make_parser ecan camera alternate use_camera) m frames 0) now timeout)"
proof -
  let ?p = "make_parser ecan camera alternate use_camera"
  have "\<forall>k\<in>set critical. stamp k q = last_accepted ?p k frames (stamp k ?p)"
    using parse_all_trace [OF assms(1), of ?p] assms(2) by auto
  then show ?thesis by (simp add: snapshot_def critical_def stamp_def make_parser_def)
qed

text \<open>C33: a corrupted frame does not touch the vehicle state. When one byte of a frame the parser would
  accept is changed, the parser reports it as not taken, counts it as a checksum failure and as
  malformed, and changes nothing else. Two addresses are excluded: ESC dynamics (0x0E5) and the
  standard cruise buttons (0x1CF) are read without a checksum, so there a corrupted frame is
  accepted.\<close>

theorem corrupted_frame_ignored:
  assumes "accepted p f = Some m" and "cf_address f \<notin> {kEscDynamicsAddress, kCruiseButtonsAddress}"
    and "wf_frame f" and "i < unat (cf_size f)" and "y \<noteq> cf_data f ! i"
  shows "parse_update (f\<lparr>cf_data := (cf_data f)[i := y]\<rparr>) p = Inr (False,
    p\<lparr>pa_checksum_failures := pa_checksum_failures p + 1, pa_malformed_frames := pa_malformed_frames p + 1\<rparr>)"
proof -
  let ?g = "f\<lparr>cf_data := (cf_data f)[i := y]\<rparr>"
  obtain sz crc where of: "message_of (pa_alternate_buttons p) (cf_address f) = Some (m, sz, crc)"
    using assms(1) by (auto simp: accepted_def split: if_split_asm option.splits)
  then have crc using assms(2) by (auto simp: message_of_def split: if_split_asm)
  with of have f: "\<not> cf_rejected f" "\<not> cf_returned f" "from_bus p m f" "cf_size f = sz" "checksum_valid f"
    using assms(1) by (auto simp: accepted_def split: if_split_asm)
  have bad: "\<not> checksum_valid ?g" using changed_byte_invalid [OF f(5) assms(3-5)] .
  have "parse_update ?g p = accept_case (from_bus p m f) sz True (decode m) ?g p"
    using f(1-3) of \<open>crc\<close> by (auto simp: parse_update_cases from_bus_def)
  also have "\<dots> = Inr (False, count_failures 1 1 p)"
    using f(3,4) bad by (simp add: accept_case_def require_crc_def malformed_def count_failures_def)
  finally show ?thesis by (simp add: count_failures_def)
qed

text \<open>C39: what the bridge says about cruise control is what a parser on the same bus reads: an
  \<open>SCC_CONTROL\<close> frame it builds is accepted, and sets the engaged flag exactly when it was built enabled.\<close>

theorem built_scc_read_back:
  assumes "isfinite raw" "isfinite value" "isfinite speed" "isfinite jerk" and "wf_codec c"
    and "make_scc_control c raw value enabled stopping gas speed jerk (pa_ecan_bus p) = Inr (f, c')"
  shows "\<exists>q. parse_update f p = Inr (True, q) \<and> (vs_cruise_engaged (pa_state q) \<longleftrightarrow> enabled)"
proof -
  obtain sp vr rr ju jl d g where
    d: "set_signals (scc_base c) (scc_fields (cd_scc_counter c) enabled stopping gas sp vr rr ju jl) = Inr d"
    and g: "seal_frame kSccControlAddress (pa_ecan_bus p) d = Inr g"
    and m: "make_scc_control c raw value enabled stopping gas speed jerk (pa_ecan_bus p) =
      Inr (g, c\<lparr>cd_scc_counter := cd_scc_counter c + 1\<rparr>)"
    using make_scc_control_ok [OF assms(1-5)] by blast
  have base: "length (scc_base c) = 32" using assms(5) by (simp add: scc_base_def wf_codec_def)
  have len: "length d = 32" using length_set_signals [OF _ d] base by simp
  note h = hy.seal_header [OF _ g] hy.seal_valid [OF _ g]
  have sz: "cf_size g = 32" using h len by (simp add: word_unat_eq_iff)
  have fg: "f = g" using m assms(6) by simp
  let ?mode = "if enabled then (if gas then 2 else 1) else 0 :: u64"
  have "get_signal (payload g) 68 3 LittleEndian = Inr (take_bit 3 ?mode)"
    by (rule hy.get_nth [OF _ _ d g, of 6])
      (simp_all add: base, simp_all add: scc_fields_def uncovered_def scc_be del: signal_index.simps(2))
  moreover have "payload g = payload_as 32 g" using sz by (simp add: payload_def payload_as_def)
  moreover have "accepted p g = Some Scc"
    using h len sz by (simp add: accepted_def message_of_def address_defs from_bus_def)
  ultimately show ?thesis using fg
    by (auto simp: parse_update_accepted parse_scc_def)
qed

section \<open>Witnesses\<close>

text \<open>The standard button frame holding SET, and one holding nothing.\<close>

definition sample_buttons :: "can_frame list" where
  "sample_buttons =
     (let f = empty_frame\<lparr>cf_address := kCruiseButtonsAddress, cf_size := 8\<rparr>
      in [f\<lparr>cf_data := (replicate 64 0)[2 := 2]\<rparr>, f, f\<lparr>cf_bus := 1\<rparr>])"

lemma sample_buttons_read:
  "list_all wf_frame sample_buttons" "button_trace (make_parser 0 2 False False) sample_buttons = [(2, False), (0, False)]"
proof -
  show "list_all wf_frame sample_buttons" by (simp add: sample_buttons_def wf_frame_def empty_frame_def Let_def)
  have bits: "get_le_loop ((replicate 8 0)[2 := 2]) 16 0 0 3 = 2" "get_le_loop ((replicate 8 0)[2 := 2]) 23 0 0 1 = 0"
    "get_le_loop (replicate 8 0) 16 0 0 3 = 0" "get_le_loop (replicate 8 0) 23 0 0 1 = 0"
    by (simp_all add: numeral_3_eq_3 bit_at_def nth_list_update)
  show "button_trace (make_parser 0 2 False False) sample_buttons = [(2, False), (0, False)]"
    using bits by (simp add: sample_buttons_def empty_frame_def Let_def button_frame_def accepted_def message_of_def address_defs
        make_parser_def from_bus_def read_buttons_def payload_as_def get_signal_def take_update_swap)
qed

theorem parser_values_in_range_witness:
  "\<exists>q. parse_all sample_buttons (make_parser 0 2 False False) = Inr q \<and> vehicle_ok (snapshot 5 100 q)"
  by (rule parser_values_in_range) (simp add: sample_buttons_read)

theorem button_counters_count_edges_witness:
  "\<exists>q. parse_all sample_buttons (make_parser 0 2 False False) = Inr q \<and>
     vs_set_button_events (snapshot 5 100 q) = 1 \<and> vs_cancel_button_events (snapshot 5 100 q) = 0"
proof -
  obtain q where q: "parse_all sample_buttons (make_parser 0 2 False False) = Inr q"
    using parse_all_trace [OF sample_buttons_read(1)] by blast
  from button_counters_count_edges [OF sample_buttons_read(1) q, of 5 100]
  show ?thesis using q by (simp add: sample_buttons_read(2) set_edge_def cancel_edge_def Let_def)
qed

text \<open>A frame of a bus that is right in every respect, with a zero payload.\<close>

definition sealed_at :: "u32 \<Rightarrow> nat \<Rightarrow> time_point \<Rightarrow> can_frame" where
  "sealed_at a n t = (case seal_frame a 0 (replicate n 0) of Inr f \<Rightarrow> f\<lparr>cf_received_at := t\<rparr> | Inl _ \<Rightarrow> empty_frame)"

lemma sealed_at_ok:
  assumes "n \<in> {8, 16, 24, 32}"
  shows "checksum_valid (sealed_at a n t) \<and> wf_frame (sealed_at a n t) \<and> cf_address (sealed_at a n t) = a \<and>
    cf_bus (sealed_at a n t) = 0 \<and> unat (cf_size (sealed_at a n t)) = n \<and> \<not> cf_rejected (sealed_at a n t) \<and>
    \<not> cf_returned (sealed_at a n t) \<and> cf_received_at (sealed_at a n t) = t"
proof -
  obtain f where f: "seal_frame a 0 (replicate n 0) = Inr f" using hy.seal_succeeds [of "replicate n 0"] assms by auto
  have "checksum_valid (f\<lparr>cf_received_at := t\<rparr>) = checksum_valid f" by (simp add: checksum_valid_def payload_def)
  then show ?thesis
    using hy.seal_valid [OF _ f] hy.seal_header [OF _ f] assms f by (simp add: sealed_at_def wf_frame_def)
qed

definition sample_frames :: "can_frame list" where
  "sample_frames = [sealed_at kSteeringSensorsAddress 16 4000000, sealed_at kMdpsAddress 24 5000000,
     sealed_at kWheelSpeedsAddress 24 6000000, sealed_at kTcsAddress 24 7000000]"

lemma sample_frames_accepted:
  "accepted (make_parser 0 2 False False) (sealed_at kSteeringSensorsAddress 16 t) = Some Steering"
  "accepted (make_parser 0 2 False False) (sealed_at kMdpsAddress 24 t) = Some Mdps"
  "accepted (make_parser 0 2 False False) (sealed_at kWheelSpeedsAddress 24 t) = Some Wheels"
  "accepted (make_parser 0 2 False False) (sealed_at kTcsAddress 24 t) = Some Tcs"
  using sealed_at_ok [of 16 kSteeringSensorsAddress t] sealed_at_ok [of 24 kMdpsAddress t]
    sealed_at_ok [of 24 kWheelSpeedsAddress t] sealed_at_ok [of 24 kTcsAddress t]
  by (simp_all add: accepted_def message_of_def address_defs from_bus_def make_parser_def word_unat_eq_iff)

theorem snapshot_valid_iff_witness:
  "\<exists>q. parse_all sample_frames (make_parser 0 2 False False) = Inr q \<and>
     vs_valid (snapshot 100000000 100 q) \<and> \<not> vs_valid (snapshot 105000000 100 q)"
proof -
  have wf: "list_all wf_frame sample_frames" using sealed_at_ok by (simp add: sample_frames_def)
  obtain q where q: "parse_all sample_frames (make_parser 0 2 False False) = Inr q"
    using parse_all_trace [OF wf] by blast
  have at: "cf_received_at (sealed_at a 16 t) = t" "cf_received_at (sealed_at a 24 t) = t" for a t
    using sealed_at_ok by simp_all
  from snapshot_valid_iff [OF wf q, of 100000000 100] snapshot_valid_iff [OF wf q, of 105000000 100] q
  show ?thesis by (simp add: critical_def sample_frames_def sample_frames_accepted at recent_def ms_def)
qed

theorem corrupted_frame_ignored_witness:
  "\<exists>y. parse_update ((sealed_at kTcsAddress 24 7)\<lparr>cf_data := (cf_data (sealed_at kTcsAddress 24 7))[10 := y]\<rparr>)
      (make_parser 0 2 False False) =
    Inr (False, (make_parser 0 2 False False)\<lparr>pa_checksum_failures := 1, pa_malformed_frames := 1\<rparr>)"
proof -
  let ?f = "sealed_at kTcsAddress 24 7" and ?p = "make_parser 0 2 False False"
  have "cf_address ?f \<notin> {kEscDynamicsAddress, kCruiseButtonsAddress}"
    using sealed_at_ok [of 24 kTcsAddress 7] by (simp add: address_defs)
  from corrupted_frame_ignored [OF sample_frames_accepted(4) this, of 10 "cf_data ?f ! 10 + 1"]
  show ?thesis using sealed_at_ok [of 24 kTcsAddress 7] by (auto simp: make_parser_def)
qed

theorem built_scc_read_back_witness:
  "\<exists>f c' q. make_scc_control initial_codec (Fin 1) (Fin 1) True False False (Fin 30) (Fin 5) 0 = Inr (f, c') \<and>
     parse_update f (make_parser 0 2 False False) = Inr (True, q) \<and> vs_cruise_engaged (pa_state q)"
proof -
  have wf: "wf_codec initial_codec" by (simp add: wf_codec_def initial_codec_def)
  obtain f where f: "make_scc_control initial_codec (Fin 1) (Fin 1) True False False (Fin 30) (Fin 5)
      (pa_ecan_bus (make_parser 0 2 False False)) = Inr (f, initial_codec\<lparr>cd_scc_counter := 1\<rparr>)"
    using make_scc_control_ok [OF _ _ _ _ wf, of "Fin 1" "Fin 1" "Fin 30" "Fin 5" True False False 0]
    by (auto simp: initial_codec_def make_parser_def)
  from built_scc_read_back [OF _ _ _ _ wf f] f show ?thesis by (auto simp: make_parser_def)
qed

end
