(* ===== verification/Effects.thy ===== *)
theory Effects
  imports Prelude
begin

text \<open>
  Effectful code: an action takes the state of an object and returns an exception or a result,
  with the state it leaves. A thrown exception keeps the state changes made before it, as in C++.
  \<open>wp\<close> is the weakest precondition of an action for a postcondition of each of the two ends; its
  equations, collected in \<open>wp_rules\<close>, compute it from the structure of the action.
\<close>

type_synonym ('s, 'a) action = "'s \<Rightarrow> (exn + 'a) \<times> 's"

section \<open>Combinators\<close>

definition sret :: "'a \<Rightarrow> ('s, 'a) action" where
  "sret x s = (Inr x, s)"

definition sthrow :: "exn \<Rightarrow> ('s, 'a) action" where
  "sthrow e s = (Inl e, s)"

definition sbind :: "('s, 'a) action \<Rightarrow> ('a \<Rightarrow> ('s, 'b) action) \<Rightarrow> ('s, 'b) action" where
  "sbind m f s = (case m s of (Inl e, t) \<Rightarrow> (Inl e, t) | (Inr x, t) \<Rightarrow> f x t)"

definition sthen :: "('s, 'a) action \<Rightarrow> ('s, 'b) action \<Rightarrow> ('s, 'b) action" where
  "sthen m n = sbind m (\<lambda>_. n)"

text \<open>\<open>try m catch (e) h\<close>.\<close>

definition scatch :: "('s, 'a) action \<Rightarrow> (exn \<Rightarrow> ('s, 'a) action) \<Rightarrow> ('s, 'a) action" where
  "scatch m h s = (case m s of (Inl e, t) \<Rightarrow> h e t | (Inr x, t) \<Rightarrow> (Inr x, t))"

definition sgets :: "('s \<Rightarrow> 'a) \<Rightarrow> ('s, 'a) action" where
  "sgets f s = (Inr (f s), s)"

definition smodify :: "('s \<Rightarrow> 's) \<Rightarrow> ('s, unit) action" where
  "smodify f s = (Inr (), f s)"

definition swhen :: "bool \<Rightarrow> ('s, unit) action \<Rightarrow> ('s, unit) action" where
  "swhen b m = (if b then m else sret ())"

text \<open>A pure computation that may throw.\<close>

definition sreturn :: "exn + 'a \<Rightarrow> ('s, 'a) action" where
  "sreturn r s = (r, s)"

fun sfor :: "'i list \<Rightarrow> ('i \<Rightarrow> ('s, unit) action) \<Rightarrow> ('s, unit) action" where
  "sfor [] f = sret ()"
| "sfor (i # is) f = sthen (f i) (sfor is f)"

text \<open>An action on a part of the state.\<close>

definition son :: "('s \<Rightarrow> 't) \<Rightarrow> ('t \<Rightarrow> 's \<Rightarrow> 's) \<Rightarrow> ('t, 'a) action \<Rightarrow> ('s, 'a) action" where
  "son get put m s = (case m (get s) of (r, t) \<Rightarrow> (r, put t s))"

section \<open>Weakest preconditions\<close>

definition wp :: "('s, 'a) action \<Rightarrow> ('a \<Rightarrow> 's \<Rightarrow> bool) \<Rightarrow> (exn \<Rightarrow> 's \<Rightarrow> bool) \<Rightarrow> 's \<Rightarrow> bool" where
  "wp m Q E s \<longleftrightarrow> (case m s of (Inl e, t) \<Rightarrow> E e t | (Inr x, t) \<Rightarrow> Q x t)"

named_theorems wp_rules \<open>weakest preconditions of actions\<close>

text \<open>Equations of predicates, so that they also rewrite a precondition not yet applied to a state.\<close>

lemma wp_sret [wp_rules]: "wp (sret x) Q E = Q x"
  by (simp add: fun_eq_iff wp_def sret_def)

lemma wp_sthrow [wp_rules]: "wp (sthrow e) Q E = E e"
  by (simp add: fun_eq_iff wp_def sthrow_def)

lemma wp_sbind [wp_rules]: "wp (sbind m f) Q E = wp m (\<lambda>x. wp (f x) Q E) E"
  by (simp add: fun_eq_iff wp_def sbind_def split: prod.split sum.split)

lemma wp_sthen [wp_rules]: "wp (sthen m n) Q E = wp m (\<lambda>_. wp n Q E) E"
  by (simp add: sthen_def wp_sbind)

lemma wp_scatch [wp_rules]: "wp (scatch m h) Q E = wp m Q (\<lambda>e. wp (h e) Q E)"
  by (simp add: fun_eq_iff wp_def scatch_def split: prod.split sum.split)

lemma wp_sgets [wp_rules]: "wp (sgets f) Q E = (\<lambda>s. Q (f s) s)"
  by (simp add: fun_eq_iff wp_def sgets_def)

lemma wp_smodify [wp_rules]: "wp (smodify f) Q E = (\<lambda>s. Q () (f s))"
  by (simp add: fun_eq_iff wp_def smodify_def)

lemma wp_swhen [wp_rules]: "wp (swhen b m) Q E = (\<lambda>s. if b then wp m Q E s else Q () s)"
  by (simp add: fun_eq_iff swhen_def wp_sret)

lemma wp_sreturn [wp_rules]: "wp (sreturn r) Q E = (\<lambda>s. case r of Inl e \<Rightarrow> E e s | Inr x \<Rightarrow> Q x s)"
  by (simp add: fun_eq_iff wp_def sreturn_def split: sum.split)

lemma wp_if [wp_rules]: "wp (if b then m else n) Q E = (\<lambda>s. if b then wp m Q E s else wp n Q E s)"
  by (simp add: fun_eq_iff)

lemma wp_son [wp_rules]:
  "wp (son get put m) Q E = (\<lambda>s. wp m (\<lambda>x t. Q x (put t s)) (\<lambda>e t. E e (put t s)) (get s))"
  by (simp add: fun_eq_iff wp_def son_def split: prod.split sum.split)

lemma wp_mono:
  "wp m Q E s \<Longrightarrow> (\<And>x t. Q x t \<Longrightarrow> Q' x t) \<Longrightarrow> (\<And>e t. E e t \<Longrightarrow> E' e t) \<Longrightarrow> wp m Q' E' s"
  by (auto simp: wp_def split: prod.splits sum.splits)

lemma wp_conj:
  "wp m Q E s \<Longrightarrow> wp m Q' E' s \<Longrightarrow> wp m (\<lambda>x t. Q x t \<and> Q' x t) (\<lambda>e t. E e t \<and> E' e t) s"
  by (auto simp: wp_def split: prod.splits sum.splits)

lemma wp_Inr: "m s = (Inr x, t) \<Longrightarrow> wp m Q E s \<Longrightarrow> Q x t"
  by (simp add: wp_def)

lemma wp_Inl: "m s = (Inl e, t) \<Longrightarrow> wp m Q E s \<Longrightarrow> E e t"
  by (simp add: wp_def)

lemma wp_True [simp]: "wp m (\<lambda>_ _. True) (\<lambda>_ _. True) s"
  by (simp add: wp_def split: prod.split sum.split)

lemma wp_sfor:
  assumes "\<And>i s. i \<in> set is \<Longrightarrow> I s \<Longrightarrow> wp (f i) (\<lambda>_. I) E s" and "I s"
  shows "wp (sfor is f) (\<lambda>_. I) E s"
  using assms
proof (induction "is" arbitrary: s)
  case (Cons i "is")
  have "wp (f i) (\<lambda>_. I) E s" using Cons.prems by simp
  then have "wp (f i) (\<lambda>_. wp (sfor is f) (\<lambda>_. I) E) E s"
    by (rule wp_mono) (use Cons in auto)
  then show ?case by (simp add: wp_rules)
qed (simp add: wp_rules)

section \<open>What an action leaves alone\<close>

text \<open>
  A predicate an action keeps, however it ends. A predicate kept by the parts of an action is kept
  by the whole.
\<close>

definition keeps :: "('s \<Rightarrow> bool) \<Rightarrow> ('s, 'a) action \<Rightarrow> bool" where
  "keeps P m \<longleftrightarrow> (\<forall>s. P s \<longrightarrow> wp m (\<lambda>_. P) (\<lambda>_. P) s)"

named_theorems keeps_rules \<open>actions that keep a predicate\<close>

lemma keepsI: "(\<And>s. P s \<Longrightarrow> wp m (\<lambda>_. P) (\<lambda>_. P) s) \<Longrightarrow> keeps P m"
  by (simp add: keeps_def)

lemma keepsD: "keeps P m \<Longrightarrow> P s \<Longrightarrow> P (snd (m s))"
  by (cases "m s"; cases "fst (m s)") (auto simp: keeps_def wp_def)

lemma keeps_wp: "keeps P m \<Longrightarrow> P s \<Longrightarrow> wp m (\<lambda>_. P) (\<lambda>_. P) s"
  by (simp add: keeps_def)

lemma keeps_sret [keeps_rules]: "keeps P (sret x)"
  by (simp add: keeps_def wp_rules)

lemma keeps_sthrow [keeps_rules]: "keeps P (sthrow e)"
  by (simp add: keeps_def wp_rules)

lemma keeps_sgets [keeps_rules]: "keeps P (sgets f)"
  by (simp add: keeps_def wp_rules)

lemma keeps_sreturn [keeps_rules]: "keeps P (sreturn r)"
  by (simp add: keeps_def wp_rules split: sum.split)

lemma keeps_smodify [keeps_rules]: "(\<And>s. P s \<Longrightarrow> P (f s)) \<Longrightarrow> keeps P (smodify f)"
  by (simp add: keeps_def wp_rules)

lemma keeps_sbind [keeps_rules]: "keeps P m \<Longrightarrow> (\<And>x. keeps P (f x)) \<Longrightarrow> keeps P (sbind m f)"
  unfolding keeps_def wp_rules by (blast intro: wp_mono)

lemma keeps_sthen [keeps_rules]: "keeps P m \<Longrightarrow> keeps P n \<Longrightarrow> keeps P (sthen m n)"
  unfolding sthen_def by (rule keeps_sbind)

lemma keeps_scatch [keeps_rules]: "keeps P m \<Longrightarrow> (\<And>e. keeps P (h e)) \<Longrightarrow> keeps P (scatch m h)"
  unfolding keeps_def wp_rules by (blast intro: wp_mono)

lemma keeps_swhen [keeps_rules]: "(b \<Longrightarrow> keeps P m) \<Longrightarrow> keeps P (swhen b m)"
  by (simp add: swhen_def keeps_sret)

lemma keeps_if [keeps_rules]: "(b \<Longrightarrow> keeps P m) \<Longrightarrow> (\<not> b \<Longrightarrow> keeps P n) \<Longrightarrow> keeps P (if b then m else n)"
  by simp

lemma keeps_case_option [keeps_rules]:
  "(x = None \<Longrightarrow> keeps P m) \<Longrightarrow> (\<And>y. x = Some y \<Longrightarrow> keeps P (n y)) \<Longrightarrow>
   keeps P (case x of None \<Rightarrow> m | Some y \<Rightarrow> n y)"
  by (simp split: option.split)

lemma keeps_case_prod [keeps_rules]: "(\<And>a b. x = (a, b) \<Longrightarrow> keeps P (m a b)) \<Longrightarrow> keeps P (case x of (a, b) \<Rightarrow> m a b)"
  by (simp split: prod.split)

lemma keeps_Let [keeps_rules]: "keeps P (f x) \<Longrightarrow> keeps P (Let x f)"
  by simp

lemma keeps_sfor [keeps_rules]: "(\<And>i. keeps P (f i)) \<Longrightarrow> keeps P (sfor is f)"
  by (induction "is") (simp_all add: keeps_rules)

lemma keeps_son: "(\<And>s. keeps (\<lambda>t. P (put t s)) m) \<Longrightarrow> (\<And>s. P s \<Longrightarrow> P (put (get s) s)) \<Longrightarrow> keeps P (son get put m)"
  unfolding keeps_def wp_rules by blast

text \<open>Rules that remember what was read, and what an action returned.\<close>

lemma keeps_read: "(\<And>s. P s \<Longrightarrow> keeps P (k (f s))) \<Longrightarrow> keeps P (sbind (sgets f) k)"
  by (simp add: keeps_def wp_rules)

lemma keeps_result:
  assumes "\<And>s. P s \<Longrightarrow> wp m (\<lambda>x t. P t \<and> R x) (\<lambda>_. P) s" and "\<And>x. R x \<Longrightarrow> keeps P (k x)"
  shows "keeps P (sbind m k)"
  unfolding keeps_def wp_sbind
proof (intro allI impI)
  fix s assume "P s"
  from assms(1) [OF this] show "wp m (\<lambda>x. wp (k x) (\<lambda>_. P) (\<lambda>_. P)) (\<lambda>_. P) s"
    by (rule wp_mono) (use assms(2) in \<open>auto simp: keeps_def\<close>)
qed

text \<open>What holds whenever an action returns, from any state.\<close>

definition returns_in :: "('s \<Rightarrow> bool) \<Rightarrow> ('s, 'a) action \<Rightarrow> bool" where
  "returns_in Q m \<longleftrightarrow> (\<forall>s. wp m (\<lambda>_. Q) (\<lambda>_ _. True) s)"

lemma returns_in_sthrow: "returns_in Q (sthrow e)"
  by (simp add: returns_in_def wp_rules)

lemma returns_in_sbind: "(\<And>x. returns_in Q (f x)) \<Longrightarrow> returns_in Q (sbind m f)"
  unfolding returns_in_def wp_rules by (blast intro: wp_mono wp_True)

lemma returns_in_sthen: "returns_in Q n \<Longrightarrow> returns_in Q (sthen m n)"
  unfolding sthen_def by (rule returns_in_sbind)

lemma returns_in_if: "(b \<Longrightarrow> returns_in Q m) \<Longrightarrow> (\<not> b \<Longrightarrow> returns_in Q n) \<Longrightarrow> returns_in Q (if b then m else n)"
  by simp

lemma returns_in_case_prod: "(\<And>a b. returns_in Q (m a b)) \<Longrightarrow> returns_in Q (case x of (a, b) \<Rightarrow> m a b)"
  by (simp split: prod.split)

lemma returns_in_smodify: "(\<And>s. Q (f s)) \<Longrightarrow> returns_in Q (smodify f)"
  by (simp add: returns_in_def wp_rules)

lemmas returns_in_rules =
  returns_in_sthrow returns_in_sbind returns_in_sthen returns_in_if returns_in_case_prod returns_in_smodify

lemma returns_in_then_keeps: "returns_in Q m \<Longrightarrow> keeps Q k \<Longrightarrow> returns_in Q (sthen m k)"
  unfolding returns_in_def wp_rules by (blast intro: wp_mono dest: keeps_wp)

lemma wp_returns_in: "returns_in Q m \<Longrightarrow> wp m (\<lambda>_. Q) (\<lambda>_ _. True) s"
  by (simp add: returns_in_def)

end
