(* ===== verification/Panda_Usb.thy ===== *)
theory Panda_Usb
  imports Panda_Protocol Effects
begin

text \<open>
  The USB driver object (\<open>src/panda_usb.cpp\<close>, \<open>include/ioniq5_ecan/panda_usb.hpp\<close>): the session
  with the adapter, its control requests, the health report, reception and transmission. libusb and
  the device behind it are a parameter: \<open>'d usb\<close> has one operation per libusb call (and the clock),
  each a function of the device world \<open>'d\<close>. Statuses are the integers libusb returns.
\<close>

section \<open>Constants\<close>

definition kVendorOut :: u8 where "kVendorOut = 0x40"
definition kVendorIn :: u8 where "kVendorIn = 0xC0"

definition kSafetySilent :: u16 where "kSafetySilent = 0"
definition kSafetyElm327 :: u16 where "kSafetyElm327 = 3"
definition kSafetyNoOutput :: u16 where "kSafetyNoOutput = 19"
definition kSafetyHyundaiCanFd :: u16 where "kSafetyHyundaiCanFd = 28"
definition kElm327EcanParam :: u16 where "kElm327EcanParam = 1"
definition kHyundaiEv :: u16 where "kHyundaiEv = 1"
definition kHyundaiLongitudinal :: u16 where "kHyundaiLongitudinal = 4"
definition kHyundaiAlternateButtons :: u16 where "kHyundaiAlternateButtons = 32"
definition kHyundaiSplitButtonArm :: u16 where "kHyundaiSplitButtonArm = 1024"
definition kHyundaiEcanOnly :: u16 where "kHyundaiEcanOnly = 2048"
definition kHyundaiCommandSession :: u16 where "kHyundaiCommandSession = 4096"
definition kEcanOnlyIgnoredFaults :: u32 where
  "kEcanOnlyIgnoredFaults = push_bit 3 1 OR push_bit 4 1"
definition kIoniq5Hda1PassiveParam :: u16 where
  "kIoniq5Hda1PassiveParam = kHyundaiEv OR kHyundaiSplitButtonArm OR kHyundaiEcanOnly"
definition kIoniq5Hda1LongParam :: u16 where
  "kIoniq5Hda1LongParam = kHyundaiEv OR kHyundaiLongitudinal OR kHyundaiSplitButtonArm OR kHyundaiEcanOnly"
definition kPinnedHealthPacketVersion :: u32 where "kPinnedHealthPacketVersion = 0x290DAE03"
definition kPinnedCanPacketVersion :: u32 where "kPinnedCanPacketVersion = 0x75ABF276"
definition kRedPandaHardwareType :: u8 where "kRedPandaHardwareType = 0x07"

lemmas safety_mode_defs = kSafetySilent_def kSafetyElm327_def kSafetyNoOutput_def kSafetyHyundaiCanFd_def

section \<open>The device\<close>

text \<open>A device of the list: the ids of its descriptor, where libusb can read it.\<close>

record usb_device =
  ud_descriptor :: "(u16 \<times> u16 \<times> u8) option"
  ud_number :: nat

record 'd usb =
  us_names :: libusb
  us_init :: "'d \<Rightarrow> int \<times> 'd"
  us_exit :: "'d \<Rightarrow> 'd"
  us_devices :: "'d \<Rightarrow> usb_device list option \<times> 'd"
  us_open :: "usb_device \<Rightarrow> 'd \<Rightarrow> nat option \<times> 'd"
  us_string :: "nat \<Rightarrow> u8 \<Rightarrow> 'd \<Rightarrow> string option \<times> 'd"
  us_close :: "nat \<Rightarrow> 'd \<Rightarrow> 'd"
  us_auto_detach :: "nat \<Rightarrow> 'd \<Rightarrow> 'd"
  us_claim :: "nat \<Rightarrow> 'd \<Rightarrow> int \<times> 'd"
  us_release :: "nat \<Rightarrow> 'd \<Rightarrow> 'd"
  us_control :: "nat \<Rightarrow> u8 \<Rightarrow> u8 \<Rightarrow> u16 \<Rightarrow> u16 \<Rightarrow> nat \<Rightarrow> 'd \<Rightarrow> (int \<times> bytes) \<times> 'd"
  us_bulk_write :: "nat \<Rightarrow> bytes \<Rightarrow> int \<Rightarrow> 'd \<Rightarrow> (int \<times> int) \<times> 'd"
  us_bulk_read :: "nat \<Rightarrow> nat \<Rightarrow> int \<Rightarrow> 'd \<Rightarrow> (int \<times> int \<times> bytes) \<times> 'd"
  us_now :: "'d \<Rightarrow> time_point \<times> 'd"

record panda_config =
  pc_command_session_param :: u16
  pc_serial :: string
  pc_nominal_bitrate_kbps :: int
  pc_data_bitrate_kbps :: int
  pc_read_timeout_ms :: int
  pc_write_timeout_ms :: int
  pc_ecan_only :: bool

definition initial_panda_config :: panda_config where
  "initial_panda_config = \<lparr>pc_command_session_param = 0, pc_serial = [], pc_nominal_bitrate_kbps = 500,
     pc_data_bitrate_kbps = 2000, pc_read_timeout_ms = 20, pc_write_timeout_ms = 10, pc_ecan_only = True\<rparr>"

text \<open>The driver object with the device it drives.\<close>

record 'd panda =
  pu_config :: panda_config
  pu_context :: bool
  pu_handle :: "nat option"
  pu_handle_open :: bool
  pu_ready :: bool
  pu_serial :: string
  pu_receive_carry :: bytes
  pu_transmit_buffer :: bytes
  pu_device :: 'd

definition make_panda :: "panda_config \<Rightarrow> 'd \<Rightarrow> 'd panda" where
  "make_panda config d = \<lparr>pu_config = config, pu_context = False, pu_handle = None, pu_handle_open = False,
     pu_ready = False, pu_serial = [], pu_receive_carry = [], pu_transmit_buffer = [], pu_device = d\<rparr>"

text \<open>A libusb call with a result, and one without.\<close>

definition usb_call :: "('d \<Rightarrow> 'a \<times> 'd) \<Rightarrow> ('d panda, 'a) action" where
  "usb_call f p = (case f (pu_device p) of (x, d) \<Rightarrow> (Inr x, p\<lparr>pu_device := d\<rparr>))"

definition usb_do :: "('d \<Rightarrow> 'd) \<Rightarrow> ('d panda, unit) action" where
  "usb_do f = smodify (\<lambda>p. p\<lparr>pu_device := f (pu_device p)\<rparr>)"

definition connected :: "'d panda \<Rightarrow> bool" where
  "connected p = pu_ready p"

section \<open>Control requests\<close>

text \<open>The open handle, or the exception.\<close>

definition ensure_connected :: "('d panda, nat) action" where
  "ensure_connected =
     sbind (sgets (\<lambda>p. if pu_handle_open p then pu_handle p else None)) (\<lambda>h.
       case h of None \<Rightarrow> sthrow (Runtime_error ''Red Panda is not connected'') | Some h \<Rightarrow> sret h)"

definition control_write :: "'d usb \<Rightarrow> u8 \<Rightarrow> u16 \<Rightarrow> u16 \<Rightarrow> ('d panda, unit) action" where
  "control_write u request val index =
     sbind ensure_connected (\<lambda>h.
     sbind (usb_call (us_control u h kVendorOut request val index 0)) (\<lambda>(status, _).
     swhen (status < 0)
       (sthen (smodify (\<lambda>p. p\<lparr>pu_ready := False\<rparr>))
         (sthrow (Runtime_error (''Red Panda control write failed: '' @ lu_error_name (us_names u) status))))))"

text \<open>The status with the bytes it brought: \<open>size\<close> of them, zeros where the transfer was shorter.\<close>

definition control_read :: "'d usb \<Rightarrow> u8 \<Rightarrow> u16 \<Rightarrow> u16 \<Rightarrow> nat \<Rightarrow> ('d panda, int \<times> bytes) action" where
  "control_read u request val index n =
     sbind ensure_connected (\<lambda>h.
     sbind (usb_call (us_control u h kVendorIn request val index n)) (\<lambda>(status, data).
     if status < 0 then
       sthen (smodify (\<lambda>p. p\<lparr>pu_ready := False\<rparr>))
         (sthrow (Runtime_error (''Red Panda control read failed: '' @ lu_error_name (us_names u) status)))
     else sret (status, take n (data @ replicate n 0))))"

text \<open>\<open>config_.nominal_bitrate_kbps * 10\<close> cut to 16 bits.\<close>

definition configure_can :: "'d usb \<Rightarrow> ('d panda, unit) action" where
  "configure_can u =
     sbind (sgets pu_config) (\<lambda>c.
     let bus_count = (if pc_ecan_only c then 1 else 3) in
     sfor [0..<bus_count] (\<lambda>bus.
       sthen (control_write u 0xDE (word_of_nat bus) (word_of_int (pc_nominal_bitrate_kbps c * 10)))
       (sthen (control_write u 0xF9 (word_of_nat bus) (word_of_int (pc_data_bitrate_kbps c * 10)))
              (control_write u 0xE8 (word_of_nat bus) 1))))"

definition set_safety_mode :: "'d usb \<Rightarrow> u16 \<Rightarrow> u16 \<Rightarrow> ('d panda, unit) action" where
  "set_safety_mode u mode param =
     (if mode = 17 then sthrow (Invalid_argument ''SAFETY_ALLOUTPUT is forbidden by this driver'')
      else control_write u 0xDC mode param)"

definition send_heartbeat :: "'d usb \<Rightarrow> bool \<Rightarrow> ('d panda, unit) action" where
  "send_heartbeat u engaged = control_write u 0xF3 (if engaged then 1 else 0) 0"

definition drop_longitudinal_permission :: "'d usb \<Rightarrow> ('d panda, unit) action" where
  "drop_longitudinal_permission u = control_write u 0xB8 1 0"

section \<open>Health\<close>

text \<open>The two packed structures: their fields in order, with their widths in bytes.\<close>

type_synonym layout = "(string \<times> nat) list"

definition health_layout :: layout where
  "health_layout =
     [(''uptime'', 4), (''voltage'', 4), (''current'', 4), (''safety_tx_blocked'', 4),
      (''safety_rx_invalid'', 4), (''tx_buffer_overflow'', 4), (''rx_buffer_overflow'', 4),
      (''faults'', 4), (''ignition_line'', 1), (''ignition_can'', 1), (''controls_allowed'', 1),
      (''harness_status'', 1), (''safety_mode'', 1), (''safety_param'', 2), (''fault_status'', 1),
      (''power_save_enabled'', 1), (''heartbeat_lost'', 1), (''alternative_experience'', 2),
      (''interrupt_load'', 4), (''fan_power'', 1), (''safety_rx_checks_invalid'', 1),
      (''spi_error_count'', 2), (''sbu1_voltage_mv'', 2), (''sbu2_voltage_mv'', 2),
      (''som_reset_triggered'', 1), (''sound_output_level'', 2), (''temperature'', 4)]"

definition can_health_layout :: layout where
  "can_health_layout =
     [(''bus_off'', 1), (''bus_off_count'', 4), (''error_warning'', 1), (''error_passive'', 1),
      (''last_error'', 1), (''last_stored_error'', 1), (''last_data_error'', 1),
      (''last_data_stored_error'', 1), (''receive_error_count'', 1), (''transmit_error_count'', 1),
      (''total_error_count'', 4), (''total_tx_lost_count'', 4), (''total_rx_lost_count'', 4),
      (''total_tx_count'', 4), (''total_rx_count'', 4), (''total_forwarded_count'', 4),
      (''total_tx_checksum_error_count'', 4), (''can_speed'', 2), (''can_data_speed'', 2),
      (''canfd_enabled'', 1), (''brs_enabled'', 1), (''canfd_non_iso'', 1),
      (''irq0_call_rate'', 4), (''irq1_call_rate'', 4), (''irq2_call_rate'', 4),
      (''can_core_reset_count'', 4)]"

definition layout_size :: "layout \<Rightarrow> nat" where
  "layout_size l = sum_list (map snd l)"

text \<open>The offset of a field: the widths of the fields before it.\<close>

definition offset_of :: "layout \<Rightarrow> string \<Rightarrow> nat" where
  "offset_of l name = layout_size (takeWhile (\<lambda>f. fst f \<noteq> name) l)"

text \<open>The two \<open>static_assert\<close>s.\<close>

lemma layout_sizes [simp]: "layout_size health_layout = 63" "layout_size can_health_layout = 64"
  by (simp_all add: layout_size_def health_layout_def can_health_layout_def)

text \<open>A little-endian field of a packed structure.\<close>

definition u16_at :: "bytes \<Rightarrow> nat \<Rightarrow> u16" where
  "u16_at d i = ucast (d ! i) OR push_bit 8 (ucast (d ! (i + 1)))"

definition u32_at :: "bytes \<Rightarrow> nat \<Rightarrow> u32" where
  "u32_at d i = ((ucast (d ! i) OR push_bit 8 (ucast (d ! (i + 1)))) OR push_bit 16 (ucast (d ! (i + 2))))
     OR push_bit 24 (ucast (d ! (i + 3)))"

definition decode_health :: "panda_config \<Rightarrow> bytes \<Rightarrow> panda_health" where
  "decode_health c d =
     (let u8_of = (\<lambda>name. d ! offset_of health_layout name);
          u32_of = (\<lambda>name. u32_at d (offset_of health_layout name))
      in initial_health
     \<lparr>ph_connected := True,
      ph_ignition_on := u8_of ''ignition_line'' \<noteq> 0 \<or> u8_of ''ignition_can'' \<noteq> 0,
      ph_controls_allowed := u8_of ''controls_allowed'' \<noteq> 0,
      ph_heartbeat_lost := u8_of ''heartbeat_lost'' \<noteq> 0,
      ph_safety_rx_checks_invalid := u8_of ''safety_rx_checks_invalid'' \<noteq> 0,
      ph_faults := u32_of ''faults'',
      ph_ignored_faults := (if pc_ecan_only c then kEcanOnlyIgnoredFaults else 0),
      ph_fault_status := u8_of ''fault_status'',
      ph_harness_status := u8_of ''harness_status'',
      ph_safety_mode := u8_of ''safety_mode'',
      ph_safety_param := u16_at d (offset_of health_layout ''safety_param''),
      ph_safety_tx_blocked := u32_of ''safety_tx_blocked'',
      ph_safety_rx_invalid := u32_of ''safety_rx_invalid'',
      ph_tx_buffer_overflow := u32_of ''tx_buffer_overflow'',
      ph_rx_buffer_overflow := u32_of ''rx_buffer_overflow''\<rparr>)"

text \<open>The command-session status: two words, the first a constant, the second flags.\<close>

definition decode_session :: "u32 \<Rightarrow> panda_health \<Rightarrow> panda_health" where
  "decode_session w h = h
     \<lparr>ph_lateral_selected := w AND 1 \<noteq> 0,
      ph_longitudinal_selected := w AND 2 \<noteq> 0,
      ph_command_session_ready := w AND 4 \<noteq> 0,
      ph_command_session_blocked := w AND 8 \<noteq> 0,
      ph_command_session_active := w AND 16 \<noteq> 0\<rparr>"

definition session_magic :: u32 where
  "session_magic = 0x49355231"

definition read_session :: "'d usb \<Rightarrow> string \<Rightarrow> ('d panda, u32) action" where
  "read_session u message =
     sbind (control_read u 0xB7 0 0 8) (\<lambda>(count, session).
     if count \<noteq> 8 \<or> u32_at session 0 \<noteq> session_magic then sthrow (Runtime_error message)
     else sret (u32_at session 4))"

text \<open>The loop over the three CAN controllers; a short report is skipped, and with \<open>ecan_only\<close> only
  bus 0 counts.\<close>

fun read_bus_off :: "'d usb \<Rightarrow> bool \<Rightarrow> nat list \<Rightarrow> bool \<Rightarrow> ('d panda, bool) action" where
  "read_bus_off u ecan_only [] bus_off = sret bus_off"
| "read_bus_off u ecan_only (bus # buses) bus_off =
     sbind (control_read u 0xC2 (word_of_nat bus) 0 (layout_size can_health_layout)) (\<lambda>(count, d).
     read_bus_off u ecan_only buses
       (if count = int (layout_size can_health_layout) \<and> (\<not> ecan_only \<or> bus = 0)
        then bus_off \<or> d ! offset_of can_health_layout ''bus_off'' \<noteq> 0 \<or>
          d ! offset_of can_health_layout ''error_passive'' \<noteq> 0
        else bus_off))"

definition read_health :: "'d usb \<Rightarrow> ('d panda, panda_health) action" where
  "read_health u =
     sbind (control_read u 0xD2 0 0 (layout_size health_layout)) (\<lambda>(count, packet).
     if count \<noteq> int (layout_size health_layout)
     then sthrow (Runtime_error ''Panda health packet ABI mismatch; reflash pinned firmware'')
     else
       sbind (sgets pu_config) (\<lambda>c.
       sbind (if pc_command_session_param c \<noteq> 0
              then sbind (read_session u ''Panda command-session status mismatch'') (\<lambda>w.
                     sret (decode_session w (decode_health c packet)))
              else sret (decode_health c packet)) (\<lambda>result.
       sbind (read_bus_off u (pc_ecan_only c) [0..<3] (ph_bus_off result)) (\<lambda>bus_off.
       sbind (usb_call (us_now u)) (\<lambda>now.
       sret (result\<lparr>ph_bus_off := bus_off, ph_updated_at := now\<rparr>))))))"

section \<open>Sessions\<close>

definition disconnect :: "'d usb \<Rightarrow> ('d panda, unit) action" where
  "disconnect u =
     sbind (sgets (\<lambda>p. (pu_handle_open p, pu_handle p, pu_context p))) (\<lambda>(interface_claimed, handle, context).
     sthen (smodify (\<lambda>p. p\<lparr>pu_ready := False, pu_handle_open := False\<rparr>))
     (sthen (case handle of None \<Rightarrow> sret ()
             | Some h \<Rightarrow>
                 sthen (swhen interface_claimed (usb_do (us_release u h)))
                 (sthen (usb_do (us_close u h)) (smodify (\<lambda>p. p\<lparr>pu_handle := None\<rparr>))))
     (sthen (swhen context (sthen (usb_do (us_exit u)) (smodify (\<lambda>p. p\<lparr>pu_context := False\<rparr>))))
            (smodify (\<lambda>p. p\<lparr>pu_receive_carry := []\<rparr>)))))"

definition panda_usb_id :: "u16 \<Rightarrow> u16 \<Rightarrow> bool" where
  "panda_usb_id vendor product \<longleftrightarrow>
     (vendor = 0xBBAA \<or> vendor = 0x3801) \<and> (product = 0xDDEE \<or> product = 0xDDCC)"

definition usb_serial :: "'d usb \<Rightarrow> nat \<Rightarrow> u8 \<Rightarrow> ('d panda, string) action" where
  "usb_serial u handle index =
     (if index = 0 then sret []
      else sbind (usb_call (us_string u handle index)) (\<lambda>s. sret (case s of Some t \<Rightarrow> t | None \<Rightarrow> [])))"

text \<open>The loop over the devices: the first Panda that opens and has the wanted serial number.\<close>

fun find_device :: "'d usb \<Rightarrow> string \<Rightarrow> usb_device list \<Rightarrow> ('d panda, (nat \<times> string) option) action" where
  "find_device u serial [] = sret None"
| "find_device u serial (d # ds) =
     (case ud_descriptor d of None \<Rightarrow> find_device u serial ds
      | Some (vendor, product, index) \<Rightarrow>
          if \<not> panda_usb_id vendor product then find_device u serial ds
          else
            sbind (usb_call (us_open u d)) (\<lambda>candidate.
            case candidate of None \<Rightarrow> find_device u serial ds
            | Some h \<Rightarrow>
                sbind (usb_serial u h index) (\<lambda>candidate_serial.
                if serial \<noteq> [] \<and> candidate_serial \<noteq> serial
                then sthen (usb_do (us_close u h)) (find_device u serial ds)
                else sret (Some (h, candidate_serial)))))"

definition bulk_capacity :: nat where
  "bulk_capacity = 16384"

text \<open>The drain of the startup stream. The clock is read where the code reads it; \<open>fuel\<close> bounds the
  number of reads.\<close>

fun drain_loop :: "'d usb \<Rightarrow> nat \<Rightarrow> nat \<Rightarrow> time_point \<Rightarrow> time_point \<Rightarrow> ('d panda, unit) action" where
  "drain_loop u h 0 deadline heartbeat_due = sthrow Budget_exhausted"
| "drain_loop u h (Suc fuel) deadline heartbeat_due =
     sbind (usb_call (us_now u)) (\<lambda>now.
     if \<not> now < deadline
     then sthrow (Runtime_error ''Red Panda initial CAN stream did not reach a packet boundary'')
     else
       sbind (usb_call (us_now u)) (\<lambda>t.
       sbind (if heartbeat_due \<le> t
              then sthen (send_heartbeat u False) (sbind (usb_call (us_now u)) (\<lambda>t. sret (t + ms 200)))
              else sret heartbeat_due) (\<lambda>heartbeat_due.
       sbind (usb_call (us_bulk_read u h bulk_capacity 100)) (\<lambda>(status, transferred, data).
       sbind (sreturn (initial_receive_boundary (us_names u) bulk_capacity status transferred)) (\<lambda>boundary.
       if boundary then smodify (\<lambda>p. p\<lparr>pu_receive_carry := []\<rparr>)
       else drain_loop u h fuel deadline heartbeat_due)))))"

definition synchronize_can_receive :: "'d usb \<Rightarrow> nat \<Rightarrow> nat \<Rightarrow> ('d panda, unit) action" where
  "synchronize_can_receive u h fuel =
     sbind (usb_call (us_now u)) (\<lambda>t1.
     sbind (usb_call (us_now u)) (\<lambda>t2. drain_loop u h fuel (t1 + seconds 2) t2))"

text \<open>What a fresh session must pass before the driver counts as ready.\<close>

definition start_session :: "'d usb \<Rightarrow> nat \<Rightarrow> nat \<Rightarrow> ('d panda, unit) action" where
  "start_session u h fuel =
     sthen (control_write u 0xC0 0 0)
     (sbind (control_read u 0xDD 0 0 8) (\<lambda>(count, versions).
      if count \<noteq> 8 \<or> u32_at versions 0 \<noteq> kPinnedHealthPacketVersion \<or>
         u32_at versions 4 \<noteq> kPinnedCanPacketVersion
      then sthrow (Runtime_error ''Panda protocol version mismatch; flash the pinned firmware'')
      else
      sbind (control_read u 0xC1 0 0 1) (\<lambda>(count, hardware).
      if count \<noteq> 1 \<or> hardware ! 0 \<noteq> kRedPandaHardwareType
      then sthrow (Runtime_error ''connected Panda is not a Red Panda'')
      else
      sthen (control_write u 0xE7 0 0)
      (sthen (configure_can u)
      (sthen (set_safety_mode u kSafetyNoOutput 0)
      (sthen (synchronize_can_receive u h fuel)
      (sbind (sgets (\<lambda>p. pc_command_session_param (pu_config p))) (\<lambda>param.
       sthen (swhen (param \<noteq> 0)
         (sthen (sbind (read_session u ''Panda lacks Ioniq5 command-session firmware; flash the tested image'')
                  (\<lambda>_. sret ()))
                (set_safety_mode u kSafetyNoOutput param)))
       (sthen (send_heartbeat u False)
              (smodify (\<lambda>p. p\<lparr>pu_ready := True\<rparr>)))))))))))"

text \<open>The steps of \<open>connect\<close> once a device is chosen.\<close>

definition attach :: "'d usb \<Rightarrow> nat \<Rightarrow> nat \<Rightarrow> string \<Rightarrow> ('d panda, unit) action" where
  "attach u fuel h candidate_serial =
     sthen (smodify (\<lambda>p. p\<lparr>pu_handle := Some h, pu_serial := candidate_serial\<rparr>))
     (sthen (usb_do (us_auto_detach u h))
     (sbind (usb_call (us_claim u h)) (\<lambda>status.
      if status \<noteq> 0
      then sthen (disconnect u)
        (sthrow (Runtime_error ''failed to claim Red Panda USB interface; check udev rules''))
      else
        sthen (smodify (\<lambda>p. p\<lparr>pu_handle_open := True, pu_receive_carry := []\<rparr>))
        (scatch (start_session u h fuel)
           (\<lambda>e. sthen (disconnect u) (sthrow e))))))"

definition open_session :: "'d usb \<Rightarrow> nat \<Rightarrow> ('d panda, unit) action" where
  "open_session u fuel =
     sbind (usb_call (us_init u)) (\<lambda>status.
     if status \<noteq> 0 then sthrow (Runtime_error ''libusb initialization failed'')
     else
       sthen (smodify (\<lambda>p. p\<lparr>pu_context := True\<rparr>))
       (sbind (usb_call (us_devices u)) (\<lambda>devices.
        case devices of
          None \<Rightarrow> sthen (disconnect u) (sthrow (Runtime_error ''failed to enumerate USB devices''))
        | Some ds \<Rightarrow>
            sbind (sgets (\<lambda>p. pc_serial (pu_config p))) (\<lambda>serial.
            sbind (find_device u serial ds) (\<lambda>found.
            case found of
              None \<Rightarrow> sthen (disconnect u) (sthrow (Runtime_error ''requested Red Panda was not found''))
            | Some (h, candidate_serial) \<Rightarrow> attach u fuel h candidate_serial)))))"

definition connect :: "'d usb \<Rightarrow> nat \<Rightarrow> ('d panda, unit) action" where
  "connect u fuel =
     sbind (sgets connected) (\<lambda>already.
     if already then sret () else sthen (disconnect u) (open_session u fuel))"

section \<open>Reception and transmission\<close>

definition receive :: "'d usb \<Rightarrow> ('d panda, can_frame list) action" where
  "receive u =
     sbind ensure_connected (\<lambda>h.
     sbind (sgets (\<lambda>p. pc_read_timeout_ms (pu_config p))) (\<lambda>timeout.
     sbind (usb_call (us_bulk_read u h bulk_capacity timeout)) (\<lambda>(status, transferred, data).
     sthen (swhen (status \<noteq> 0 \<and> status \<noteq> lu_error_timeout (us_names u)) (smodify (\<lambda>p. p\<lparr>pu_ready := False\<rparr>)))
     (sbind (usb_call (us_now u)) (\<lambda>now.
      sbind (sgets (\<lambda>p. decode_bulk_read (us_names u) (pu_receive_carry p)
               (take bulk_capacity (data @ replicate bulk_capacity 0)) status transferred now)) (\<lambda>(result, carry).
      sthen (smodify (\<lambda>p. p\<lparr>pu_receive_carry := carry\<rparr>)) (sreturn result)))))))"

function send_loop :: "'d usb \<Rightarrow> nat \<Rightarrow> int \<Rightarrow> bytes \<Rightarrow> nat \<Rightarrow> ('d panda, unit) action" where
  "send_loop u h timeout buffer position =
     (if position < length buffer then
        sbind (usb_call (us_bulk_write u h (drop position buffer) timeout)) (\<lambda>(status, transferred).
        if status \<noteq> 0 \<or> transferred \<le> 0 then
          sthen (swhen (status \<noteq> lu_error_timeout (us_names u)) (smodify (\<lambda>p. p\<lparr>pu_ready := False\<rparr>)))
            (sthrow (Runtime_error (''Red Panda CAN write failed: '' @ lu_error_name (us_names u) status)))
        else send_loop u h timeout buffer (position + nat transferred))
      else sret ())"
  by pat_completeness auto

termination
  by (relation "measure (\<lambda>(u, h, timeout, buffer, position). length buffer - position)") auto

declare send_loop.simps [simp del]

definition send :: "'d usb \<Rightarrow> can_frame list \<Rightarrow> ('d panda, unit) action" where
  "send u frames =
     sbind ensure_connected (\<lambda>h.
     if frames = [] then sret ()
     else
       sbind ensure_connected (\<lambda>h.
       case pack_frames_into frames of (r, packed) \<Rightarrow>
       sthen (smodify (\<lambda>p. p\<lparr>pu_transmit_buffer := packed\<rparr>))
       (sthen (sreturn r)
       (sbind (sgets (\<lambda>p. pc_write_timeout_ms (pu_config p))) (\<lambda>timeout.
        send_loop u h timeout packed 0)))))"

end
