(* ===== verification/Usb_Properties.thy ===== *)
theory Usb_Properties
  imports Panda_Usb "HOL-Library.Multiset"
begin

text \<open>
  What the USB driver guarantees of the device, for any libusb: the all-output safety mode is never
  requested; a connection attempt ends either ready or with everything released; a send that
  returns has delivered exactly the packed bytes; the drain of the startup stream ends.
\<close>

section \<open>The forbidden safety mode\<close>

text \<open>
  A predicate of the device world that every libusb call keeps, except possibly the request that
  selects safety mode 17.
\<close>

definition kept_without_alloutput :: "'d usb \<Rightarrow> ('d \<Rightarrow> bool) \<Rightarrow> bool" where
  "kept_without_alloutput u P \<longleftrightarrow>
     (\<forall>d. P d \<longrightarrow> P (snd (us_init u d)) \<and> P (us_exit u d) \<and> P (snd (us_devices u d)) \<and> P (snd (us_now u d)) \<and>
       (\<forall>x. P (snd (us_open u x d))) \<and> (\<forall>h i. P (snd (us_string u h i d))) \<and>
       (\<forall>h. P (us_close u h d) \<and> P (us_auto_detach u h d) \<and> P (snd (us_claim u h d)) \<and> P (us_release u h d)) \<and>
       (\<forall>h b t. P (snd (us_bulk_write u h b t d))) \<and> (\<forall>h n t. P (snd (us_bulk_read u h n t d))) \<and>
       (\<forall>h ty r v i n. \<not> (ty = kVendorOut \<and> r = 0xDC \<and> v = 17) \<longrightarrow> P (snd (us_control u h ty r v i n d))))"

abbreviation on_device :: "('d \<Rightarrow> bool) \<Rightarrow> 'd panda \<Rightarrow> bool" where
  "on_device P \<equiv> \<lambda>p. P (pu_device p)"

lemma keeps_usb_call: "(\<And>d. P d \<Longrightarrow> P (snd (f d))) \<Longrightarrow> keeps (on_device P) (usb_call f)"
  by (simp add: keeps_def wp_def usb_call_def split: prod.split) (metis snd_conv)

lemma keeps_usb_do: "(\<And>d. P d \<Longrightarrow> P (f d)) \<Longrightarrow> keeps (on_device P) (usb_do f)"
  by (simp add: keeps_def wp_rules usb_do_def)

lemma keeps_ensure_connected: "keeps P ensure_connected"
  unfolding ensure_connected_def by (intro keeps_rules)

lemma kept_calls:
  assumes "kept_without_alloutput u P"
  shows "keeps (on_device P) (usb_call (us_init u))" "keeps (on_device P) (usb_call (us_devices u))"
    "keeps (on_device P) (usb_call (us_now u))" "keeps (on_device P) (usb_call (us_open u x))"
    "keeps (on_device P) (usb_call (us_string u h i))" "keeps (on_device P) (usb_call (us_claim u h))"
    "keeps (on_device P) (usb_call (us_bulk_write u h b t))" "keeps (on_device P) (usb_call (us_bulk_read u h n t))"
    "keeps (on_device P) (usb_do (us_exit u))" "keeps (on_device P) (usb_do (us_close u h))"
    "keeps (on_device P) (usb_do (us_auto_detach u h))" "keeps (on_device P) (usb_do (us_release u h))"
  by ((rule keeps_usb_call keeps_usb_do, use assms in \<open>simp add: kept_without_alloutput_def\<close>)+)

text \<open>
  Inside a session the driver only sends control requests, reads the stream and the clock, and sets
  two of its fields. A predicate of the driver object that these keep, the request for mode 17 apart,
  is kept by every operation of a session.
\<close>

definition session_safe :: "'d usb \<Rightarrow> ('d panda \<Rightarrow> bool) \<Rightarrow> bool" where
  "session_safe u Q \<longleftrightarrow>
     (\<forall>p. Q p \<longrightarrow> (\<forall>b. Q (p\<lparr>pu_ready := b\<rparr>)) \<and> (\<forall>c. Q (p\<lparr>pu_receive_carry := c\<rparr>)) \<and>
       Q (p\<lparr>pu_device := snd (us_now u (pu_device p))\<rparr>) \<and>
       (\<forall>h n t. Q (p\<lparr>pu_device := snd (us_bulk_read u h n t (pu_device p))\<rparr>)) \<and>
       (\<forall>h ty r v i n. \<not> (ty = kVendorOut \<and> r = 0xDC \<and> v = 17) \<longrightarrow>
         Q (p\<lparr>pu_device := snd (us_control u h ty r v i n (pu_device p))\<rparr>)))"

lemma kept_safe: "kept_without_alloutput u P \<Longrightarrow> session_safe u (on_device P)"
  by (simp add: session_safe_def kept_without_alloutput_def)

lemma keeps_call_at: "(\<And>p. Q p \<Longrightarrow> Q (p\<lparr>pu_device := snd (f (pu_device p))\<rparr>)) \<Longrightarrow> keeps Q (usb_call f)"
  by (simp add: keeps_def wp_def usb_call_def split: prod.split) (metis snd_conv)

lemma safe_calls:
  assumes "session_safe u Q"
  shows "keeps Q (usb_call (us_now u))" "keeps Q (usb_call (us_bulk_read u h n t))"
    "keeps Q (smodify (\<lambda>p. p\<lparr>pu_ready := b\<rparr>))" "keeps Q (smodify (\<lambda>p. p\<lparr>pu_receive_carry := c\<rparr>))"
  by ((rule keeps_call_at keeps_smodify, use assms in \<open>simp add: session_safe_def\<close>)+)

lemma safe_control:
  "session_safe u Q \<Longrightarrow> \<not> (ty = kVendorOut \<and> r = 0xDC \<and> v = 17) \<Longrightarrow> keeps Q (usb_call (us_control u h ty r v i n))"
  by (rule keeps_call_at) (simp add: session_safe_def)

lemma safe_control_write: "session_safe u Q \<Longrightarrow> \<not> (r = 0xDC \<and> v = 17) \<Longrightarrow> keeps Q (control_write u r v i)"
  unfolding control_write_def
  by (intro keeps_rules keeps_ensure_connected safe_control safe_calls) simp_all

lemma safe_control_read: "session_safe u Q \<Longrightarrow> keeps Q (control_read u r v i n)"
  unfolding control_read_def
  by (intro keeps_rules keeps_ensure_connected safe_control safe_calls) (simp_all add: kVendorIn_def kVendorOut_def)

lemma safe_configure_can: "session_safe u Q \<Longrightarrow> keeps Q (configure_can u)"
  unfolding configure_can_def by (intro keeps_rules safe_control_write) simp_all

lemma safe_set_safety_mode: "session_safe u Q \<Longrightarrow> keeps Q (set_safety_mode u mode param)"
  unfolding set_safety_mode_def by (intro keeps_rules safe_control_write) simp_all

lemma safe_send_heartbeat: "session_safe u Q \<Longrightarrow> keeps Q (send_heartbeat u b)"
  unfolding send_heartbeat_def by (intro safe_control_write) simp_all

lemma safe_drop_longitudinal: "session_safe u Q \<Longrightarrow> keeps Q (drop_longitudinal_permission u)"
  unfolding drop_longitudinal_permission_def by (intro safe_control_write) simp_all

lemma safe_read_session: "session_safe u Q \<Longrightarrow> keeps Q (read_session u m)"
  unfolding read_session_def by (intro keeps_rules safe_control_read)

lemma safe_read_bus_off: "session_safe u Q \<Longrightarrow> keeps Q (read_bus_off u e buses b)"
  by (induction buses arbitrary: b) (simp_all add: keeps_sret keeps_sbind safe_control_read split: prod.split)

lemma safe_read_health: "session_safe u Q \<Longrightarrow> keeps Q (read_health u)"
  unfolding read_health_def
  by (intro keeps_rules safe_control_read safe_read_session safe_read_bus_off safe_calls)

lemma safe_drain_loop: "session_safe u Q \<Longrightarrow> keeps Q (drain_loop u h fuel deadline hb)"
proof (induction fuel arbitrary: hb)
  case (Suc fuel)
  show ?case unfolding drain_loop.simps
    by (intro keeps_sthrow keeps_sret keeps_sbind keeps_sthen keeps_if keeps_case_prod keeps_sreturn safe_calls [OF Suc(2)]
        safe_send_heartbeat [OF Suc(2)] Suc)
qed (simp add: keeps_sthrow)

lemma safe_synchronize: "session_safe u Q \<Longrightarrow> keeps Q (synchronize_can_receive u h fuel)"
  unfolding synchronize_can_receive_def by (intro keeps_rules safe_calls safe_drain_loop)

lemma safe_start_session: "session_safe u Q \<Longrightarrow> keeps Q (start_session u h fuel)"
  unfolding start_session_def
  by (intro keeps_sthrow keeps_sret keeps_sgets keeps_sbind keeps_sthen keeps_if keeps_swhen keeps_case_prod
      safe_control_write safe_control_read safe_configure_can safe_set_safety_mode safe_send_heartbeat
      safe_read_session safe_synchronize safe_calls) simp_all

lemma keeps_ready_off: "keeps (on_device P) (smodify (\<lambda>p. p\<lparr>pu_ready := b\<rparr>))"
  by (rule keeps_smodify) simp

lemmas keeps_control_write = safe_control_write [OF kept_safe]
lemmas keeps_control_read = safe_control_read [OF kept_safe]
lemmas keeps_configure_can = safe_configure_can [OF kept_safe]
lemmas keeps_set_safety_mode = safe_set_safety_mode [OF kept_safe]
lemmas keeps_send_heartbeat = safe_send_heartbeat [OF kept_safe]
lemmas keeps_drop_longitudinal = safe_drop_longitudinal [OF kept_safe]
lemmas keeps_read_health = safe_read_health [OF kept_safe]
lemmas keeps_start_session = safe_start_session [OF kept_safe]

lemma keeps_disconnect: "kept_without_alloutput u P \<Longrightarrow> keeps (on_device P) (disconnect u)"
  unfolding disconnect_def by (intro keeps_rules kept_calls) simp_all

lemma keeps_usb_serial: "kept_without_alloutput u P \<Longrightarrow> keeps (on_device P) (usb_serial u h i)"
  unfolding usb_serial_def by (intro keeps_rules kept_calls)

lemma keeps_find_device: "kept_without_alloutput u P \<Longrightarrow> keeps (on_device P) (find_device u serial ds)"
proof (induction ds)
  case (Cons d ds)
  show ?case unfolding find_device.simps
    by (intro keeps_rules kept_calls keeps_usb_serial Cons)
qed (simp add: keeps_sret)

lemma keeps_connect: "kept_without_alloutput u P \<Longrightarrow> keeps (on_device P) (connect u fuel)"
  unfolding connect_def open_session_def attach_def
  by (intro keeps_rules kept_calls keeps_disconnect keeps_find_device keeps_start_session) simp_all

lemma keeps_receive: "kept_without_alloutput u P \<Longrightarrow> keeps (on_device P) (receive u)"
  unfolding receive_def by (intro keeps_rules kept_calls keeps_ensure_connected) simp_all

lemma keeps_send_loop: "kept_without_alloutput u P \<Longrightarrow> keeps (on_device P) (send_loop u h t buffer position)"
proof (induction u h t buffer position rule: send_loop.induct)
  case (1 u h t buffer position)
  show ?case
    by (subst send_loop.simps) (intro keeps_rules kept_calls keeps_ready_off 1, (assumption | simp)+)
qed

lemma keeps_send: "kept_without_alloutput u P \<Longrightarrow> keeps (on_device P) (send u frames)"
  unfolding send_def by (intro keeps_rules kept_calls keeps_send_loop keeps_ensure_connected) simp_all

text \<open>C30: no operation of the driver ever requests the all-output safety mode of the Panda. Any predicate
  of the device that every libusb call other than that request keeps is kept by every operation,
  whether it returns or throws; in particular \<open>set_safety_mode\<close> itself refuses mode 17.\<close>

theorem never_all_output:
  assumes "kept_without_alloutput u P" and "P (pu_device p)"
  shows "P (pu_device (snd (connect u fuel p))) \<and> P (pu_device (snd (disconnect u p))) \<and>
    P (pu_device (snd (configure_can u p))) \<and> P (pu_device (snd (set_safety_mode u mode param p))) \<and>
    P (pu_device (snd (send_heartbeat u engaged p))) \<and>
    P (pu_device (snd (drop_longitudinal_permission u p))) \<and>
    P (pu_device (snd (read_health u p))) \<and> P (pu_device (snd (receive u p))) \<and>
    P (pu_device (snd (send u frames p)))"
  using keepsD [OF keeps_connect, OF assms] keepsD [OF keeps_disconnect, OF assms]
    keepsD [OF keeps_configure_can, OF assms] keepsD [OF keeps_set_safety_mode, OF assms]
    keepsD [OF keeps_send_heartbeat, OF assms] keepsD [OF keeps_drop_longitudinal, OF assms]
    keepsD [OF keeps_read_health, OF assms] keepsD [OF keeps_receive, OF assms]
    keepsD [OF keeps_send, OF assms] by blast

section \<open>Connecting\<close>

lemma wp_usb_call [wp_rules]:
  "wp (usb_call f) Q E = (\<lambda>p. Q (fst (f (pu_device p))) (p\<lparr>pu_device := snd (f (pu_device p))\<rparr>))"
  by (simp add: fun_eq_iff wp_def usb_call_def split: prod.split)

lemma wp_usb_do [wp_rules]: "wp (usb_do f) Q E = (\<lambda>p. Q () (p\<lparr>pu_device := f (pu_device p)\<rparr>))"
  by (simp add: usb_do_def wp_rules)

text \<open>
  What a process holds of libusb: contexts, open handles, and claims of the interface. The accounting
  that libusb documents: an initialisation, an open and a claim that succeed add one, the exit, the
  close and the release of it take it back, and no other call changes it. A ledger is what the process
  holds in a state of the device world.
\<close>

datatype resource = Usb_context | Usb_handle nat | Usb_claim nat

definition accounted :: "'d usb \<Rightarrow> ('d \<Rightarrow> resource multiset) \<Rightarrow> bool" where
  "accounted u ledger \<longleftrightarrow> (\<forall>d.
     ledger (snd (us_init u d)) = ledger d + (if fst (us_init u d) = 0 then {#Usb_context#} else {#}) \<and>
     ledger (us_exit u d) = ledger d - {#Usb_context#} \<and>
     (\<forall>x. ledger (snd (us_open u x d)) = ledger d + (case fst (us_open u x d) of None \<Rightarrow> {#} | Some h \<Rightarrow> {#Usb_handle h#})) \<and>
     (\<forall>h. ledger (us_close u h d) = ledger d - {#Usb_handle h#}) \<and>
     (\<forall>h. ledger (snd (us_claim u h d)) = ledger d + (if fst (us_claim u h d) = 0 then {#Usb_claim h#} else {#})) \<and>
     (\<forall>h. ledger (us_release u h d) = ledger d - {#Usb_claim h#}) \<and>
     ledger (snd (us_devices u d)) = ledger d \<and> ledger (snd (us_now u d)) = ledger d \<and>
     (\<forall>h i. ledger (snd (us_string u h i d)) = ledger d) \<and> (\<forall>h. ledger (us_auto_detach u h d) = ledger d) \<and>
     (\<forall>h ty r v i n. ledger (snd (us_control u h ty r v i n d)) = ledger d) \<and>
     (\<forall>h b t. ledger (snd (us_bulk_write u h b t d)) = ledger d) \<and>
     (\<forall>h n t. ledger (snd (us_bulk_read u h n t d)) = ledger d))"

text \<open>What the fields of the driver object say it holds; the process holds this, and \<open>base\<close> besides.\<close>

definition owned :: "'d panda \<Rightarrow> resource multiset" where
  "owned p = (if pu_context p then {#Usb_context#} else {#}) + (case pu_handle p of None \<Rightarrow> {#}
     | Some h \<Rightarrow> {#Usb_handle h#} + (if pu_handle_open p then {#Usb_claim h#} else {#}))"

definition balanced :: "('d \<Rightarrow> resource multiset) \<Rightarrow> resource multiset \<Rightarrow> 'd panda \<Rightarrow> bool" where
  "balanced ledger base p \<longleftrightarrow> ledger (pu_device p) = base + owned p"

definition released :: "'d panda \<Rightarrow> bool" where
  "released p \<longleftrightarrow> \<not> pu_ready p \<and> pu_handle p = None \<and> \<not> pu_handle_open p \<and> \<not> pu_context p \<and>
     pu_receive_carry p = []"

definition settled :: "('d \<Rightarrow> resource multiset) \<Rightarrow> resource multiset \<Rightarrow> 'd panda \<Rightarrow> bool" where
  "settled ledger base p \<longleftrightarrow> released p \<and> ledger (pu_device p) = base"

text \<open>The driver after a successful attempt.\<close>

definition attached :: "('d \<Rightarrow> resource multiset) \<Rightarrow> resource multiset \<Rightarrow> 'd panda \<Rightarrow> bool" where
  "attached ledger base p \<longleftrightarrow> pu_context p \<and> pu_handle_open p \<and> (\<exists>h. pu_handle p = Some h \<and>
     ledger (pu_device p) = base + {#Usb_context, Usb_handle h, Usb_claim h#})"

lemma attached_balanced: "attached ledger base p \<Longrightarrow> balanced ledger base p"
  by (auto simp: attached_def balanced_def owned_def)

lemma wp_disconnect:
  assumes "accounted u ledger" and "balanced ledger base p"
  shows "wp (disconnect u) (\<lambda>_. settled ledger base) (\<lambda>_ _. False) p"
  using assms
  by (cases "pu_handle p")
    (auto simp: disconnect_def wp_rules settled_def released_def balanced_def owned_def accounted_def)

lemma disconnect_releases: "wp (disconnect u) (\<lambda>_. released) (\<lambda>_ _. False) p"
  by (cases "pu_handle p") (simp_all add: disconnect_def wp_rules released_def)

lemma wp_disconnect_throw:
  assumes "accounted u ledger" and "balanced ledger base p"
  shows "wp (sthen (disconnect u) (sthrow e)) Q (\<lambda>_. settled ledger base) p"
  unfolding wp_sthen wp_sthrow by (rule wp_mono [OF wp_disconnect [OF assms]]) simp_all

lemma start_session_ready: "returns_in pu_ready (start_session u h fuel)"
  unfolding start_session_def by (intro returns_in_rules) simp

lemma safe_attached: "accounted u ledger \<Longrightarrow> session_safe u (attached ledger base)"
  by (auto simp: session_safe_def attached_def accounted_def)

lemma wp_attach:
  assumes "accounted u ledger" and "pu_context p" and "\<not> pu_handle_open p"
    and "ledger (pu_device p) = base + {#Usb_context, Usb_handle h#}"
  shows "wp (attach u fuel h n) (\<lambda>_ q. pu_ready q \<and> attached ledger base q) (\<lambda>_. settled ledger base) p"
proof -
  have session: "wp (scatch (start_session u h fuel) (\<lambda>e. sthen (disconnect u) (sthrow e)))
      (\<lambda>_ q. pu_ready q \<and> attached ledger base q) (\<lambda>_. settled ledger base) q" if "attached ledger base q" for q
    unfolding wp_scatch
    using wp_conj [OF wp_returns_in [OF start_session_ready] keeps_wp [OF safe_start_session [OF safe_attached [OF assms(1)]] that]]
    by (rule wp_mono) (simp_all add: wp_disconnect_throw [OF assms(1)] attached_balanced)
  let ?claimed = "us_claim u h (us_auto_detach u h (pu_device p))"
  show ?thesis
    unfolding attach_def wp_sthen [of "smodify f" for f] wp_sthen [of "usb_do f" for f] wp_sbind wp_if
    by (simp add: wp_smodify wp_usb_do wp_usb_call, intro conjI impI session wp_disconnect_throw [OF assms(1)])
      (use assms in \<open>simp_all add: attached_def balanced_def owned_def accounted_def\<close>)
qed

text \<open>The search opens and closes candidates; it throws nothing, and keeps open at most the one it returns.\<close>

lemma wp_find_device:
  assumes "accounted u ledger" and "\<And>x d. ledger d = ledger (pu_device p) + (case x of None \<Rightarrow> {#} | Some (h, n) \<Rightarrow> {#Usb_handle h#}) \<Longrightarrow>
    Q x (p\<lparr>pu_device := d\<rparr>)"
  shows "wp (find_device u serial ds) Q E p"
  using assms(2)
proof (induction ds arbitrary: p)
  case Nil
  from Nil [of "pu_device p" None] show ?case by (simp add: wp_rules)
next
  case (Cons x ds)
  have skip: "wp (find_device u serial ds) Q E (p\<lparr>pu_device := d\<rparr>)" if "ledger d = ledger (pu_device p)" for d
    by (rule Cons.IH) (use Cons.prems that in simp)
  have here: "wp (find_device u serial ds) Q E p" using skip [of "pu_device p"] by simp
  have found: "Q (Some (h, n)) (p\<lparr>pu_device := d\<rparr>)" if "ledger d = ledger (pu_device p) + {#Usb_handle h#}" for h n d
    using Cons.prems [of d "Some (h, n)"] that by simp
  show ?case using here assms(1)
    by (auto simp: wp_rules usb_serial_def accounted_def split: option.split prod.split intro!: skip found)
qed

lemma wp_open_session:
  assumes "accounted u ledger" and "settled ledger base p"
  shows "wp (open_session u fuel) (\<lambda>_ q. pu_ready q \<and> attached ledger base q) (\<lambda>_. settled ledger base) p"
proof -
  have throw: "wp (sthen (disconnect u) (sthrow e)) Q (\<lambda>_. settled ledger base) (p\<lparr>pu_context := True, pu_device := d\<rparr>)"
    if "ledger d = add_mset Usb_context base" for Q d and e
    by (rule wp_disconnect_throw [OF assms(1)])
      (use assms(2) that in \<open>simp add: settled_def released_def balanced_def owned_def\<close>)
  have attach: "wp (attach u fuel h n) (\<lambda>_ q. pu_ready q \<and> attached ledger base q) (\<lambda>_. settled ledger base)
      (p\<lparr>pu_context := True, pu_device := d\<rparr>)" if "ledger d = add_mset Usb_context (add_mset (Usb_handle h) base)" for h n d
    by (rule wp_attach [OF assms(1)]) (use assms(2) that in \<open>simp_all add: settled_def released_def\<close>)
  have base: "ledger (pu_device p) = base" using assms(2) by (simp add: settled_def)
  have initialised: "ledger (snd (us_devices u d)) = ledger d"
    "ledger (snd (us_init u d)) = ledger d + (if fst (us_init u d) = 0 then {#Usb_context#} else {#})" for d
    using assms(1) unfolding accounted_def by blast+
  have same: "settled ledger base (p\<lparr>pu_device := d\<rparr>) \<longleftrightarrow> ledger d = base" for d
    using assms(2) by (simp add: settled_def released_def)
  let ?Q = "\<lambda>_ q. pu_ready q \<and> attached ledger base q" and ?E = "\<lambda>_. settled ledger base"
  have search: "wp (find_device u serial ds) (\<lambda>found. wp (case found of
        None \<Rightarrow> sthen (disconnect u) (sthrow (Runtime_error ''requested Red Panda was not found''))
      | Some (h, candidate_serial) \<Rightarrow> attach u fuel h candidate_serial) ?Q ?E) ?E (p\<lparr>pu_context := True, pu_device := d\<rparr>)"
    if "ledger d = add_mset Usb_context base" for serial ds d
    by (rule wp_find_device [OF assms(1)]) (use that in \<open>auto intro!: throw attach split: option.splits\<close>)
  show ?thesis
    unfolding open_session_def wp_sbind wp_if wp_sthrow wp_sthen [of "smodify f" for f] wp_smodify wp_usb_call
    by (auto simp: wp_sbind wp_sgets initialised base same intro!: throw search split: option.split)
qed

text \<open>C36: a connection attempt is all or nothing, for the driver object and for what the process holds of
  libusb. Where libusb's calls are accounted as documented, and from any driver that holds what its
  fields say, \<open>connect\<close> either returns with a ready session, one context, one open handle and one
  claimed interface more than the rest of the process holds; or it throws with everything released:
  each context, handle and claim it or an earlier session took is given back, those of the candidates
  that were opened and not chosen included, and the fields say so. A connected driver is left as it is.\<close>

theorem connect_all_or_nothing:
  assumes "accounted u ledger" and "ledger (pu_device p) = base + owned p"
  shows "case connect u fuel p of
     (Inr _, q) \<Rightarrow> pu_ready q \<and> (connected p \<longrightarrow> q = p) \<and>
       (\<not> connected p \<longrightarrow> pu_context q \<and> pu_handle_open q \<and> (\<exists>h. pu_handle q = Some h \<and>
         ledger (pu_device q) = base + {#Usb_context, Usb_handle h, Usb_claim h#}))
   | (Inl e, q) \<Rightarrow> \<not> connected p \<and> \<not> pu_ready q \<and> pu_handle q = None \<and> \<not> pu_handle_open q \<and>
       \<not> pu_context q \<and> pu_receive_carry q = [] \<and> ledger (pu_device q) = base"
proof -
  have "wp (connect u fuel) (\<lambda>_ q. pu_ready q \<and> (connected p \<longrightarrow> q = p) \<and> (\<not> connected p \<longrightarrow> attached ledger base q))
      (\<lambda>_ q. \<not> connected p \<and> settled ledger base q) p"
  proof (cases "connected p")
    case True
    then show ?thesis by (simp add: connect_def wp_rules connected_def)
  next
    case False
    have "balanced ledger base p" using assms(2) by (simp add: balanced_def)
    from wp_disconnect [OF assms(1) this] wp_open_session [OF assms(1)]
    have "wp (sthen (disconnect u) (open_session u fuel)) (\<lambda>_ q. pu_ready q \<and> attached ledger base q)
        (\<lambda>_. settled ledger base) p"
      unfolding wp_sthen by (intro wp_mono [OF wp_disconnect [OF assms(1) \<open>balanced ledger base p\<close>]]) auto
    with False show ?thesis by (simp add: connect_def wp_sbind wp_sgets)
  qed
  then show ?thesis
    by (auto simp: wp_def released_def settled_def attached_def split: prod.split_asm sum.split_asm)
qed

section \<open>Sending\<close>

text \<open>The documented behaviour of a bulk write: a success takes no more than it was given, and the bytes
  it took are, in order, what the device received.\<close>

definition bulk_write_delivers :: "'d usb \<Rightarrow> ('d \<Rightarrow> bytes) \<Rightarrow> bool" where
  "bulk_write_delivers u sent \<longleftrightarrow>
     (\<forall>h bs t d n e. us_bulk_write u h bs t d = ((0, n), e) \<longrightarrow> 0 < n \<longrightarrow>
        nat n \<le> length bs \<and> sent e = sent d @ take (nat n) bs)"

lemma send_loop_delivers:
  assumes "bulk_write_delivers u sent" and "position \<le> length buffer"
  shows "wp (send_loop u h t buffer position)
    (\<lambda>_ q. sent (pu_device q) = sent (pu_device p) @ drop position buffer) (\<lambda>_ _. True) p"
  using assms
proof (induction u h t buffer position arbitrary: p rule: send_loop.induct)
  case (1 u h t buffer position)
  show ?case
  proof (cases "position < length buffer")
    case True
    obtain st n e where w: "us_bulk_write u h (drop position buffer) t (pu_device p) = ((st, n), e)"
      by (metis surj_pair)
    show ?thesis
    proof (cases "st \<noteq> 0 \<or> n \<le> 0")
      case False
      then have d: "nat n \<le> length buffer - position" "sent e = sent (pu_device p) @ take (nat n) (drop position buffer)"
        using "1.prems"(1) w unfolding bulk_write_delivers_def by fastforce+
      have IH: "wp (send_loop u h t buffer (position + nat n))
          (\<lambda>_ q. sent (pu_device q) = sent e @ drop (position + nat n) buffer) (\<lambda>_ _. True) (p\<lparr>pu_device := e\<rparr>)"
        using "1.IH" [OF True, of st n "p\<lparr>pu_device := e\<rparr>"] False d(1) "1.prems"(1) True by simp
      have "take (nat n) (drop position buffer) @ drop (position + nat n) buffer = drop position buffer"
        by (metis add.commute append_take_drop_id drop_drop)
      with IH d(2) False True w show ?thesis
        by (subst send_loop.simps) (simp add: wp_sbind wp_usb_call)
    qed (use w True in \<open>subst send_loop.simps, auto simp: wp_rules\<close>)
  qed (use "1.prems" in \<open>subst send_loop.simps, simp add: wp_rules\<close>)
qed

lemma wp_ensure_connected:
  "(\<And>h. Q h p) \<Longrightarrow> E (Runtime_error ''Red Panda is not connected'') p \<Longrightarrow> wp ensure_connected Q E p"
  by (simp add: ensure_connected_def wp_rules split: option.split)

text \<open>C35: a send that returns has delivered everything. Under the documented behaviour of libusb's bulk
  write, and however it splits the transfer, the device has received exactly the packets of the
  frames behind what it had, and a reader of those bytes gets exactly those frames.\<close>

theorem send_delivers:
  assumes "bulk_write_delivers u sent" and "list_all wf_frame frames" and "send u frames p = (Inr (), q)"
  shows "\<exists>packed. pack_frames frames = Inr packed \<and> sent (pu_device q) = sent (pu_device p) @ packed \<and>
    unpack_frames [] packed t = (Inr (map (\<lambda>f. received_frame f t) frames), [])"
proof -
  have "wp (send u frames) (\<lambda>_ q. \<exists>packed. pack_frames frames = Inr packed \<and>
      sent (pu_device q) = sent (pu_device p) @ packed) (\<lambda>_ _. True) p"
  proof (cases "pack_frames frames")
    case (Inl e)
    then obtain out where "frames \<noteq> []" "pack_frames_into frames = (Inl e, out)"
      using pack_frames_into_Inl by fastforce
    then show ?thesis by (auto simp: send_def wp_rules intro!: wp_ensure_connected)
  next
    case (Inr packed)
    have "wp (send_loop u h timeout packed 0) (\<lambda>_ q. sent (pu_device q) = sent (pu_device p) @ packed) (\<lambda>_ _. True)
        (p\<lparr>pu_transmit_buffer := packed\<rparr>)" for h timeout
      using send_loop_delivers [OF assms(1), of 0 packed h timeout "p\<lparr>pu_transmit_buffer := packed\<rparr>"] by simp
    moreover have "packed = []" if "frames = []" using Inr that by simp
    ultimately show ?thesis using Inr pack_frames_into_Inr [OF Inr] by (auto simp: send_def wp_rules intro!: wp_ensure_connected)
  qed
  then obtain packed where packed: "pack_frames frames = Inr packed" "sent (pu_device q) = sent (pu_device p) @ packed"
    using assms(3) by (auto dest: wp_Inr)
  have "unpack_frames [] packed t = (Inr (map (\<lambda>f. received_frame f t) frames), [])"
    unfolding unpack_frames_Inr using stream_pack_frames [OF packed(1)] assms(2) by (simp add: list_all_iff)
  with packed show ?thesis by blast
qed

section \<open>The drain of the startup stream\<close>

text \<open>
  The clock is a steady clock: what the driver reads is the time, and no call of the loop sets it
  back. And it does not stop: before any point in time only finitely many bulk reads end. No least
  duration of a read is assumed; some may take no time at all.
\<close>

definition steady_clock :: "'d usb \<Rightarrow> ('d \<Rightarrow> time_point) \<Rightarrow> bool" where
  "steady_clock u time \<longleftrightarrow>
     (\<forall>d. fst (us_now u d) = time (snd (us_now u d)) \<and> time d \<le> time (snd (us_now u d)) \<and>
       (\<forall>h ty r v i n. time d \<le> time (snd (us_control u h ty r v i n d))) \<and>
       (\<forall>h n t. time d \<le> time (snd (us_bulk_read u h n t d))))"

definition finite_reads :: "'d usb \<Rightarrow> ('d \<Rightarrow> time_point) \<Rightarrow> time_point \<Rightarrow> ('d \<Rightarrow> nat) \<Rightarrow> bool" where
  "finite_reads u time limit left \<longleftrightarrow>
     (\<forall>d. left (snd (us_now u d)) \<le> left d \<and> (\<forall>h ty r v i n. left (snd (us_control u h ty r v i n d)) \<le> left d) \<and>
       (\<forall>h n t. let e = snd (us_bulk_read u h n t d) in left e \<le> left d \<and> (time e < limit \<longrightarrow> left e < left d)))"

text \<open>One iteration: the deadline, the heartbeat, the read; whether it was the boundary, and when the
  next heartbeat is due.\<close>

definition drain_step :: "'d usb \<Rightarrow> nat \<Rightarrow> time_point \<Rightarrow> time_point \<Rightarrow> ('d panda, bool \<times> time_point) action" where
  "drain_step u h deadline heartbeat_due =
     sbind (usb_call (us_now u)) (\<lambda>now.
     if \<not> now < deadline
     then sthrow (Runtime_error ''Red Panda initial CAN stream did not reach a packet boundary'')
     else
       sbind (usb_call (us_now u)) (\<lambda>t.
       sbind (if heartbeat_due \<le> t
              then sthen (send_heartbeat u False) (sbind (usb_call (us_now u)) (\<lambda>t. sret (t + ms 200)))
              else sret heartbeat_due) (\<lambda>heartbeat_due.
       sbind (usb_call (us_bulk_read u h bulk_capacity 100)) (\<lambda>(status, transferred, data).
       sbind (sreturn (initial_receive_boundary (us_names u) bulk_capacity status transferred)) (\<lambda>boundary.
       sret (boundary, heartbeat_due))))))"

lemma drain_loop_Suc:
  "drain_loop u h (Suc fuel) deadline hb = sbind (drain_step u h deadline hb) (\<lambda>(boundary, hb).
     if boundary then smodify (\<lambda>p. p\<lparr>pu_receive_carry := []\<rparr>) else drain_loop u h fuel deadline hb)"
  by (rule ext) (simp add: drain_step_def sbind_def sthrow_def sret_def split: prod.split sum.split)

text \<open>A loop that ended within its iterations ends the same with more of them.\<close>

lemma sbind_agree:
  assumes "fst (sbind m f s) \<noteq> Inl e" and "\<And>x t. fst (f x t) \<noteq> Inl e \<Longrightarrow> g x t = f x t"
  shows "sbind m g s = sbind m f s"
  using assms by (auto simp: sbind_def split: prod.splits sum.splits)

lemma drain_more_fuel:
  "fst (drain_loop u h n deadline hb p) \<noteq> Inl Budget_exhausted \<Longrightarrow> n \<le> m \<Longrightarrow>
   drain_loop u h m deadline hb p = drain_loop u h n deadline hb p"
proof (induction n arbitrary: m hb p)
  case 0
  then show ?case by (simp add: sthrow_def)
next
  case (Suc n)
  obtain k where k: "m = Suc k" "n \<le> k" using Suc.prems(2) by (cases m) simp_all
  show ?case unfolding k(1) drain_loop_Suc
  proof (rule sbind_agree)
    show "fst (sbind (drain_step u h deadline hb) (\<lambda>(boundary, hb).
      if boundary then smodify (\<lambda>p. p\<lparr>pu_receive_carry := []\<rparr>) else drain_loop u h n deadline hb) p) \<noteq> Inl Budget_exhausted"
      using Suc.prems(1) unfolding drain_loop_Suc .
  qed (use Suc.IH [OF _ k(2)] in \<open>simp split: prod.splits if_splits\<close>)
qed

abbreviation boundary_missed :: exn where
  "boundary_missed \<equiv> Runtime_error ''Red Panda initial CAN stream did not reach a packet boundary''"

lemma boundary_error:
  "initial_receive_boundary lu c st n = Inl e \<Longrightarrow> e \<noteq> Budget_exhausted \<and> e \<noteq> boundary_missed"
  by (auto simp: initial_receive_boundary_def split: if_splits)

text \<open>An iteration that returns has used up a read before the limit or is past the limit; the loop's own
  error is thrown at the deadline or later.\<close>

lemma wp_heartbeat:
  assumes "steady_clock u time" and "finite_reads u time limit left"
  shows "wp (send_heartbeat u b) (\<lambda>_ q. time (pu_device p) \<le> time (pu_device q) \<and> left (pu_device q) \<le> left (pu_device p))
    (\<lambda>e _. e \<noteq> Budget_exhausted \<and> e \<noteq> boundary_missed) p"
  using assms
  by (auto simp: send_heartbeat_def control_write_def wp_rules steady_clock_def finite_reads_def split: prod.split
      intro!: wp_ensure_connected)

lemma wp_drain_step:
  assumes "steady_clock u time" and "finite_reads u time limit left"
  shows "wp (drain_step u h deadline hb)
    (\<lambda>_ q. left (pu_device q) < left (pu_device p) \<or> left (pu_device q) \<le> left (pu_device p) \<and> limit \<le> time (pu_device q))
    (\<lambda>e q. e \<noteq> Budget_exhausted \<and> (e = boundary_missed \<longrightarrow> deadline \<le> time (pu_device q))) p" (is "wp _ ?Q ?E p")
proof -
  let ?left = "\<lambda>q. left (pu_device q) \<le> left (pu_device p)"
  have now: "fst (us_now u d) = time (snd (us_now u d))" "left (snd (us_now u d)) \<le> left d" for d
    using assms by (simp_all add: steady_clock_def finite_reads_def)
  have read: "wp (sbind (usb_call (us_bulk_read u h bulk_capacity 100)) (\<lambda>(status, transferred, data).
      sbind (sreturn (initial_receive_boundary (us_names u) bulk_capacity status transferred)) (\<lambda>boundary.
      sret (boundary, hb)))) ?Q ?E q" if "?left q" for q hb
  proof -
    let ?e = "snd (us_bulk_read u h bulk_capacity 100 (pu_device q))"
    have "left ?e \<le> left (pu_device q)" "time ?e < limit \<Longrightarrow> left ?e < left (pu_device q)"
      using assms(2) by (auto simp: finite_reads_def Let_def)
    then show ?thesis using that
      by (auto simp: wp_sbind wp_usb_call wp_sreturn wp_sret boundary_error split: prod.split sum.split)
  qed
  have beat: "wp (if hb \<le> t then sthen (send_heartbeat u False) (sbind (usb_call (us_now u)) (\<lambda>t. sret (t + ms 200)))
      else sret hb) (\<lambda>_. ?left) ?E q" if "?left q" for q t
    using that now(2)
    by (simp add: wp_sthen wp_sbind wp_usb_call wp_sret, intro impI wp_mono [OF wp_heartbeat [OF assms]])
      (auto intro: order_trans)
  let ?t = "fst (us_now u (pu_device p))" and ?p1 = "p\<lparr>pu_device := snd (us_now u (pu_device p))\<rparr>"
  let ?p2 = "?p1\<lparr>pu_device := snd (us_now u (pu_device ?p1))\<rparr>"
  have p2: "?left ?p2" using order_trans [OF now(2) now(2), of "pu_device p"] by simp
  show ?thesis
  proof (cases "?t < deadline")
    case True
    show ?thesis unfolding drain_step_def wp_sbind [of "usb_call (us_now u)"] wp_usb_call wp_if wp_sthrow
      unfolding wp_sbind [of "if c then m else k" for c m k] if_not_P [OF not_not [THEN iffD2, OF True]]
      by (rule wp_mono [OF beat [OF p2]]) (use read in simp_all)
  next
    case False
    then show ?thesis using now(1) [of "pu_device p"]
      by (simp add: drain_step_def wp_sbind [of "usb_call (us_now u)"] wp_usb_call wp_if wp_sthrow)
  qed
qed

lemma drain_past_deadline:
  assumes "steady_clock u time" and "deadline \<le> time (pu_device p)"
  shows "wp (drain_loop u h (Suc n) deadline hb) Q (\<lambda>e q. e = boundary_missed \<and> deadline \<le> time (pu_device q)) p"
proof -
  have "time (pu_device p) \<le> time (snd (us_now u (pu_device p)))" "fst (us_now u (pu_device p)) = time (snd (us_now u (pu_device p)))"
    using assms(1) by (simp_all add: steady_clock_def)
  then show ?thesis using assms(2) by (simp add: wp_sbind [of "usb_call f" for f] wp_usb_call wp_if wp_sthrow)
qed

lemma drain_loop_ends:
  assumes "steady_clock u time" and "finite_reads u time deadline left" and "left (pu_device p) \<le> n"
  shows "wp (drain_loop u h (Suc (Suc n)) deadline hb) (\<lambda>_ q. pu_receive_carry q = [])
    (\<lambda>e q. e \<noteq> Budget_exhausted \<and> (e = boundary_missed \<longrightarrow> deadline \<le> time (pu_device q))) p"
  using assms(3)
proof (induction n arbitrary: p hb)
  case 0
  show ?case unfolding drain_loop_Suc [of u h "Suc 0"] wp_sbind
    by (rule wp_mono [OF wp_drain_step [OF assms(1,2)]])
      (use 0 in \<open>auto simp: wp_smodify simp del: drain_loop.simps split: prod.split
        intro!: wp_mono [OF drain_past_deadline [OF assms(1)]]\<close>)
next
  case (Suc n)
  have step: "wp (drain_loop u h (Suc (Suc n)) deadline hb) (\<lambda>_ q. pu_receive_carry q = [])
      (\<lambda>e q. e \<noteq> Budget_exhausted \<and> (e = boundary_missed \<longrightarrow> deadline \<le> time (pu_device q))) q"
    if "left (pu_device q) < left (pu_device p) \<or> left (pu_device q) \<le> left (pu_device p) \<and> deadline \<le> time (pu_device q)" for q hb
  proof (cases "left (pu_device q) < left (pu_device p)")
    case True
    then show ?thesis using Suc.prems by (intro Suc.IH) simp
  next
    case False
    with that show ?thesis by (intro wp_mono [OF drain_past_deadline [OF assms(1)]]) auto
  qed
  show ?case unfolding drain_loop_Suc [of u h "Suc (Suc n)"] wp_sbind
    by (rule wp_mono [OF wp_drain_step [OF assms(1,2)]]) (auto simp: wp_smodify step simp del: drain_loop.simps split: prod.split)
qed

text \<open>C37: the drain of the startup stream ends. With a steady clock that does not stop, there is a number
  of iterations from which on a larger bound makes no difference: the loop does not use it up, but
  finds a packet boundary and starts with nothing carried over, or throws one of the code's errors;
  and it does not give up before two seconds have passed.\<close>

theorem drain_terminates:
  assumes "steady_clock u time" and "\<forall>limit. \<exists>left. finite_reads u time limit left"
  shows "\<exists>n r q. (\<forall>fuel\<ge>n. synchronize_can_receive u h fuel p = (r, q)) \<and>
    (case r of Inr _ \<Rightarrow> pu_receive_carry q = []
     | Inl e \<Rightarrow> e \<noteq> Budget_exhausted \<and>
         (e = Runtime_error ''Red Panda initial CAN stream did not reach a packet boundary'' \<longrightarrow>
          fst (us_now u (pu_device p)) + seconds 2 \<le> time (pu_device q)))"
proof -
  let ?p1 = "p\<lparr>pu_device := snd (us_now u (pu_device p))\<rparr>"
  let ?p2 = "?p1\<lparr>pu_device := snd (us_now u (pu_device ?p1))\<rparr>"
  let ?deadline = "fst (us_now u (pu_device p)) + seconds 2" and ?due = "fst (us_now u (pu_device ?p1))"
  have sync: "synchronize_can_receive u h fuel p = drain_loop u h fuel ?deadline ?due ?p2" for fuel
    by (simp add: synchronize_can_receive_def sbind_def usb_call_def split: prod.split)
  obtain left where left: "finite_reads u time ?deadline left" using assms(2) by blast
  define n where "n = Suc (Suc (left (pu_device ?p2)))"
  obtain r q where run: "drain_loop u h n ?deadline ?due ?p2 = (r, q)" by fastforce
  have "wp (drain_loop u h n ?deadline ?due) (\<lambda>_ q. pu_receive_carry q = [])
    (\<lambda>e q. e \<noteq> Budget_exhausted \<and> (e = boundary_missed \<longrightarrow> ?deadline \<le> time (pu_device q))) ?p2"
    unfolding n_def by (rule drain_loop_ends [OF assms(1) left]) simp
  then have ended: "case r of Inr _ \<Rightarrow> pu_receive_carry q = []
     | Inl e \<Rightarrow> e \<noteq> Budget_exhausted \<and> (e = boundary_missed \<longrightarrow> ?deadline \<le> time (pu_device q))"
    using run by (simp add: wp_def split: sum.splits)
  then have "r \<noteq> Inl Budget_exhausted" by (auto split: sum.splits)
  then have "fst (drain_loop u h n ?deadline ?due ?p2) \<noteq> Inl Budget_exhausted" using run by simp
  then have "drain_loop u h fuel ?deadline ?due ?p2 = (r, q)" if "n \<le> fuel" for fuel
    using trans [OF drain_more_fuel [OF _ that] run] by blast
  with ended show ?thesis unfolding sync by blast
qed

section \<open>Witnesses\<close>

text \<open>A small device: whether all-output was ever requested, the bytes it received, and its clock. A
  bulk write takes at most 16 bytes, a bulk read a millisecond.\<close>

type_synonym demo = "bool \<times> bytes \<times> time_point"

definition demo_usb :: "demo usb" where
  "demo_usb = \<lparr>us_names = sample_libusb, us_init = (\<lambda>d. (0, d)), us_exit = id,
     us_devices = (\<lambda>d. (Some [\<lparr>ud_descriptor = Some (0xBBAA, 0xDDCC, 3), ud_number = 0\<rparr>], d)),
     us_open = (\<lambda>x d. (Some 1, d)), us_string = (\<lambda>h i d. (Some ''panda'', d)), us_close = (\<lambda>h. id),
     us_auto_detach = (\<lambda>h. id), us_claim = (\<lambda>h d. (0, d)), us_release = (\<lambda>h. id),
     us_control = (\<lambda>h ty r v i n (a, s, t). ((int n, replicate n 0), (a \<or> ty = kVendorOut \<and> r = 0xDC \<and> v = 17, s, t))),
     us_bulk_write = (\<lambda>h b timeout (a, s, t). ((0, int (min 16 (length b))), (a, s @ take (min 16 (length b)) b, t))),
     us_bulk_read = (\<lambda>h n timeout (a, s, t). ((0, 0, []), (a, s, t + 1000000))),
     us_now = (\<lambda>(a, s, t). (t, (a, s, t)))\<rparr>"

definition demo_panda :: "demo panda" where
  "demo_panda = (make_panda initial_panda_config (False, [], 5))\<lparr>pu_handle := Some 1, pu_handle_open := True,
     pu_ready := True\<rparr>"

theorem never_all_output_witness:
  "\<not> fst (pu_device (snd (set_safety_mode demo_usb 17 0 demo_panda))) \<and>
   \<not> fst (pu_device (snd (connect demo_usb 9 demo_panda)))"
proof -
  have "kept_without_alloutput demo_usb (\<lambda>d. \<not> fst d)"
    by (simp add: kept_without_alloutput_def demo_usb_def)
  from never_all_output [OF this, of demo_panda 9 17 0 False "[]"] show ?thesis
    by (simp add: demo_panda_def make_panda_def)
qed

text \<open>Any libusb can be watched: the same calls, with a ledger kept beside the device world.\<close>

definition watched :: "('d \<Rightarrow> 'a \<times> 'd) \<Rightarrow> ('a \<Rightarrow> resource multiset) \<Rightarrow> 'd \<times> resource multiset \<Rightarrow> 'a \<times> 'd \<times> resource multiset" where
  "watched f added = (\<lambda>(d, l). case f d of (x, e) \<Rightarrow> (x, e, l + added x))"

definition with_ledger :: "'d usb \<Rightarrow> ('d \<times> resource multiset) usb" where
  "with_ledger u = \<lparr>us_names = us_names u,
     us_init = watched (us_init u) (\<lambda>st. if st = 0 then {#Usb_context#} else {#}),
     us_exit = (\<lambda>(d, l). (us_exit u d, l - {#Usb_context#})),
     us_devices = watched (us_devices u) (\<lambda>_. {#}),
     us_open = (\<lambda>x. watched (us_open u x) (\<lambda>r. case r of None \<Rightarrow> {#} | Some h \<Rightarrow> {#Usb_handle h#})),
     us_string = (\<lambda>h i. watched (us_string u h i) (\<lambda>_. {#})),
     us_close = (\<lambda>h (d, l). (us_close u h d, l - {#Usb_handle h#})),
     us_auto_detach = (\<lambda>h (d, l). (us_auto_detach u h d, l)),
     us_claim = (\<lambda>h. watched (us_claim u h) (\<lambda>st. if st = 0 then {#Usb_claim h#} else {#})),
     us_release = (\<lambda>h (d, l). (us_release u h d, l - {#Usb_claim h#})),
     us_control = (\<lambda>h ty r v i n. watched (us_control u h ty r v i n) (\<lambda>_. {#})),
     us_bulk_write = (\<lambda>h b t. watched (us_bulk_write u h b t) (\<lambda>_. {#})),
     us_bulk_read = (\<lambda>h n t. watched (us_bulk_read u h n t) (\<lambda>_. {#})),
     us_now = watched (us_now u) (\<lambda>_. {#})\<rparr>"

lemma with_ledger_accounted: "accounted (with_ledger u) snd"
  by (auto simp: accounted_def with_ledger_def watched_def split: prod.splits)

text \<open>The small device has none of the pinned versions, so the attempt fails, and gives everything back.\<close>

theorem connect_all_or_nothing_witness:
  "\<exists>e q. connect (with_ledger demo_usb) 9 (make_panda initial_panda_config ((False, [], 5), {#Usb_handle 7#})) = (Inl e, q) \<and>
     snd (pu_device q) = {#Usb_handle 7#} \<and> pu_handle q = None"
proof -
  let ?p = "make_panda initial_panda_config ((False, [], 5 :: time_point), {#Usb_handle 7#}) :: (demo \<times> resource multiset) panda"
  have "snd (pu_device ?p) = {#Usb_handle 7#} + owned ?p" by (simp add: owned_def make_panda_def)
  note connected = connect_all_or_nothing [OF with_ledger_accounted this, of demo_usb 9]
  have "\<exists>e. fst (connect (with_ledger demo_usb) 9 ?p) = Inl e"
    by (simp add: connect_def open_session_def find_device.simps attach_def start_session_def control_write_def control_read_def
        ensure_connected_def usb_serial_def disconnect_def make_panda_def initial_panda_config_def connected_def
        usb_call_def usb_do_def sbind_def sthen_def scatch_def sgets_def sret_def sthrow_def smodify_def swhen_def
        with_ledger_def watched_def demo_usb_def panda_usb_id_def u32_at_def kPinnedHealthPacketVersion_def)
  with connected show ?thesis by (auto split: prod.splits)
qed

theorem send_delivers_witness:
  "\<exists>q. send demo_usb [sample_can_frame, sample_can_frame, sample_can_frame] demo_panda = (Inr (), q) \<and>
     unpack_frames [] (fst (snd (pu_device q))) 7 =
       (Inr (replicate 3 (received_frame sample_can_frame 7)), [])"
proof -
  have d: "bulk_write_delivers demo_usb (\<lambda>d. fst (snd d))"
    by (auto simp: bulk_write_delivers_def demo_usb_def)
  have wf: "list_all wf_frame [sample_can_frame, sample_can_frame, sample_can_frame]"
    by (simp add: wf_frame_def sample_can_frame_def empty_frame_def)
  have "\<exists>q. send demo_usb [sample_can_frame, sample_can_frame, sample_can_frame] demo_panda = (Inr (), q)"
    using pack_sample pack_frames_into_Inr [of "[sample_can_frame, sample_can_frame, sample_can_frame]"]
    by (simp add: send_def pack_frames_Cons sample_reads_def sbind_def sthen_def ensure_connected_def
        demo_panda_def make_panda_def sgets_def sret_def sreturn_def smodify_def
        send_loop.simps usb_call_def demo_usb_def initial_panda_config_def)
  then obtain q where q: "send demo_usb [sample_can_frame, sample_can_frame, sample_can_frame] demo_panda = (Inr (), q)"
    by blast
  from send_delivers [OF d wf q, of 7] q show ?thesis by (auto simp: demo_panda_def make_panda_def numeral_3_eq_3)
qed

theorem drain_terminates_witness:
  "\<exists>n. \<forall>fuel\<ge>n. fst (synchronize_can_receive demo_usb 1 fuel demo_panda) \<noteq> Inl Budget_exhausted"
proof -
  have "steady_clock demo_usb (\<lambda>(a, s, t). t)" by (auto simp: steady_clock_def demo_usb_def)
  moreover have "\<forall>limit. \<exists>left. finite_reads demo_usb (\<lambda>(a, s, t). t) limit left"
  proof
    fix limit
    have "finite_reads demo_usb (\<lambda>(a, s, t). t) limit (\<lambda>(a, s, t). nat (limit - t))"
      by (auto simp: finite_reads_def demo_usb_def Let_def split: prod.split)
    then show "\<exists>left. finite_reads demo_usb (\<lambda>(a, s, t). t) limit left" by blast
  qed
  ultimately show ?thesis using drain_terminates [of demo_usb "\<lambda>(a, s, t). t" 1 demo_panda] by fastforce
qed

end
