(* ===== verification/Node_Config.thy ===== *)
theory Node_Config
  imports Panda_Usb Safety_Supervisor Command_Adapter
begin

text \<open>
  The configuration of the control node (\<open>Ioniq5EcanNode::load_configuration\<close> of
  \<open>src/node.cpp\<close>): the parameters with their defaults, the values derived from them, and the checks.
  The ROS parameter server is a parameter of the model: what it holds under a name, for each type
  the node asks for. Integers are those of \<open>int\<close>.
\<close>

section \<open>Parameters\<close>

record params =
  pm_bool :: "string \<Rightarrow> bool option"
  pm_int :: "string \<Rightarrow> int option"
  pm_double :: "string \<Rightarrow> double option"
  pm_string :: "string \<Rightarrow> string option"
  pm_doubles :: "string \<Rightarrow> double list option"

text \<open>\<open>parameter<T>(name, default)\<close>.\<close>

definition parameter :: "(string \<Rightarrow> 'a option) \<Rightarrow> string \<Rightarrow> 'a \<Rightarrow> 'a" where
  "parameter held name default_value = (case held name of Some v \<Rightarrow> v | None \<Rightarrow> default_value)"

definition int_params :: "params \<Rightarrow> bool" where
  "int_params ps \<longleftrightarrow> (\<forall>name v. pm_int ps name = Some v \<longrightarrow> - (2 ^ 31) \<le> v \<and> v < 2 ^ 31)"

section \<open>The configuration\<close>

record node_config =
  nc_panda :: panda_config
  nc_adapter :: adapter_config
  nc_safety :: safety_config
  nc_ecan_bus :: u8
  nc_camera_bus :: u8
  nc_ecan_only :: bool
  nc_alternate_buttons :: bool
  nc_use_enable_field :: bool
  nc_auto_arm_on_command :: bool
  nc_publish_raw_can_rx :: bool
  nc_publish_raw_can_bus_topics :: bool
  nc_allow_raw_can_tx :: bool
  nc_control_rate_hz :: int
  nc_health_rate_hz :: int
  nc_realtime_priority :: int
  nc_control_cpu :: int
  nc_receive_cpu :: int
  nc_set_speed_kph :: double
  nc_vehicle_state_timeout :: millis
  nc_command_topic :: string
  nc_state_topic :: string
  nc_raw_can_rx_topic :: string
  nc_raw_can_tx_topic :: string
  nc_raw_can_bus_prefix :: string

text \<open>The adapter's part. The two tables and the two frame counts are checked here, in this order,
  after the mode name.\<close>

definition load_adapter_config :: "params \<Rightarrow> exn + adapter_config" where
  "load_adapter_config ps =
     (let d = parameter (pm_double ps); i = parameter (pm_int ps); t = parameter (pm_doubles ps);
          low_speed_bp = t ''lateral/low_speed_factor_bp_mps'' [lit 0, lit 10, lit 20, lit 30];
          low_speed_v = t ''lateral/low_speed_factor_v'' [lit 15, lit 13, lit 10, lit 5];
          valid_frames = i ''lateral/steer_request_valid_frames'' 89;
          cut_frames = i ''lateral/steer_request_cut_frames'' 2
      in ebind (lateral_mode_from_string (parameter (pm_string ps) ''input/lateral_mode'' ''direct_torque'')) (\<lambda>mode.
         if length low_speed_bp \<noteq> 4 \<or> length low_speed_v \<noteq> 4
         then Inl (Invalid_argument ''Carrot low-speed factor tables must contain exactly four values'')
         else if valid_frames < 0 \<or> cut_frames < 0
         then Inl (Invalid_argument ''steering request frame counts cannot be negative'')
         else Inr \<lparr>ac_lateral_mode = mode,
           ac_unfiltered_input = parameter (pm_bool ps) ''input/unfiltered_input'' True,
           ac_lateral_scale = d ''input/lateral_scale'' (lit 1),
           ac_lateral_offset = d ''input/lateral_offset'' (lit 0),
           ac_acceleration_scale = d ''input/acceleration_scale'' (lit 1),
           ac_acceleration_offset = d ''input/acceleration_offset'' (lit 0),
           ac_wheelbase_m = d ''vehicle/wheelbase_m'' (lit (297 / 100)),
           ac_steering_ratio = d ''vehicle/steering_ratio'' (lit (1426 / 100)),
           ac_steer_actuator_delay_s = d ''lateral/steer_actuator_delay_s'' (lit (1 / 10)),
           ac_torque_kp = d ''lateral/torque_kp'' (lit 1),
           ac_torque_ki = d ''lateral/torque_ki'' (lit (1 / 10)),
           ac_torque_kd = d ''lateral/torque_kd'' (lit 0),
           ac_torque_kf = d ''lateral/torque_kf'' (lit 1),
           ac_lat_accel_factor = d ''lateral/lat_accel_factor'' (lit (3172929 / 1000000)),
           ac_friction = d ''lateral/friction'' (lit (96019 / 1000000)),
           ac_friction_threshold = d ''lateral/friction_threshold'' (lit (3 / 10)),
           ac_steering_angle_deadzone_deg = d ''lateral/steering_angle_deadzone_deg'' (lit 0),
           ac_integral_output_limit = d ''lateral/integral_output_limit'' (lit (378 / 100)),
           ac_integrator_freeze_speed_mps = d ''lateral/integrator_freeze_speed_mps'' (lit 0),
           ac_low_speed_factor_bp_mps = low_speed_bp,
           ac_low_speed_factor_v = low_speed_v,
           ac_max_target_angle_deg = d ''lateral/max_target_angle_deg'' (lit 175),
           ac_max_target_rate_deg_s = d ''lateral/max_target_rate_deg_s'' (lit 500),
           ac_torque_output_scale = i ''lateral/torque_output_scale'' 270,
           ac_max_torque = i ''lateral/max_torque'' 1021,
           ac_torque_rate_up = i ''lateral/torque_rate_up'' 2042,
           ac_torque_rate_down = i ''lateral/torque_rate_down'' 2042,
           ac_driver_torque_allowance = d ''lateral/driver_torque_allowance'' (lit 250),
           ac_driver_torque_multiplier = d ''lateral/driver_torque_multiplier'' (lit 0),
           ac_driver_torque_factor = d ''lateral/driver_torque_factor'' (lit 1),
           ac_steer_request_cutoff_angle_deg = d ''lateral/steer_request_cutoff_angle_deg'' (lit 85),
           ac_steer_request_valid_frames = word_of_int valid_frames,
           ac_steer_request_cut_frames = word_of_int cut_frames,
           ac_accel_min_mps2 = d ''longitudinal/accel_min_mps2'' (lit (- 1023 / 100)),
           ac_accel_max_mps2 = d ''longitudinal/accel_max_mps2'' (lit (1024 / 100)),
           ac_jerk_limit_mps3 = d ''longitudinal/jerk_limit_mps3'' (lit (127 / 10))\<rparr>))"

text \<open>The safety parameter of the Panda firmware that a configuration needs.\<close>

definition required_param :: "bool \<Rightarrow> bool \<Rightarrow> bool \<Rightarrow> bool \<Rightarrow> u16" where
  "required_param allow_longitudinal alternate_buttons allow_actuation resume =
     (let p = (if allow_longitudinal then kIoniq5Hda1LongParam else kIoniq5Hda1PassiveParam);
          p = (if alternate_buttons then p OR kHyundaiAlternateButtons else p)
      in if allow_actuation \<and> resume then p OR kHyundaiCommandSession else p)"

definition load_safety_config :: "params \<Rightarrow> bool \<Rightarrow> safety_config" where
  "load_safety_config ps alternate_buttons =
     (let b = parameter (pm_bool ps); d = parameter (pm_double ps); i = parameter (pm_int ps);
          actuation = b ''safety/allow_actuation'' False;
          longitudinal = b ''safety/allow_longitudinal'' False;
          resume = b ''safety/resume_on_command_return'' False
      in \<lparr>sc_allow_actuation = actuation, sc_allow_longitudinal = longitudinal,
          sc_resume_on_command_return = resume,
          sc_lateral_button_toggle = b ''safety/lateral_button_toggle'' True,
          sc_longitudinal_button_toggle = b ''safety/longitudinal_button_toggle'' True,
          sc_lateral_disengage_on_brake = b ''safety/lateral_disengage_on_brake'' False,
          sc_longitudinal_disengage_on_brake = b ''safety/longitudinal_disengage_on_brake'' True,
          sc_disengage_on_cancel = b ''safety/disengage_on_cancel'' True,
          sc_longitudinal_override_on_gas = b ''safety/longitudinal_override_on_gas'' True,
          sc_max_active_speed_mps = d ''safety/max_active_speed_mps'' (lit 0),
          sc_max_abs_steering_angle_deg = d ''safety/max_abs_steering_angle_deg'' (lit 0),
          sc_required_safety_mode = ucast kSafetyHyundaiCanFd,
          sc_required_safety_param = required_param longitudinal alternate_buttons actuation resume,
          sc_required_harness_status = 1,
          sc_command_timeout = i ''safety/command_timeout_ms'' 100,
          sc_panda_timeout = i ''safety/panda_timeout_ms'' 250\<rparr>)"

text \<open>The bus numbers are cut to eight bits before they are checked.\<close>

definition load_values :: "params \<Rightarrow> adapter_config \<Rightarrow> node_config" where
  "load_values ps adapter =
     (let b = parameter (pm_bool ps); d = parameter (pm_double ps); i = parameter (pm_int ps);
          s = parameter (pm_string ps);
          ecan_only = b ''hardware/ecan_only'' True;
          alternate_buttons = b ''hardware/alternate_buttons'' False;
          safety = load_safety_config ps alternate_buttons
      in \<lparr>nc_panda = \<lparr>
            pc_command_session_param =
              (if sc_allow_actuation safety \<and> sc_resume_on_command_return safety
               then sc_required_safety_param safety else 0),
            pc_serial = s ''hardware/panda_serial'' [],
            pc_nominal_bitrate_kbps = i ''hardware/nominal_bitrate_kbps'' 500,
            pc_data_bitrate_kbps = i ''hardware/data_bitrate_kbps'' 2000,
            pc_read_timeout_ms = i ''hardware/usb_read_timeout_ms'' 20,
            pc_write_timeout_ms = i ''hardware/usb_write_timeout_ms'' 10,
            pc_ecan_only = ecan_only\<rparr>,
          nc_adapter = adapter,
          nc_safety = safety,
          nc_ecan_bus = word_of_int (i ''hardware/ecan_bus'' 0),
          nc_camera_bus = word_of_int (i ''hardware/camera_bus'' 2),
          nc_ecan_only = ecan_only,
          nc_alternate_buttons = alternate_buttons,
          nc_use_enable_field = b ''input/use_enable_field'' False,
          nc_auto_arm_on_command = b ''safety/auto_arm_on_command'' True,
          nc_publish_raw_can_rx = b ''raw_can/publish_rx'' True,
          nc_publish_raw_can_bus_topics = b ''raw_can/publish_bus_topics'' True,
          nc_allow_raw_can_tx = b ''raw_can/allow_tx'' False,
          nc_control_rate_hz = i ''runtime/control_rate_hz'' 100,
          nc_health_rate_hz = i ''runtime/health_rate_hz'' 10,
          nc_realtime_priority = i ''runtime/realtime_priority'' 0,
          nc_control_cpu = i ''runtime/control_cpu'' (- 1),
          nc_receive_cpu = i ''runtime/receive_cpu'' (- 1),
          nc_set_speed_kph = d ''longitudinal/set_speed_kph'' (lit 30),
          nc_vehicle_state_timeout = i ''safety/vehicle_state_timeout_ms'' 100,
          nc_command_topic = s ''topics/command'' ''/ioniq5/actuation_command'',
          nc_state_topic = s ''topics/vehicle_state'' ''/ioniq5/vehicle_state'',
          nc_raw_can_rx_topic = s ''topics/raw_can_rx'' ''/ioniq5/can_rx'',
          nc_raw_can_tx_topic = s ''topics/raw_can_tx'' ''/ioniq5/can_tx'',
          nc_raw_can_bus_prefix = s ''topics/raw_can_bus_prefix'' ''/ioniq5/can''\<rparr>)"

definition check_config :: "node_config \<Rightarrow> exn + node_config" where
  "check_config c =
     (let p = nc_panda c
      in if 2 < nc_ecan_bus c \<or> 2 < nc_camera_bus c \<or> nc_ecan_bus c = nc_camera_bus c
         then Inl (Invalid_argument ''Hyundai K bus mapping must use two distinct Panda buses in [0,2]'')
         else if \<not> nc_ecan_only c \<or> nc_ecan_bus c \<noteq> 0
         then Inl (Invalid_argument ''this firmware requires hardware/ecan_only=true and ecan_bus=0'')
         else if pc_nominal_bitrate_kbps p \<noteq> 500 \<or> pc_data_bitrate_kbps p \<noteq> 2000
         then Inl (Invalid_argument ''Ioniq 5 CAN-FD rates must be 500/2000 kbps'')
         else if pc_read_timeout_ms p < 1 \<or> 100 < pc_read_timeout_ms p \<or>
                 pc_write_timeout_ms p < 1 \<or> 100 < pc_write_timeout_ms p
         then Inl (Invalid_argument ''USB timeouts must be within [1,100] ms'')
         else if nc_control_rate_hz c \<noteq> 100
         then Inl (Invalid_argument ''LFA control loop must run at 100 Hz'')
         else if nc_health_rate_hz c < 5 \<or> 20 < nc_health_rate_hz c
         then Inl (Invalid_argument ''health_rate_hz must be within [5,20]'')
         else if nc_realtime_priority c < 0 \<or> 99 < nc_realtime_priority c
         then Inl (Invalid_argument ''realtime_priority must be within [0,99]'')
         else if nc_control_cpu c < - 1 \<or> nc_receive_cpu c < - 1
         then Inl (Invalid_argument ''CPU affinity values must be -1 or non-negative'')
         else if nc_vehicle_state_timeout c \<le> 0
         then Inl (Invalid_argument ''vehicle_state_timeout_ms must be positive'')
         else if \<not> isfinite (nc_set_speed_kph c) \<or> nc_set_speed_kph c < lit 0 \<or> lit 255 < nc_set_speed_kph c
         then Inl (Invalid_argument ''set_speed_kph must be finite and within [0,255]'')
         else Inr c)"

definition load_configuration :: "params \<Rightarrow> exn + node_config" where
  "load_configuration ps = ebind (load_adapter_config ps) (\<lambda>a. check_config (load_values ps a))"

end
