(* ===== verification/Recovery_Retry.thy ===== *)
theory Recovery_Retry
  imports Can_Types
begin

text \<open>
  The schedule of the restoration attempts (\<open>include/ioniq5_ecan/recovery_retry.hpp\<close>): a request
  starts it, every failure doubles the wait up to 30 seconds, success ends it. The locale
  \<open>capped_backoff\<close> is the contract of such a schedule, as the node relies on it.
\<close>

section \<open>The code\<close>

text \<open>\<open>a || (b && !c) ? profile : 0\<close>: the conditional binds weakest.\<close>

definition recovery_standby_param :: "u16 \<Rightarrow> bool \<Rightarrow> bool \<Rightarrow> bool \<Rightarrow> u16" where
  "recovery_standby_param profile preserve_session listener_enabled operator_disarmed =
     (if preserve_session \<or> (listener_enabled \<and> \<not> operator_disarmed) then profile else 0)"

record retry =
  rr_pending :: bool
  rr_failures :: u64
  rr_next_attempt :: time_point
  rr_delay :: int

definition initial_retry :: retry where
  "initial_retry = \<lparr>rr_pending = False, rr_failures = 0, rr_next_attempt = 0, rr_delay = 1\<rparr>"

definition retry_request :: "time_point \<Rightarrow> retry \<Rightarrow> retry" where
  "retry_request now r =
     (if rr_pending r then r
      else \<lparr>rr_pending = True, rr_failures = 0, rr_next_attempt = now, rr_delay = 1\<rparr>)"

definition retry_due :: "time_point \<Rightarrow> retry \<Rightarrow> bool" where
  "retry_due now r \<longleftrightarrow> rr_pending r \<and> rr_next_attempt r \<le> now"

definition retry_failed :: "time_point \<Rightarrow> retry \<Rightarrow> retry" where
  "retry_failed now r =
     (if \<not> rr_pending r then r
      else let maximum = 30 in
        r\<lparr>rr_failures := rr_failures r + 1,
          rr_next_attempt := now + seconds (rr_delay r),
          rr_delay := (if maximum - rr_delay r \<le> rr_delay r then maximum else rr_delay r + rr_delay r)\<rparr>)"

definition retry_restored :: "retry \<Rightarrow> retry" where
  "retry_restored r = r\<lparr>rr_pending := False\<rparr>"

section \<open>Capped exponential backoff\<close>

text \<open>The node asks on every period and before every attempt, and reports every failed attempt.\<close>

datatype retry_event = Asked time_point | Attempt_failed time_point

fun failures_of :: "retry_event list \<Rightarrow> time_point list" where
  "failures_of [] = []"
| "failures_of (Asked t # es) = failures_of es"
| "failures_of (Attempt_failed t # es) = t # failures_of es"

lemma failures_of_append: "failures_of (es @ es') = failures_of es @ failures_of es'"
  by (induction es rule: failures_of.induct) simp_all

locale capped_backoff =
  fixes ask_at :: "time_point \<Rightarrow> 'r \<Rightarrow> 'r" and fail_at :: "time_point \<Rightarrow> 'r \<Rightarrow> 'r" and idle :: 'r
    and due_at :: "time_point \<Rightarrow> 'r \<Rightarrow> bool" and stage :: "'r \<Rightarrow> nat \<Rightarrow> bool" and delay :: "nat \<Rightarrow> time_point"
  assumes begin_stage: "stage (ask_at t idle) 0"
    and begin_due: "due_at now (ask_at t idle) \<longleftrightarrow> t \<le> now"
    and ask_again: "stage r n \<Longrightarrow> ask_at t r = r"
    and fail_stage: "stage r n \<Longrightarrow> stage (fail_at t r) (Suc n)"
    and fail_due: "stage r n \<Longrightarrow> due_at now (fail_at t r) \<longleftrightarrow> t + delay n \<le> now"
begin

fun handle :: "'r \<Rightarrow> retry_event \<Rightarrow> 'r" where
  "handle r (Asked t) = ask_at t r"
| "handle r (Attempt_failed t) = fail_at t r"

definition after :: "time_point \<Rightarrow> retry_event list \<Rightarrow> 'r" where
  "after start events = foldl handle (ask_at start idle) events"

lemma after_snoc: "after start (events @ [e]) = handle (after start events) e"
  by (simp add: after_def)

lemma after_stage: "stage (after start events) (length (failures_of events))"
proof (induction events rule: rev_induct)
  case (snoc e events)
  then show ?case by (cases e) (simp_all add: after_snoc failures_of_append ask_again fail_stage)
qed (simp add: after_def begin_stage)

lemma after_due:
  "due_at now (after start events) \<longleftrightarrow>
     (if failures_of events = [] then start
      else last (failures_of events) + delay (length (failures_of events) - 1)) \<le> now"
proof (induction events rule: rev_induct)
  case (snoc e events)
  note stage = after_stage [of start events]
  show ?case
  proof (cases e)
    case (Asked t)
    then show ?thesis using snoc ask_again [OF stage] by (simp add: after_snoc failures_of_append)
  next
    case (Attempt_failed t)
    then show ?thesis using fail_due [OF stage] by (simp add: after_snoc failures_of_append)
  qed
qed (simp add: after_def begin_due)

end

definition backoff :: "nat \<Rightarrow> int" where
  "backoff n = min 30 (2 ^ n)"

definition retry_stage :: "retry \<Rightarrow> nat \<Rightarrow> bool" where
  "retry_stage r n \<longleftrightarrow> rr_pending r \<and> rr_failures r = of_nat n \<and> rr_delay r = backoff n"

lemma backoff_Suc: "backoff (Suc n) = (if 30 - backoff n \<le> backoff n then 30 else backoff n + backoff n)"
proof (cases "n \<le> 4")
  case True
  then have "n = 0 \<or> n = 1 \<or> n = 2 \<or> n = 3 \<or> n = 4" by linarith
  then show ?thesis by (auto simp: backoff_def)
next
  case False
  then have "(2::int) ^ 5 \<le> 2 ^ n" by (intro power_increasing) simp_all
  then show ?thesis by (simp add: backoff_def)
qed

interpretation rb: capped_backoff retry_request retry_failed "retry_restored old" retry_due retry_stage
  "\<lambda>n. seconds (backoff n)" for old
proof
  fix t now r n
  show "retry_stage (retry_request t (retry_restored old)) 0"
    by (simp add: retry_stage_def retry_request_def retry_restored_def backoff_def)
  show "retry_due now (retry_request t (retry_restored old)) \<longleftrightarrow> t \<le> now"
    by (simp add: retry_due_def retry_request_def retry_restored_def)
  assume "retry_stage r n"
  then show "retry_request t r = r" by (simp add: retry_stage_def retry_request_def)
  from \<open>retry_stage r n\<close> show "retry_stage (retry_failed t r) (Suc n)" "retry_due now (retry_failed t r) \<longleftrightarrow> t + seconds (backoff n) \<le> now"
    by (simp_all add: retry_stage_def retry_failed_def retry_due_def backoff_Suc Let_def)
qed

text \<open>The schedule under a sequence of requests and failed attempts.\<close>

fun retry_handle :: "retry \<Rightarrow> retry_event \<Rightarrow> retry" where
  "retry_handle r (Asked t) = retry_request t r"
| "retry_handle r (Attempt_failed t) = retry_failed t r"

lemma retry_handle_eq: "rb.handle = retry_handle"
proof (intro ext)
  show "rb.handle r e = retry_handle r e" for r e by (cases e) simp_all
qed

text \<open>C38: restoration is retried with a capped exponential wait that asking again does not shorten. From a
  finished schedule, let a restoration be requested at \<open>start\<close>, and then any sequence of further
  requests (the node makes one on every period and before every attempt) and of failed attempts
  follow. Nothing of this ends the schedule; until the first failure an attempt is due from \<open>start\<close> on;
  and after \<open>n\<close> failures the next one is due exactly \<open>2 ^ (n - 1)\<close> seconds after the last failure, or
  30 where that is more, whatever was requested in between.\<close>

theorem retry_backoff:
  "let r = foldl retry_handle (retry_request start (retry_restored old)) events; failures = failures_of events
   in rr_pending r \<and>
     (retry_due now r \<longleftrightarrow>
       (if failures = [] then start
        else last failures + seconds (min 30 (2 ^ (length failures - 1)))) \<le> now)"
  using rb.after_due [of now old start events] rb.after_stage [of old start events]
  by (simp add: rb.after_def retry_handle_eq backoff_def retry_stage_def Let_def)

end
