(* ===== verification/Node_State.thy ===== *)
theory Node_State
  imports Node_Config Vehicle_Parser Recovery_Retry
begin

text \<open>
  The state of \<open>Ioniq5EcanNode\<close> (\<open>include/ioniq5_ecan/node.hpp\<close>) and its callbacks
  (\<open>src/node.cpp\<close>): the operations that do not talk to an ECU. Each is one step of the state: most
  run under a mutex of the node; \<open>arm_callback\<close> and \<open>request_internal_disarm\<close> only store a few atomics,
  the request before its generation, and are taken as a whole. \<open>'d world\<close> is what the node runs in: libusb with the device
  and the clock, the mathematical library, what the other threads do while a thread sleeps (\<open>w_pass\<close>)
  or waits for a condition variable, which may end early (\<open>w_wait\<close>), or between two of its accesses to
  the shared members (\<open>w_yield\<close>), and the number of iterations the model grants a waiting loop. They are
  functions of the whole node, the device included, which may hold any schedule.
\<close>

section \<open>State\<close>

record 'd node =
  nd_config :: node_config
  nd_panda :: "'d panda"
  nd_parser :: parser
  nd_adapter :: adapter
  nd_supervisor :: supervisor
  nd_codec :: codec
  nd_running :: bool
  nd_requested_arm :: bool
  nd_applied_arm :: bool
  nd_auto_arm_inhibited :: bool
  nd_recovery_pending :: bool
  nd_recovery_rearm_required :: bool
  nd_recovery_attempts :: u64
  nd_arm_request_generation :: u64
  nd_vehicle_safety_mode :: bool
  nd_preserve_command_session :: bool
  nd_command_gap_resume_qualified :: bool
  nd_operator_disarmed :: bool
  nd_button_rearm_takeover :: bool
  nd_rearm_lane_keep_events :: u64
  nd_rearm_set_events :: u64
  nd_safety_transition_epoch :: u64
  nd_raw_can_rx_count :: u64
  nd_raw_can_tx_count :: u64
  nd_raw_can_tx_drop_count :: u64
  nd_stock_lfa_count :: u64
  nd_stock_scc_count :: u64
  nd_last_rejected_address :: u32
  nd_latest_command :: command_sample
  nd_last_sequence :: u32
  nd_latest_health :: panda_health
  nd_latest_decision :: safety_decision
  nd_latest_stock_scc :: can_frame
  nd_have_stock_scc :: bool
  nd_uds_waiting :: bool
  nd_uds_response_address :: u32
  nd_uds_response :: bytes
  nd_camera_disabled :: bool
  nd_radar_disabled :: bool
  nd_recovery_retry :: retry
  nd_last_camera_tester_present :: time_point
  nd_last_radar_tester_present :: time_point

definition initial_decision :: safety_decision where
  "initial_decision = \<lparr>sd_state = Disconnected, sd_lateral_allowed = False, sd_longitudinal_allowed = False,
     sd_lateral_armed = False, sd_longitudinal_armed = False, sd_use_vehicle_safety_mode = False,
     sd_heartbeat_engaged = False, sd_reason = Not_initialized, sd_soft_disable_remaining_ms = 0,
     sd_waiting_for_command = False\<rparr>"

text \<open>The constructor: the components on the loaded configuration, in their order, all or none.\<close>

definition make_node :: "params \<Rightarrow> 'd \<Rightarrow> exn + 'd node" where
  "make_node ps d =
     ebind (load_configuration ps) (\<lambda>c.
     ebind (make_adapter (nc_adapter c)) (\<lambda>adapter.
     ebind (make_supervisor (nc_safety c)) (\<lambda>supervisor.
     Inr \<lparr>nd_config = c, nd_panda = make_panda (nc_panda c) d,
       nd_parser = make_parser (nc_ecan_bus c) (nc_camera_bus c) (nc_alternate_buttons c) (\<not> nc_ecan_only c),
       nd_adapter = adapter, nd_supervisor = supervisor, nd_codec = initial_codec,
       nd_running = True, nd_requested_arm = False, nd_applied_arm = False, nd_auto_arm_inhibited = False,
       nd_recovery_pending = False, nd_recovery_rearm_required = False, nd_recovery_attempts = 0,
       nd_arm_request_generation = 0, nd_vehicle_safety_mode = False, nd_preserve_command_session = False,
       nd_command_gap_resume_qualified = False, nd_operator_disarmed = False,
       nd_button_rearm_takeover = False, nd_rearm_lane_keep_events = 0, nd_rearm_set_events = 0,
       nd_safety_transition_epoch = 0, nd_raw_can_rx_count = 0, nd_raw_can_tx_count = 0,
       nd_raw_can_tx_drop_count = 0, nd_stock_lfa_count = 0, nd_stock_scc_count = 0,
       nd_last_rejected_address = 0, nd_latest_command = empty_command, nd_last_sequence = 0,
       nd_latest_health = initial_health, nd_latest_decision = initial_decision,
       nd_latest_stock_scc = empty_frame, nd_have_stock_scc = False, nd_uds_waiting = False,
       nd_uds_response_address = 0, nd_uds_response = [], nd_camera_disabled = False,
       nd_radar_disabled = False, nd_recovery_retry = initial_retry, nd_last_camera_tester_present = 0,
       nd_last_radar_tester_present = 0\<rparr>)))"

record 'd world =
  w_usb :: "'d usb"
  w_libm :: libm
  w_pass :: "time_point \<Rightarrow> 'd node \<Rightarrow> 'd node"
  w_wait :: "time_point \<Rightarrow> 'd node \<Rightarrow> 'd node"
  w_yield :: "'d node \<Rightarrow> 'd node"
  w_budget :: nat

text \<open>An action of the driver, as a step of the node; the clock.\<close>

definition on_panda :: "('d panda, 'a) action \<Rightarrow> ('d node, 'a) action" where
  "on_panda m = son nd_panda (\<lambda>p n. n\<lparr>nd_panda := p\<rparr>) m"

definition clock :: "'d world \<Rightarrow> ('d node, time_point) action" where
  "clock w = on_panda (usb_call (us_now (w_usb w)))"

definition is_connected :: "'d node \<Rightarrow> bool" where
  "is_connected n = connected (nd_panda n)"

section \<open>Constants\<close>

definition kCameraRequestAddress :: u32 where "kCameraRequestAddress = 0x730"
definition kCameraResponseAddress :: u32 where "kCameraResponseAddress = 0x738"
definition kRadarRequestAddress :: u32 where "kRadarRequestAddress = 0x7D0"
definition kRadarResponseAddress :: u32 where "kRadarResponseAddress = 0x7D8"
definition kUdsResponseTimeout :: time_point where "kUdsResponseTimeout = ms 500"
definition kEcuQuietSettle :: time_point where "kEcuQuietSettle = ms 150"
definition kEcuQuietObservation :: time_point where "kEcuQuietObservation = ms 350"
definition kEcuRestoreObservation :: time_point where "kEcuRestoreObservation = ms 500"
definition kTesterPresentPeriod :: time_point where "kTesterPresentPeriod = ms 800"
definition kStockSccTimeout :: millis where "kStockSccTimeout = 500"
definition kDisableMaximumSpeedMps :: double where "kDisableMaximumSpeedMps = lit (5 / 10) / lit (36 / 10)"

definition kCanPayloadSizes :: "u8 list" where
  "kCanPayloadSizes = [0, 1, 2, 3, 4, 5, 6, 7, 8, 12, 16, 20, 24, 32, 48, 64]"

definition valid_can_payload_size :: "u8 \<Rightarrow> bool" where
  "valid_can_payload_size n \<longleftrightarrow> n \<in> set kCanPayloadSizes"

section \<open>Commands\<close>

text \<open>\<open>ActuationCommand\<close>, without the stamp.\<close>

record actuation_command =
  am_sequence :: u32
  am_enable :: bool
  am_lateral :: double
  am_acceleration :: double

text \<open>The freshness test on the last command.\<close>

definition command_recent :: "node_config \<Rightarrow> command_sample \<Rightarrow> time_point \<Rightarrow> bool" where
  "command_recent c command now \<longleftrightarrow>
     cs_received_at command \<noteq> 0 \<and> cs_received_at command \<le> now \<and>
     now - cs_received_at command \<le> ms (sc_command_timeout (nc_safety c))"

definition command_callback :: "actuation_command \<Rightarrow> time_point \<Rightarrow> 'd node \<Rightarrow> 'd node" where
  "command_callback message received_at n =
     (let last = nd_latest_command n;
          previous_command_fresh = command_recent (nd_config n) last received_at
      in if am_sequence message \<noteq> 0 \<and> nd_last_sequence n \<noteq> 0 \<and> previous_command_fresh \<and>
            \<not> sequence_is_newer (am_sequence message) (nd_last_sequence n) then n
         else if \<not> isfinite (am_lateral message) \<or> \<not> isfinite (am_acceleration message) then
           n\<lparr>nd_latest_command := last\<lparr>cs_valid := False, cs_enable := False, cs_received_at := received_at\<rparr>\<rparr>
         else
           n\<lparr>nd_last_sequence := (if am_sequence message \<noteq> 0 then am_sequence message else nd_last_sequence n),
             nd_latest_command := last
               \<lparr>cs_lateral := am_lateral message,
                cs_acceleration_mps2 := am_acceleration message,
                cs_enable := \<not> nc_use_enable_field (nd_config n) \<or> am_enable message,
                cs_valid := True,
                cs_sequence := am_sequence message,
                cs_received_at := received_at\<rparr>\<rparr>)"

section \<open>Raw transmission\<close>

record raw_can_frame =
  rm_address :: u32
  rm_bus :: u8
  rm_fd :: bool
  rm_extended :: bool
  rm_returned :: bool
  rm_rejected :: bool
  rm_data :: bytes

definition raw_size :: "raw_can_frame \<Rightarrow> u8" where
  "raw_size m = (if length (rm_data m) \<le> 64 then word_of_nat (length (rm_data m)) else 0)"

definition raw_valid :: "raw_can_frame \<Rightarrow> bool" where
  "raw_valid m \<longleftrightarrow> length (rm_data m) \<le> 64 \<and> rm_bus m < 3 \<and> rm_address m < 2 ^ 29 \<and>
     (rm_extended m \<or> rm_address m < 0x800) \<and> valid_can_payload_size (raw_size m) \<and>
     (rm_fd m \<or> raw_size m \<le> 8) \<and> \<not> rm_returned m \<and> \<not> rm_rejected m"

definition raw_frame :: "raw_can_frame \<Rightarrow> can_frame" where
  "raw_frame m = empty_frame\<lparr>cf_address := rm_address m, cf_bus := rm_bus m, cf_fd := rm_fd m,
     cf_extended := rm_extended m, cf_size := raw_size m,
     cf_data := take (unat (raw_size m)) (rm_data m) @ drop (unat (raw_size m)) (cf_data empty_frame)\<rparr>"

definition drop_raw :: "'d node \<Rightarrow> 'd node" where
  "drop_raw n = n\<lparr>nd_raw_can_tx_drop_count := nd_raw_can_tx_drop_count n + 1\<rparr>"

definition raw_can_tx_callback :: "'d world \<Rightarrow> raw_can_frame \<Rightarrow> ('d node, unit) action" where
  "raw_can_tx_callback w message =
     sbind (sgets id) (\<lambda>n.
     if \<not> nc_allow_raw_can_tx (nd_config n) then sret ()
     else if \<not> raw_valid message then smodify drop_raw
     else
       let frame = raw_frame message; decision = nd_latest_decision n
       in if cf_address frame = kLfaAddress \<and> \<not> sd_lateral_allowed decision then smodify drop_raw
          else if \<not> nd_vehicle_safety_mode n \<or> \<not> is_connected n \<or> \<not> sd_longitudinal_allowed decision
          then smodify drop_raw
          else scatch
            (sthen (on_panda (send (w_usb w) [frame]))
              (smodify (\<lambda>n. n\<lparr>nd_raw_can_tx_count := nd_raw_can_tx_count n + 1\<rparr>)))
            (\<lambda>e. smodify drop_raw))"

section \<open>Arming\<close>

text \<open>\<open>arm_callback\<close>: the new state and the answer, success with a message.\<close>

definition arm_callback :: "bool \<Rightarrow> 'd node \<Rightarrow> (bool \<times> string) \<times> 'd node" where
  "arm_callback arm n =
     (if arm \<and> \<not> sc_allow_actuation (nc_safety (nd_config n))
      then ((False, ''safety/allow_actuation is false in YAML''), n)
      else if arm \<and> nd_recovery_pending n
      then ((False, ''ECU restoration is pending; wait for recovery before requesting arm''), n)
      else
        ((True, if arm then ''arm requested; Panda controls_allowed is still required'' else ''disarm requested''),
         n\<lparr>nd_auto_arm_inhibited := \<not> arm, nd_operator_disarmed := \<not> arm, nd_button_rearm_takeover := False,
           nd_command_gap_resume_qualified := False, nd_preserve_command_session := False,
           nd_recovery_rearm_required := (if arm then False else nd_recovery_rearm_required n),
           nd_requested_arm := arm,
           nd_arm_request_generation := nd_arm_request_generation n + 1\<rparr>))"

definition request_internal_disarm :: "bool \<Rightarrow> ('d node, u64) action" where
  "request_internal_disarm require_operator_rearm n =
     (let was_armed = nd_requested_arm n \<or> nd_applied_arm n \<or> nd_vehicle_safety_mode n;
          latch = was_armed \<and> require_operator_rearm;
          generation = nd_arm_request_generation n + 1
      in (Inr generation,
          n\<lparr>nd_preserve_command_session := False, nd_command_gap_resume_qualified := False,
            nd_button_rearm_takeover := False, nd_requested_arm := False,
            nd_auto_arm_inhibited := latch \<or> nd_auto_arm_inhibited n,
            nd_recovery_rearm_required := latch \<or> nd_recovery_rearm_required n,
            nd_recovery_pending := True,
            nd_arm_request_generation := generation\<rparr>))"

section \<open>Observation of received frames\<close>

text \<open>A valid stock frame is counted; the last \<open>SCC_CONTROL\<close> is kept as the template.\<close>

definition note_stock :: "can_frame \<Rightarrow> 'd node \<Rightarrow> 'd node" where
  "note_stock f n =
     (if cf_address f = kLfaAddress then n\<lparr>nd_stock_lfa_count := nd_stock_lfa_count n + 1\<rparr>
      else if cf_address f = kSccControlAddress
      then n\<lparr>nd_stock_scc_count := nd_stock_scc_count n + 1, nd_latest_stock_scc := f, nd_have_stock_scc := True\<rparr>
      else n)"

text \<open>A single-frame answer of an ECU goes to the request that waits for it.\<close>

definition deliver_uds :: "can_frame \<Rightarrow> 'd node \<Rightarrow> 'd node" where
  "deliver_uds f n =
     (if cf_size f \<noteq> 8 \<or> cf_address f \<noteq> kCameraResponseAddress \<and> cf_address f \<noteq> kRadarResponseAddress then n
      else
        let payload_size = cf_data f ! 0 AND 0x0F
        in if cf_data f ! 0 AND 0xF0 \<noteq> 0 \<or> payload_size = 0 \<or> 7 < payload_size then n
           else if \<not> nd_uds_waiting n \<or> cf_address f \<noteq> nd_uds_response_address n then n
           else n\<lparr>nd_uds_response := take (unat payload_size) (drop 1 (cf_data f)), nd_uds_waiting := False\<rparr>)"

definition observe_control_frame :: "can_frame \<Rightarrow> 'd node \<Rightarrow> 'd node" where
  "observe_control_frame f n =
     (if cf_rejected f then n\<lparr>nd_last_rejected_address := cf_address f\<rparr>
      else if cf_returned f \<or> cf_bus f \<noteq> nc_ecan_bus (nd_config n) then n
      else if cf_address f = kLfaAddress \<and> (cf_size f \<noteq> 16 \<or> \<not> checksum_valid f) then n
      else if cf_address f = kSccControlAddress \<and> (cf_size f \<noteq> 32 \<or> \<not> checksum_valid f) then n
      else deliver_uds f (note_stock f n))"

definition copy_recent_scc_template :: "time_point \<Rightarrow> 'd node \<Rightarrow> can_frame option" where
  "copy_recent_scc_template now n =
     (if \<not> nd_have_stock_scc n \<or> cf_received_at (nd_latest_stock_scc n) = 0 \<or>
         now < cf_received_at (nd_latest_stock_scc n) \<or>
         ms kStockSccTimeout < now - cf_received_at (nd_latest_stock_scc n)
      then None else Some (nd_latest_stock_scc n))"

text \<open>One received frame, as \<open>receive_loop\<close> treats it: observed, published (only the count is kept
  here), parsed.\<close>

definition publish_raw_can :: "can_frame \<Rightarrow> 'd node \<Rightarrow> 'd node" where
  "publish_raw_can f n =
     (if \<not> nc_publish_raw_can_rx (nd_config n) then n
      else n\<lparr>nd_raw_can_rx_count := nd_raw_can_rx_count n + 1\<rparr>)"

definition process_frame :: "can_frame \<Rightarrow> ('d node, unit) action" where
  "process_frame f =
     sthen (smodify (observe_control_frame f))
     (sthen (smodify (publish_raw_can f))
     (sbind (sgets (\<lambda>n. parse_update f (nd_parser n))) (\<lambda>r.
      sbind (sreturn r) (\<lambda>(ok, p). smodify (\<lambda>n. n\<lparr>nd_parser := p\<rparr>)))))"

end
