(* ===== verification/Ecu_Session.thy ===== *)
theory Ecu_Session
  imports Node_State
begin

text \<open>
  Taking the actuators over from the stock ECUs and giving them back (\<open>src/node.cpp\<close>): the UDS
  exchanges, silencing and restoring the camera and the radar. These run in the control thread under
  the actuation mutex; where they wait, \<open>w_pass\<close> and \<open>w_wait\<close> are what the receive thread and the
  callbacks do meanwhile. A waiting loop
  is given \<open>w_budget\<close> iterations.
\<close>

section \<open>Texts\<close>

definition hex_digit :: "nat \<Rightarrow> char" where
  "hex_digit n = ''0123456789abcdef'' ! n"

fun hex_of :: "nat \<Rightarrow> string" where
  "hex_of n = (if n < 16 then [hex_digit n] else hex_of (n div 16) @ [hex_digit (n mod 16)])"

fun dec_of :: "nat \<Rightarrow> string" where
  "dec_of n = (if n < 10 then [hex_digit n] else dec_of (n div 10) @ [hex_digit (n mod 10)])"

declare hex_of.simps [simp del] dec_of.simps [simp del]

fun bytes_as_hex :: "bytes \<Rightarrow> string" where
  "bytes_as_hex [] = []"
| "bytes_as_hex [b] = [hex_digit (unat b div 16), hex_digit (unat b mod 16)]"
| "bytes_as_hex (b # bs) = [hex_digit (unat b div 16), hex_digit (unat b mod 16), CHR '' ''] @ bytes_as_hex bs"

text \<open>\<open>error.what()\<close>. The Panda checksum failure, whose text prints its numbers, is only thrown by the
  receive path, which none of these operations calls.\<close>

fun what :: "exn \<Rightarrow> string" where
  "what (Invalid_argument s) = s"
| "what (Out_of_range s) = s"
| "what (Runtime_error s) = s"
| "what (Logic_error s) = s"
| "what _ = []"

definition starts_with :: "bytes \<Rightarrow> bytes \<Rightarrow> bool" where
  "starts_with v prefix \<longleftrightarrow> length prefix \<le> length v \<and> take (length prefix) v = prefix"

section \<open>The two ECUs\<close>

datatype ecu = Camera | Radar

fun label :: "ecu \<Rightarrow> string" where
  "label Camera = ''CAMERA''"
| "label Radar = ''RADAR''"

fun request_address :: "ecu \<Rightarrow> u32" where
  "request_address Camera = kCameraRequestAddress"
| "request_address Radar = kRadarRequestAddress"

fun response_address :: "ecu \<Rightarrow> u32" where
  "response_address Camera = kCameraResponseAddress"
| "response_address Radar = kRadarResponseAddress"

fun owned_address :: "ecu \<Rightarrow> u32" where
  "owned_address Camera = kLfaAddress"
| "owned_address Radar = kSccControlAddress"

fun owned_count :: "ecu \<Rightarrow> 'd node \<Rightarrow> u64" where
  "owned_count Camera n = nd_stock_lfa_count n"
| "owned_count Radar n = nd_stock_scc_count n"

fun is_disabled :: "ecu \<Rightarrow> 'd node \<Rightarrow> bool" where
  "is_disabled Camera n = nd_camera_disabled n"
| "is_disabled Radar n = nd_radar_disabled n"

fun set_disabled :: "ecu \<Rightarrow> bool \<Rightarrow> 'd node \<Rightarrow> 'd node" where
  "set_disabled Camera b n = n\<lparr>nd_camera_disabled := b\<rparr>"
| "set_disabled Radar b n = n\<lparr>nd_radar_disabled := b\<rparr>"

fun last_tester_present :: "ecu \<Rightarrow> 'd node \<Rightarrow> time_point" where
  "last_tester_present Camera n = nd_last_camera_tester_present n"
| "last_tester_present Radar n = nd_last_radar_tester_present n"

fun set_tester_present :: "ecu \<Rightarrow> time_point \<Rightarrow> 'd node \<Rightarrow> 'd node" where
  "set_tester_present Camera t n = n\<lparr>nd_last_camera_tester_present := t\<rparr>"
| "set_tester_present Radar t n = n\<lparr>nd_last_radar_tester_present := t\<rparr>"

section \<open>UDS\<close>

definition pass :: "'d world \<Rightarrow> time_point \<Rightarrow> ('d node, unit) action" where
  "pass w d = smodify (w_pass w d)"

text \<open>\<open>uds_condition_.wait_for\<close>: a wait for at most \<open>d\<close>.\<close>

definition wait_for :: "'d world \<Rightarrow> time_point \<Rightarrow> ('d node, unit) action" where
  "wait_for w d = smodify (w_wait w d)"

text \<open>What the other threads do between two accesses to the shared members, outside of the mutex.\<close>

definition interfere :: "'d world \<Rightarrow> ('d node, unit) action" where
  "interfere w = smodify (w_yield w)"

definition uds_frame :: "u8 \<Rightarrow> u32 \<Rightarrow> bytes \<Rightarrow> can_frame" where
  "uds_frame bus address bs = empty_frame\<lparr>cf_address := address, cf_bus := bus, cf_size := 8,
     cf_data := word_of_nat (length bs) # bs @ drop (1 + length bs) (cf_data empty_frame)\<rparr>"

definition send_uds :: "'d world \<Rightarrow> u32 \<Rightarrow> bytes \<Rightarrow> ('d node, unit) action" where
  "send_uds w address bs =
     (if bs = [] \<or> 7 < length bs
      then sthrow (Invalid_argument ''only single-frame UDS payloads are supported'')
      else
        sbind (sgets (\<lambda>n. nc_ecan_bus (nd_config n))) (\<lambda>bus.
        on_panda (send (w_usb w) [uds_frame bus address bs])))"

definition end_uds_wait :: "'d node \<Rightarrow> 'd node" where
  "end_uds_wait n = n\<lparr>nd_uds_waiting := False, nd_uds_response_address := 0\<rparr>"

text \<open>The wait ends when the answer is in, the node stops, the adapter is gone, or after 500 ms.\<close>

definition uds_request :: "'d world \<Rightarrow> u32 \<Rightarrow> u32 \<Rightarrow> bytes \<Rightarrow> bytes \<Rightarrow> ('d node, bytes) action" where
  "uds_request w request response bs expected_prefix =
     sbind (sgets nd_uds_waiting) (\<lambda>pending.
     if pending then sthrow (Logic_error ''another UDS request is already pending'')
     else
       sthen (smodify (\<lambda>n. n\<lparr>nd_uds_waiting := True, nd_uds_response_address := response, nd_uds_response := []\<rparr>))
       (sthen (scatch (send_uds w request bs) (\<lambda>e. sthen (smodify end_uds_wait) (sthrow e)))
       (sthen (wait_for w kUdsResponseTimeout)
       (sbind (sgets id) (\<lambda>n.
        let completed = \<not> nd_uds_waiting n \<or> \<not> nd_running n \<or> \<not> is_connected n
        in if \<not> completed \<or> nd_uds_waiting n \<or> nd_uds_response n = [] then
             sthen (smodify end_uds_wait)
               (sthrow (Runtime_error (''UDS response timeout for '' @ bytes_as_hex bs)))
           else
             let answer = nd_uds_response n
             in sthen (smodify (\<lambda>n. n\<lparr>nd_uds_response := [], nd_uds_response_address := 0\<rparr>))
                (if hd answer = 0x7F
                 then sthrow (Runtime_error (''UDS negative response: '' @ bytes_as_hex answer))
                 else if \<not> starts_with answer expected_prefix
                 then sthrow (Runtime_error (''unexpected UDS response: '' @ bytes_as_hex answer))
                 else sret answer))))))"

definition send_tester_present :: "'d world \<Rightarrow> ecu \<Rightarrow> ('d node, unit) action" where
  "send_tester_present w e =
     sthen (send_uds w (request_address e) [0x3E, 0x80])
       (sbind (clock w) (\<lambda>t. smodify (set_tester_present e t)))"

definition maintain_ecu :: "'d world \<Rightarrow> time_point \<Rightarrow> ecu \<Rightarrow> ('d node, unit) action" where
  "maintain_ecu w now e =
     sbind (sgets id) (\<lambda>n.
     swhen (is_disabled e n \<and> (last_tester_present e n = 0 \<or> kTesterPresentPeriod \<le> now - last_tester_present e n))
       (send_tester_present w e))"

definition maintain_disabled_ecus :: "'d world \<Rightarrow> time_point \<Rightarrow> ('d node, unit) action" where
  "maintain_disabled_ecus w now = sthen (maintain_ecu w now Camera) (maintain_ecu w now Radar)"

section \<open>Silencing and restoring\<close>

text \<open>\<open>while (running_ && now() < deadline && go) { body; sleep 5 ms }\<close>.\<close>

fun poll :: "'d world \<Rightarrow> nat \<Rightarrow> time_point \<Rightarrow> ('d node \<Rightarrow> bool) \<Rightarrow> ('d node, unit) action \<Rightarrow> ('d node, unit) action" where
  "poll w 0 deadline go body = sthrow Budget_exhausted"
| "poll w (Suc budget) deadline go body =
     sbind (sgets nd_running) (\<lambda>running.
     if \<not> running then sret ()
     else
       sbind (clock w) (\<lambda>t.
       sbind (sgets go) (\<lambda>g.
       if t < deadline \<and> g
       then sthen body (sthen (pass w (ms 5)) (poll w budget deadline go body))
       else sret ())))"

definition frame_text :: "ecu \<Rightarrow> string" where
  "frame_text e = hex_of (unat (owned_address e))"

definition disable_ecu :: "'d world \<Rightarrow> ecu \<Rightarrow> ('d node, unit) action" where
  "disable_ecu w e =
     sbind (sgets (is_disabled e)) (\<lambda>disabled.
     if disabled then sret ()
     else
       sbind (uds_request w (request_address e) (response_address e) [0x10, 0x03] [0x50, 0x03]) (\<lambda>_.
       sthen (send_uds w (request_address e) [0x28, 0x83, 0x01])
       (sthen (smodify (set_disabled e True))
       (sthen (send_tester_present w e)
       (sthen (pass w kEcuQuietSettle)
       (sbind (sgets (owned_count e)) (\<lambda>before.
        sbind (clock w) (\<lambda>t.
        sthen (poll w (w_budget w) (t + kEcuQuietObservation) (\<lambda>_. True)
                 (sbind (clock w) (maintain_disabled_ecus w)))
        (sbind (sgets (owned_count e)) (\<lambda>after.
         let observed = after - before
         in if observed \<noteq> 0
            then sthrow (Runtime_error (label e @ '' disable failed: observed '' @ dec_of (unat observed) @
                   '' stock 0x'' @ frame_text e @ '' frames''))
            else sret ()))))))))))"

text \<open>Wait for a stock frame of the ECU; the answer is how many came.\<close>

definition await_stock :: "'d world \<Rightarrow> ecu \<Rightarrow> ('d node, u64) action" where
  "await_stock w e =
     sbind (sgets (owned_count e)) (\<lambda>before.
     sbind (clock w) (\<lambda>t.
     sthen (poll w (w_budget w) (t + kEcuRestoreObservation) (\<lambda>n. owned_count e n = before) (sret ()))
     (sbind (sgets (owned_count e)) (\<lambda>after. sret (after - before)))))"

definition restore_ecu :: "'d world \<Rightarrow> ecu \<Rightarrow> ('d node, unit) action" where
  "restore_ecu w e =
     sbind (sgets (is_disabled e)) (\<lambda>disabled.
     if \<not> disabled then sret ()
     else
       sbind (sgets (\<lambda>n. rr_failures (nd_recovery_retry n))) (\<lambda>failures.
       sbind (if failures \<noteq> 0 then await_stock w e else sret 0) (\<lambda>resumed.
       if resumed \<noteq> 0 then smodify (set_disabled e False)
       else
         sbind (uds_request w (request_address e) (response_address e) [0x10, 0x03] [0x50, 0x03]) (\<lambda>_.
         sbind (uds_request w (request_address e) (response_address e) [0x28, 0x00, 0x01] [0x68, 0x00]) (\<lambda>_.
         sbind (uds_request w (request_address e) (response_address e) [0x10, 0x01] [0x50, 0x01]) (\<lambda>_.
         sret ()))))))"

definition confirm_ecu_restored :: "'d world \<Rightarrow> ecu \<Rightarrow> ('d node, unit) action" where
  "confirm_ecu_restored w e =
     sbind (sgets (is_disabled e)) (\<lambda>disabled.
     if \<not> disabled then sret ()
     else
       sbind (await_stock w e) (\<lambda>resumed.
       if resumed = 0
       then sthrow (Runtime_error (label e @ '' stock 0x'' @ frame_text e @ '' did not resume''))
       else smodify (set_disabled e False)))"

end
