(* ===== verification/Safety_Modes.thy ===== *)
theory Safety_Modes
  imports Ecu_Session
begin

text \<open>
  The two mode transitions of the node and what surrounds them (\<open>src/node.cpp\<close>):
  \<open>enter_vehicle_safety_mode\<close>, which silences the stock ECUs and arms the Panda's Hyundai mode,
  \<open>enter_no_output_mode\<close>, which gives everything back and collects the errors of its stages, the
  retry of a failed return, and the firmware probe.
\<close>

section \<open>Shared steps\<close>

definition set_panda_mode :: "'d world \<Rightarrow> u16 \<Rightarrow> u16 \<Rightarrow> ('d node, unit) action" where
  "set_panda_mode w mode param = on_panda (set_safety_mode (w_usb w) mode param)"

definition heartbeat :: "'d world \<Rightarrow> bool \<Rightarrow> ('d node, unit) action" where
  "heartbeat w engaged = on_panda (send_heartbeat (w_usb w) engaged)"

definition panda_health_of :: "'d world \<Rightarrow> ('d node, panda_health) action" where
  "panda_health_of w = on_panda (read_health (w_usb w))"

text \<open>A builder of the codec: it advances the codec or throws.\<close>

definition build :: "(codec \<Rightarrow> exn + can_frame \<times> codec) \<Rightarrow> ('d node, can_frame) action" where
  "build f = sbind (sgets (\<lambda>n. f (nd_codec n))) (\<lambda>r.
     case r of Inl e \<Rightarrow> sthrow e
     | Inr (frame, c) \<Rightarrow> sthen (smodify (\<lambda>n. n\<lparr>nd_codec := c\<rparr>)) (sret frame))"

text \<open>\<open>SafetyTransition\<close>: the epoch is odd while the transition runs, however it ends.\<close>

definition bump_epoch :: "'d node \<Rightarrow> 'd node" where
  "bump_epoch n = n\<lparr>nd_safety_transition_epoch := nd_safety_transition_epoch n + 1\<rparr>"

definition in_transition :: "('d node, 'a) action \<Rightarrow> ('d node, 'a) action" where
  "in_transition m =
     sthen (smodify bump_epoch)
     (sbind (scatch m (\<lambda>e. sthen (smodify bump_epoch) (sthrow e))) (\<lambda>x.
      sthen (smodify bump_epoch) (sret x)))"

section \<open>Entering the vehicle safety mode\<close>

definition verify_longitudinal_firmware :: "'d world \<Rightarrow> ('d node, unit) action" where
  "verify_longitudinal_firmware w =
     sbind (panda_health_of w) (\<lambda>before.
     sbind (sgets nd_config) (\<lambda>c.
     sbind (build (\<lambda>k. make_scc_control k (lit 0) (lit 0) False False False (nc_set_speed_kph c) (lit 1)
              (nc_ecan_bus c))) (\<lambda>frame.
     sthen (on_panda (send (w_usb w) [frame]))
     (sfor [0..<5] (\<lambda>attempt.
        sthen (pass w (ms 10))
        (sbind (panda_health_of w) (\<lambda>after.
         if ph_safety_tx_blocked after \<noteq> ph_safety_tx_blocked before
         then sthrow (Runtime_error ''Panda firmware does not allow HYUNDAI longitudinal; flash pinned DEBUG firmware'')
         else sret ())))))))"

definition flag_text :: "bool \<Rightarrow> string" where
  "flag_text b = (if b then ''1'' else ''0'')"

text \<open>The wait for the command session, at most half a second.\<close>

fun await_session :: "'d world \<Rightarrow> nat \<Rightarrow> time_point \<Rightarrow> panda_health \<Rightarrow> ('d node, unit) action" where
  "await_session w 0 deadline readiness = sthrow Budget_exhausted"
| "await_session w (Suc budget) deadline readiness =
     (if ph_command_session_ready readiness then sret ()
      else
        sbind (clock w) (\<lambda>t.
        if deadline \<le> t
        then sthrow (Runtime_error (''Panda command-session CAN did not become ready after takeover: '' @
          ''active='' @ flag_text (ph_command_session_active readiness) @
          '' blocked='' @ flag_text (ph_command_session_blocked readiness) @
          '' rx_invalid='' @ dec_of (unat (ph_safety_rx_invalid readiness)) @
          '' rx_checks_invalid='' @ flag_text (ph_safety_rx_checks_invalid readiness) @
          '' faults='' @ dec_of (unat (ph_faults readiness))))
        else
          sthen (pass w (ms 10))
          (sbind (panda_health_of w) (\<lambda>readiness. await_session w budget deadline readiness))))"

text \<open>What must hold before an ECU may be silenced.\<close>

definition takeover_error :: "vehicle_state \<Rightarrow> bool \<Rightarrow> 'd node \<Rightarrow> exn option" where
  "takeover_error vehicle command_gap_resume n =
     (if nd_recovery_pending n then Some (Runtime_error ''ECU restoration must finish before rearming'')
      else if \<not> vs_valid vehicle \<or> vs_eps_fault vehicle
      then Some (Runtime_error ''vehicle state or EPS is not ready for ADAS ECU disable'')
      else if (\<not> vs_standstill vehicle \<or> kDisableMaximumSpeedMps < vs_speed_mps vehicle) \<and>
              \<not> (command_gap_resume \<and> (nd_command_gap_resume_qualified n \<or> nd_button_rearm_takeover n) \<and>
                 sc_resume_on_command_return (nc_safety (nd_config n)))
      then Some (Runtime_error ''ADAS ECUs may only be disabled while the vehicle is stationary'')
      else None)"

text \<open>The stock template, where longitudinal control needs one.\<close>

definition take_template :: "'d world \<Rightarrow> vehicle_state \<Rightarrow> ('d node, can_frame) action" where
  "take_template w vehicle =
     (if vs_gear vehicle \<noteq> 5 then sthrow (Runtime_error ''longitudinal control must be armed in D (gear=5)'')
      else
        sbind (clock w) (\<lambda>now.
        sbind (sgets (copy_recent_scc_template now)) (\<lambda>stock.
        case stock of
          None \<Rightarrow> sthrow (Runtime_error ''no recent stock ECAN SCC_CONTROL 0x1A0 template'')
        | Some frame \<Rightarrow> sret frame)))"

text \<open>Silencing: the diagnostic mode of the Panda, then the ECUs, with a heartbeat after each.\<close>

definition silence_ecus :: "'d world \<Rightarrow> bool \<Rightarrow> bool \<Rightarrow> u16 \<Rightarrow> ('d node, unit) action" where
  "silence_ecus w allow_longitudinal resume param =
     sthen (heartbeat w False)
     (sthen (set_panda_mode w kSafetyElm327 (if resume then param else kElm327EcanParam))
     (sthen (disable_ecu w Camera)
     (sthen (heartbeat w False)
            (swhen allow_longitudinal (sthen (disable_ecu w Radar) (heartbeat w False))))))"

text \<open>Arming: fresh counters, the template, the Hyundai mode, and the confirmation by the Panda.\<close>

definition install_mode :: "'d world \<Rightarrow> can_frame \<Rightarrow> bool \<Rightarrow> bool \<Rightarrow> u16 \<Rightarrow> ('d node, unit) action" where
  "install_mode w stock_scc allow_longitudinal resume param =
     sthen (smodify (\<lambda>n. n\<lparr>nd_codec := reset_counters (nd_codec n) 0 0 0 0\<rparr>))
     (sthen (swhen allow_longitudinal
        (sbind (sgets (\<lambda>n. set_scc_control_template (nd_codec n) stock_scc)) (\<lambda>r.
         sbind (sreturn r) (\<lambda>c. smodify (\<lambda>n. n\<lparr>nd_codec := c\<rparr>)))))
     (sthen (set_panda_mode w kSafetyHyundaiCanFd param)
     (sthen (swhen resume
        (sbind (clock w) (\<lambda>t.
         sbind (panda_health_of w) (\<lambda>readiness.
         await_session w (w_budget w) (t + ms 500) readiness))))
     (sthen (swhen allow_longitudinal (verify_longitudinal_firmware w))
     (sbind (panda_health_of w) (\<lambda>health.
      if ucast (ph_safety_mode health) \<noteq> kSafetyHyundaiCanFd \<or> ph_safety_param health \<noteq> param
      then sthrow (Runtime_error ''Panda rejected the requested Hyundai CAN-FD safety mode'')
      else sret ()))))))"

definition enter_vehicle_safety_mode :: "'d world \<Rightarrow> vehicle_state \<Rightarrow> bool \<Rightarrow> ('d node, unit) action" where
  "enter_vehicle_safety_mode w vehicle command_gap_resume =
     in_transition (sbind (sgets id) (\<lambda>n.
     let safety = nc_safety (nd_config n); longitudinal = sc_allow_longitudinal safety;
         resume = sc_resume_on_command_return safety; param = sc_required_safety_param safety
     in if nd_vehicle_safety_mode n then sret ()
        else case takeover_error vehicle command_gap_resume n of
          Some e \<Rightarrow> sthrow e
        | None \<Rightarrow>
            sbind (if longitudinal then take_template w vehicle else sret empty_frame) (\<lambda>stock_scc.
            sthen (silence_ecus w longitudinal resume param)
            (sthen (install_mode w stock_scc longitudinal resume param)
            (sthen (sbind (clock w) (maintain_disabled_ecus w))
                   (smodify (\<lambda>n. n\<lparr>nd_vehicle_safety_mode := True, nd_button_rearm_takeover := False\<rparr>)))))))"

section \<open>Returning to NO_OUTPUT\<close>

text \<open>A stage whose error is recorded and not propagated.\<close>

type_synonym stage_errors = "(string \<times> exn) list"

definition attempt :: "string \<Rightarrow> ('d node, unit) action \<Rightarrow> ('d node, stage_errors) action" where
  "attempt stage m = scatch (sthen m (sret [])) (\<lambda>e. sret [(stage, e)])"

fun error_text :: "stage_errors \<Rightarrow> string" where
  "error_text [] = []"
| "error_text [(stage, e)] = stage @ '': '' @ what e"
| "error_text ((stage, e) # es) = stage @ '': '' @ what e @ ''; '' @ error_text es"

definition both_disabled :: "'d node \<Rightarrow> bool" where
  "both_disabled n \<longleftrightarrow> nd_camera_disabled n \<or> nd_radar_disabled n"

definition stage_for :: "ecu \<Rightarrow> bool \<Rightarrow> string \<Rightarrow> ('d node, unit) action \<Rightarrow> ('d node, stage_errors) action" where
  "stage_for e elm_ready stage m =
     sbind (sgets (is_disabled e)) (\<lambda>disabled. if elm_ready \<and> disabled then attempt stage m else sret [])"

text \<open>The last stage: the standby mode of the Panda, confirmed.\<close>

definition install_standby :: "'d world \<Rightarrow> ('d node, unit) action" where
  "install_standby w =
     sbind (sgets id) (\<lambda>n.
     let safety = nc_safety (nd_config n);
         standby_param = recovery_standby_param (sc_required_safety_param safety) (nd_preserve_command_session n)
           (sc_resume_on_command_return safety) (nd_operator_disarmed n)
     in sthen (swhen (standby_param \<noteq> 0 \<and> \<not> nd_preserve_command_session n) (set_panda_mode w kSafetyNoOutput 0))
        (sthen (set_panda_mode w kSafetyNoOutput standby_param)
        (sbind (panda_health_of w) (\<lambda>health.
         if ucast (ph_safety_mode health) \<noteq> kSafetyNoOutput \<or> ph_safety_param health \<noteq> standby_param \<or>
            ph_controls_allowed health
         then sthrow (Runtime_error ''Panda NO_OUTPUT confirmation failed'')
         else smodify (\<lambda>n. n\<lparr>nd_latest_health := health\<rparr>)))))"

text \<open>The Panda must be in its diagnostic mode to reach a silenced ECU.\<close>

definition elm_stage :: "'d world \<Rightarrow> ('d node, stage_errors) action" where
  "elm_stage w =
     sbind (sgets id) (\<lambda>n.
     if \<not> both_disabled n then sret []
     else attempt ''ELM327 restore mode''
       (set_panda_mode w kSafetyElm327
         (if nd_preserve_command_session n then sc_required_safety_param (nc_safety (nd_config n))
          else kElm327EcanParam)))"

definition restore_both :: "'d world \<Rightarrow> bool \<Rightarrow> ('d node, stage_errors) action" where
  "restore_both w elm_ready =
     sbind (stage_for Radar elm_ready ''radar restore'' (sthen (restore_ecu w Radar) (heartbeat w False))) (\<lambda>e1.
     sbind (stage_for Camera elm_ready ''camera restore'' (sthen (restore_ecu w Camera) (heartbeat w False))) (\<lambda>e2.
     sret (e1 @ e2)))"

definition confirm_both :: "'d world \<Rightarrow> bool \<Rightarrow> ('d node, stage_errors) action" where
  "confirm_both w elm_ready =
     sbind (stage_for Radar elm_ready ''radar stock confirmation'' (confirm_ecu_restored w Radar)) (\<lambda>e1.
     sbind (stage_for Camera elm_ready ''camera stock confirmation'' (confirm_ecu_restored w Camera)) (\<lambda>e2.
     sret (e1 @ e2)))"

definition restore_stages :: "'d world \<Rightarrow> ('d node, stage_errors) action" where
  "restore_stages w =
     sbind (attempt ''heartbeat'' (heartbeat w False)) (\<lambda>e1.
     sbind (elm_stage w) (\<lambda>e2.
     sbind (restore_both w (e2 = [])) (\<lambda>e3.
     sbind (confirm_both w (e2 = [])) (\<lambda>e4.
     sbind (attempt ''NO_OUTPUT'' (install_standby w)) (\<lambda>e5.
     sret (e1 @ e2 @ e3 @ e4 @ e5))))))"

definition enter_no_output_mode :: "'d world \<Rightarrow> ('d node, unit) action" where
  "enter_no_output_mode w =
     in_transition
       (sthen (smodify (\<lambda>n. n\<lparr>nd_vehicle_safety_mode := False, nd_recovery_pending := True\<rparr>))
       (sbind (clock w) (\<lambda>now.
        sthen (smodify (\<lambda>n. n\<lparr>nd_recovery_retry := retry_request now (nd_recovery_retry n)\<rparr>))
        (sthen (smodify (\<lambda>n. n\<lparr>nd_recovery_attempts := rr_failures (nd_recovery_retry n) + 1\<rparr>))
        (sbind (restore_stages w) (\<lambda>errors.
         sthen (smodify (\<lambda>n. n\<lparr>nd_codec := reset_counters (clear_scc_control_template (nd_codec n)) 0 0 0 0\<rparr>))
         (if errors \<noteq> [] then
            sthen (smodify (\<lambda>n. n\<lparr>nd_auto_arm_inhibited := True, nd_recovery_rearm_required := True\<rparr>))
            (sbind (clock w) (\<lambda>now.
             sthen (smodify (\<lambda>n. n\<lparr>nd_recovery_retry := retry_failed now (nd_recovery_retry n)\<rparr>))
                   (sthrow (Runtime_error (error_text errors)))))
          else
            smodify (\<lambda>n. n\<lparr>nd_recovery_retry := retry_restored (nd_recovery_retry n),
              nd_recovery_pending := False\<rparr>))))))))"

definition retry_no_output_recovery :: "'d world \<Rightarrow> time_point \<Rightarrow> ('d node, unit) action" where
  "retry_no_output_recovery w now =
     sbind (sgets id) (\<lambda>n.
     if \<not> nd_recovery_pending n \<or> nd_requested_arm n \<or> nd_applied_arm n \<or> nd_vehicle_safety_mode n \<or>
        \<not> is_connected n
     then sret ()
     else
       sthen (smodify (\<lambda>n. n\<lparr>nd_recovery_retry := retry_request now (nd_recovery_retry n)\<rparr>))
       (sbind (sgets (\<lambda>n. retry_due now (nd_recovery_retry n))) (\<lambda>due.
        if \<not> due then sret ()
        else sthen (interfere w) (scatch (enter_no_output_mode w) (\<lambda>e. sret ())))))"

end
