(* ===== verification/Node_Threads.thy ===== *)
theory Node_Threads
  imports Safety_Modes
begin

text \<open>
  What the other threads can do to the node while the control thread waits inside a transition,
  holding the actuation mutex: the receive thread hands over frames and stores health reports, the
  ROS callbacks take commands, arm requests and raw frames, and a receive error whose disconnect
  was already done may still request a disarm. None of them touches what the mutex protects. While
  the control thread does not hold the mutex, they can do more (\<open>free_step\<close>).
\<close>

inductive other_step :: "'d node \<Rightarrow> 'd node \<Rightarrow> bool" where
  step_frame: "other_step n (snd (process_frame f n))"
| step_health: "other_step n (n\<lparr>nd_latest_health := h\<rparr>)"
| step_device: "other_step n (n\<lparr>nd_panda := p\<rparr>)"
| step_command: "other_step n (command_callback c t n)"
| step_arm: "other_step n (snd (arm_callback b n))"
| step_raw_dropped: "other_step n (drop_raw n)"
| step_disarm: "other_step n (snd (request_internal_disarm b n))"
| step_disarmed: "other_step n (n\<lparr>nd_applied_arm := False\<rparr>)"
| step_stop: "other_step n (n\<lparr>nd_running := False\<rparr>)"

text \<open>While the control thread does not hold the mutex, the other threads can also send a raw frame, lose
  the Panda or find it again, and the destructor can give control back. Losing the Panda is one step
  here (\<open>free_lost\<close>), from the disconnect to the disarm; the code releases the mutex after the vehicle
  mode is off and before \<open>request_internal_disarm\<close>, so that the control loop may run between the two,
  with the Panda gone and the disarm still to come. That state in between is not modelled.\<close>

inductive free_step :: "'d world \<Rightarrow> 'd node \<Rightarrow> 'd node \<Rightarrow> bool" for w where
  free_other: "other_step n m \<Longrightarrow> free_step w n m"
| free_raw: "free_step w n (snd (raw_can_tx_callback w message n))"
| free_lost: "free_step w n (snd (request_internal_disarm True (n\<lparr>nd_panda := p, nd_vehicle_safety_mode := False\<rparr>)))"
| free_found: "\<not> both_disabled n \<Longrightarrow> free_step w n (n\<lparr>nd_panda := p, nd_vehicle_safety_mode := False\<rparr>)"
| free_restored: "free_step w n (snd (enter_no_output_mode w n))"

text \<open>The rely condition of the control thread.\<close>

definition others_behave :: "'d world \<Rightarrow> bool" where
  "others_behave w \<longleftrightarrow> (\<forall>d n. other_step\<^sup>*\<^sup>* n (w_pass w d n) \<and> other_step\<^sup>*\<^sup>* n (w_wait w d n)) \<and>
     (\<forall>n. (free_step w)\<^sup>*\<^sup>* n (w_yield w n))"

text \<open>What the actuation mutex protects.\<close>

definition protected_part ::
  "'d node \<Rightarrow> node_config \<times> adapter \<times> supervisor \<times> codec \<times> bool \<times> bool \<times> bool \<times> retry" where
  "protected_part n = (nd_config n, nd_adapter n, nd_supervisor n, nd_codec n, nd_vehicle_safety_mode n,
     nd_camera_disabled n, nd_radar_disabled n, nd_recovery_retry n)"

lemma protected_update [simp]:
  "protected_part (n\<lparr>nd_panda := p\<rparr>) = protected_part n"
  "protected_part (n\<lparr>nd_latest_health := h\<rparr>) = protected_part n"
  "protected_part (n\<lparr>nd_applied_arm := b\<rparr>) = protected_part n"
  "protected_part (n\<lparr>nd_running := b\<rparr>) = protected_part n"
  "protected_part (n\<lparr>nd_parser := q\<rparr>) = protected_part n"
  "protected_part (n\<lparr>nd_uds_waiting := b, nd_uds_response_address := a, nd_uds_response := bs\<rparr>) = protected_part n"
  "protected_part (n\<lparr>nd_uds_response := bs, nd_uds_response_address := a\<rparr>) = protected_part n"
  by (simp_all add: protected_part_def)

lemma protected_if: "protected_part x = y \<Longrightarrow> protected_part z = y \<Longrightarrow> protected_part (if b then x else z) = y"
  by simp

lemma protected_callbacks [simp]:
  "protected_part (end_uds_wait n) = protected_part n"
  "protected_part (set_tester_present e t n) = protected_part n"
  "protected_part (drop_raw n) = protected_part n"
  "protected_part (publish_raw_can f n) = protected_part n"
proof -
  show "protected_part (set_tester_present e t n) = protected_part n" by (cases e) (simp_all add: protected_part_def)
  show "protected_part (publish_raw_can f n) = protected_part n" by (simp add: publish_raw_can_def protected_part_def)
qed (simp_all add: end_uds_wait_def drop_raw_def protected_part_def)

lemma note_stock_protected [simp]: "protected_part (note_stock f n) = protected_part n"
  unfolding note_stock_def by (intro protected_if) (simp_all add: protected_part_def)

lemma deliver_uds_protected [simp]: "protected_part (deliver_uds f n) = protected_part n"
  unfolding deliver_uds_def Let_def by (intro protected_if) (simp_all add: protected_part_def)

lemma observe_protected [simp]: "protected_part (observe_control_frame f n) = protected_part n"
  unfolding observe_control_frame_def by (intro protected_if) (simp_all, simp add: protected_part_def)

lemma command_protected [simp]: "protected_part (command_callback c t n) = protected_part n"
  unfolding command_callback_def Let_def by (intro protected_if) (simp_all add: protected_part_def)

lemma arm_protected [simp]:
  "protected_part (snd (arm_callback b n)) = protected_part n"
  "protected_part (snd (request_internal_disarm b n)) = protected_part n"
  by (simp_all add: arm_callback_def request_internal_disarm_def protected_part_def Let_def)

lemma process_frame_protected [simp]: "protected_part (snd (process_frame f n)) = protected_part n"
proof -
  have "wp (process_frame f) (\<lambda>_ m. protected_part m = protected_part n) (\<lambda>_ m. protected_part m = protected_part n) n"
    by (simp add: process_frame_def wp_rules split: sum.split prod.split)
  then show ?thesis by (cases "process_frame f n"; cases "fst (process_frame f n)") (auto simp: wp_def)
qed

lemma other_step_protected: "other_step n m \<Longrightarrow> protected_part m = protected_part n"
  by (induction rule: other_step.induct) simp_all

lemma other_steps_protected: "other_step\<^sup>*\<^sup>* n m \<Longrightarrow> protected_part m = protected_part n"
  by (induction rule: rtranclp_induct) (simp_all add: other_step_protected)

section \<open>Operations that leave such parts alone\<close>

text \<open>
  A predicate the waits cannot disturb: the other threads keep it, and it does not speak of the
  driver object, the UDS exchange or the tester-present times. The protected part has only such
  predicates.
\<close>

definition undisturbed :: "('d node \<Rightarrow> bool) \<Rightarrow> bool" where
  "undisturbed Q \<longleftrightarrow> (\<forall>n m. other_step n m \<longrightarrow> Q n \<longrightarrow> Q m) \<and>
     (\<forall>n. Q n \<longrightarrow> (\<forall>p. Q (n\<lparr>nd_panda := p\<rparr>)) \<and> (\<forall>e t. Q (set_tester_present e t n)) \<and> Q (end_uds_wait n) \<and>
       (\<forall>b a bs. Q (n\<lparr>nd_uds_waiting := b, nd_uds_response_address := a, nd_uds_response := bs\<rparr>)) \<and>
       (\<forall>a bs. Q (n\<lparr>nd_uds_response := bs, nd_uds_response_address := a\<rparr>)))"

lemma undisturbed_protected: "undisturbed (\<lambda>n. P (protected_part n))"
  by (auto simp: undisturbed_def dest: other_step_protected)

lemma undisturbed_step: "undisturbed Q \<Longrightarrow> other_step n m \<Longrightarrow> Q n \<Longrightarrow> Q m"
  by (auto simp: undisturbed_def)

lemma undisturbed_steps: "other_step\<^sup>*\<^sup>* n m \<Longrightarrow> undisturbed Q \<Longrightarrow> Q n \<Longrightarrow> Q m"
  by (induction rule: rtranclp_induct) (auto intro: undisturbed_step)

lemma keeps_on_panda: "undisturbed Q \<Longrightarrow> keeps Q (on_panda m)"
  unfolding on_panda_def keeps_def wp_son by (auto simp: wp_def undisturbed_def split: prod.split sum.split)

lemma keeps_clock: "undisturbed Q \<Longrightarrow> keeps Q (clock w)"
  unfolding clock_def by (rule keeps_on_panda)

lemma keeps_pass: "others_behave w \<Longrightarrow> undisturbed Q \<Longrightarrow> keeps Q (pass w d)"
  unfolding pass_def others_behave_def by (rule keeps_smodify) (blast intro: undisturbed_steps)

lemma keeps_wait_for: "others_behave w \<Longrightarrow> undisturbed Q \<Longrightarrow> keeps Q (wait_for w d)"
  unfolding wait_for_def others_behave_def by (rule keeps_smodify) (blast intro: undisturbed_steps)

text \<open>A predicate that is stable under the steps outside of the mutex.\<close>

definition stable :: "'d world \<Rightarrow> ('d node \<Rightarrow> bool) \<Rightarrow> bool" where
  "stable w Q \<longleftrightarrow> (\<forall>n m. free_step w n m \<longrightarrow> Q n \<longrightarrow> Q m)"

lemma stable_steps: "(free_step w)\<^sup>*\<^sup>* n m \<Longrightarrow> stable w Q \<Longrightarrow> Q n \<Longrightarrow> Q m"
  by (induction rule: rtranclp_induct) (auto simp: stable_def)

lemma keeps_interfere: "others_behave w \<Longrightarrow> stable w Q \<Longrightarrow> keeps Q (interfere w)"
  unfolding interfere_def others_behave_def by (rule keeps_smodify) (blast intro: stable_steps)

text \<open>Stability, from the operations the steps consist of.\<close>

lemma stableI:
  assumes "undisturbed Q" and "\<And>msg. keeps Q (raw_can_tx_callback w msg)" and "keeps Q (enter_no_output_mode w)"
    and "\<And>n p. Q n \<Longrightarrow> Q (snd (request_internal_disarm True (n\<lparr>nd_panda := p, nd_vehicle_safety_mode := False\<rparr>)))"
    and "\<And>n p. Q n \<Longrightarrow> \<not> both_disabled n \<Longrightarrow> Q (n\<lparr>nd_panda := p, nd_vehicle_safety_mode := False\<rparr>)"
  shows "stable w Q"
  unfolding stable_def
proof (intro allI impI)
  fix n m assume "free_step w n m" and q: "Q n"
  then show "Q m"
  proof cases
    case free_other then show ?thesis using undisturbed_step [OF assms(1)] q by blast
  next
    case (free_raw msg) then show ?thesis using keepsD [OF assms(2) q] by simp
  next
    case free_restored then show ?thesis using keepsD [OF assms(3) q] by simp
  qed (use assms(4,5) q in simp_all)
qed

lemma keeps_heartbeat: "undisturbed Q \<Longrightarrow> keeps Q (heartbeat w b)"
  unfolding heartbeat_def by (rule keeps_on_panda)

lemma keeps_set_panda_mode: "undisturbed Q \<Longrightarrow> keeps Q (set_panda_mode w a b)"
  unfolding set_panda_mode_def by (rule keeps_on_panda)

lemma keeps_panda_health: "undisturbed Q \<Longrightarrow> keeps Q (panda_health_of w)"
  unfolding panda_health_of_def by (rule keeps_on_panda)

lemmas device_rules = keeps_on_panda keeps_clock keeps_pass keeps_wait_for keeps_heartbeat keeps_set_panda_mode keeps_panda_health

lemma keeps_send_uds: "undisturbed Q \<Longrightarrow> keeps Q (send_uds w a bs)"
  unfolding send_uds_def by (intro keeps_rules device_rules)

lemma keeps_uds_request: "others_behave w \<Longrightarrow> undisturbed Q \<Longrightarrow> keeps Q (uds_request w a r bs prefix)"
  unfolding uds_request_def
  by (intro keeps_rules device_rules keeps_send_uds) (simp_all add: undisturbed_def)

lemma keeps_tester_present: "undisturbed Q \<Longrightarrow> keeps Q (send_tester_present w e)"
  unfolding send_tester_present_def
  by (intro keeps_rules device_rules keeps_send_uds) (simp_all add: undisturbed_def)

lemma keeps_maintain: "undisturbed Q \<Longrightarrow> keeps Q (maintain_disabled_ecus w t)"
  unfolding maintain_disabled_ecus_def maintain_ecu_def by (intro keeps_rules keeps_tester_present)

lemma keeps_poll:
  "others_behave w \<Longrightarrow> undisturbed Q \<Longrightarrow> keeps Q body \<Longrightarrow> keeps Q (poll w k deadline go body)"
proof (induction k)
  case (Suc k)
  show ?case unfolding poll.simps by (intro keeps_rules device_rules Suc)
qed (simp add: keeps_sthrow)

lemma keeps_await_stock: "others_behave w \<Longrightarrow> undisturbed Q \<Longrightarrow> keeps Q (await_stock w e)"
  unfolding await_stock_def by (intro keeps_rules device_rules keeps_poll)

lemma keeps_await_session: "others_behave w \<Longrightarrow> undisturbed Q \<Longrightarrow> keeps Q (await_session w k deadline h)"
proof (induction k arbitrary: h)
  case (Suc k)
  show ?case unfolding await_session.simps by (intro keeps_rules device_rules Suc)
qed (simp add: keeps_sthrow)

lemmas waiting_rules = keeps_rules device_rules keeps_send_uds keeps_uds_request keeps_tester_present
  keeps_maintain keeps_poll keeps_await_stock keeps_await_session

lemma callbacks_recovery_pending [simp]:
  "nd_recovery_pending (command_callback c t n) = nd_recovery_pending n"
  "nd_recovery_pending (snd (arm_callback b n)) = nd_recovery_pending n"
  "nd_recovery_pending (snd (request_internal_disarm b n))"
  "nd_recovery_pending (drop_raw n) = nd_recovery_pending n"
  "nd_recovery_pending (note_stock f n) = nd_recovery_pending n"
  "nd_recovery_pending (deliver_uds f n) = nd_recovery_pending n"
  "nd_recovery_pending (publish_raw_can f n) = nd_recovery_pending n"
  "nd_recovery_pending (set_tester_present e t n) = nd_recovery_pending n"
  "nd_recovery_pending (end_uds_wait n) = nd_recovery_pending n"
proof -
  show "nd_recovery_pending (set_tester_present e t n) = nd_recovery_pending n" by (cases e) simp_all
qed (simp_all add: command_callback_def arm_callback_def request_internal_disarm_def drop_raw_def note_stock_def
  deliver_uds_def publish_raw_can_def end_uds_wait_def Let_def)

lemma undisturbed_recovery_pending: "undisturbed nd_recovery_pending"
proof -
  have "nd_recovery_pending (snd (process_frame f n))" if "nd_recovery_pending n" for f and n :: "'a node"
  proof -
    have "keeps nd_recovery_pending (process_frame f)" unfolding process_frame_def
      by (intro keeps_rules) (simp_all add: observe_control_frame_def)
    from keepsD [OF this that] show ?thesis .
  qed
  then show ?thesis by (auto simp: undisturbed_def elim: other_step.cases)
qed

end
