(* ===== verification/Node_Demo.thy ===== *)
theory Node_Demo
  imports Node_Threads Usb_Properties Adapter_Properties Supervisor_Properties
begin

text \<open>
  A concrete node for the witnesses: the one the constructor builds from a parameter server that
  only allows actuation and longitudinal control, on the small device of \<open>Usb_Properties\<close>, in a world
  where a wait only lets time pass.
\<close>

definition demo_params :: params where
  "demo_params = \<lparr>pm_bool = (\<lambda>name. if name \<in> {''safety/allow_actuation'', ''safety/allow_longitudinal''} then Some True else None),
     pm_int = (\<lambda>name. None), pm_double = (\<lambda>name. None), pm_string = (\<lambda>name. None), pm_doubles = (\<lambda>name. None)\<rparr>"

definition demo_device :: demo where
  "demo_device = (False, [], 5)"

definition demo_node :: "demo node" where
  "demo_node = (case make_node demo_params demo_device of Inr n \<Rightarrow> n)"

lemma demo_adapter_config: "load_adapter_config demo_params = Inr sample_adapter_config"
  by (simp add: load_adapter_config_def demo_params_def parameter_def lateral_mode_from_string_def
    sample_adapter_config_def default_adapter_config_def Let_def)

definition demo_config :: node_config where
  "demo_config = load_values demo_params sample_adapter_config"

lemmas demo_config_defs = demo_config_def load_values_def load_safety_config_def demo_params_def parameter_def

lemma demo_configuration: "load_configuration demo_params = Inr demo_config"
proof -
  have "check_config demo_config = Inr demo_config"
    by (simp add: check_config_def demo_config_defs Let_def rnd_numeral)
  then show ?thesis by (simp add: load_configuration_def demo_adapter_config demo_config_def)
qed

lemma demo_components:
  "make_supervisor (nc_safety demo_config) = Inr initial_supervisor" "nc_adapter demo_config = sample_adapter_config"
  by (simp_all add: make_supervisor_def demo_config_defs Let_def)

lemma make_demo: "make_node demo_params demo_device = Inr demo_node"
  by (simp add: demo_node_def make_node_def demo_configuration make_sample_adapter demo_components)

lemma demo_fields:
  "nd_config demo_node = demo_config" "nd_panda demo_node = make_panda (nc_panda demo_config) demo_device"
  "nd_vehicle_safety_mode demo_node = False" "nd_recovery_pending demo_node = False"
  "nd_camera_disabled demo_node = False" "nd_radar_disabled demo_node = False"
  "nd_recovery_retry demo_node = initial_retry" "nd_codec demo_node = initial_codec"
  "nd_adapter demo_node = initial_adapter" "nd_supervisor demo_node = initial_supervisor"
  by (simp_all add: demo_node_def make_node_def demo_configuration make_sample_adapter demo_components)

text \<open>A wait that lets time pass.\<close>

definition demo_pass :: "time_point \<Rightarrow> demo node \<Rightarrow> demo node" where
  "demo_pass d n = (case pu_device (nd_panda n) of (a, s, t) \<Rightarrow> n\<lparr>nd_panda := (nd_panda n)\<lparr>pu_device := (a, s, t + d)\<rparr>\<rparr>)"

definition demo_world :: "demo world" where
  "demo_world = \<lparr>w_usb = demo_usb, w_libm = sample_libm, w_pass = demo_pass, w_wait = demo_pass, w_yield = id, w_budget = 101\<rparr>"

lemma demo_others: "others_behave demo_world"
proof -
  have "other_step n (demo_pass d n)" for d n
    by (cases "pu_device (nd_panda n)") (simp add: demo_pass_def step_device)
  then show ?thesis by (auto simp: others_behave_def demo_world_def)
qed

end
