(* ===== verification/Wait_Properties.thy ===== *)
theory Wait_Properties
  imports Node_Demo
begin

text \<open>
  The waiting loops end. Where time does not run backwards and a wait of \<open>d\<close> nanoseconds takes at
  least \<open>d\<close>, 101 iterations are enough for every loop of the mode transitions, so that a transition
  always returns or throws one of the code's own exceptions.
\<close>

section \<open>Time\<close>

text \<open>The documented behaviour of a steady clock: reading it gives its value, it never goes back, and a
  thread that sleeps for \<open>d\<close> wakes no earlier.\<close>

definition time_of :: "('d \<Rightarrow> time_point) \<Rightarrow> 'd node \<Rightarrow> time_point" where
  "time_of time n = time (pu_device (nd_panda n))"

definition steady :: "'d world \<Rightarrow> ('d \<Rightarrow> time_point) \<Rightarrow> bool" where
  "steady w time \<longleftrightarrow>
     (\<forall>t. kept_without_alloutput (w_usb w) (\<lambda>d. t \<le> time d)) \<and>
     (\<forall>d. fst (us_now (w_usb w) d) = time (snd (us_now (w_usb w) d))) \<and>
     (\<forall>d n. time_of time n + d \<le> time_of time (w_pass w d n))"

text \<open>An action that ends by itself, and one that time does not run backwards in.\<close>

definition ends :: "('s, 'a) action \<Rightarrow> bool" where
  "ends m \<longleftrightarrow> (\<forall>s. wp m (\<lambda>_ _. True) (\<lambda>e _. e \<noteq> Budget_exhausted) s)"

named_theorems ends_rules \<open>actions that end\<close>

lemma ends_simple [ends_rules]: "ends (sret x)" "ends (sgets f)" "ends (smodify g)"
  by (simp_all add: ends_def wp_rules)

lemma ends_sthrow [ends_rules]: "e \<noteq> Budget_exhausted \<Longrightarrow> ends (sthrow e)"
  by (simp add: ends_def wp_rules)

lemma ends_sreturn [ends_rules]: "r \<noteq> Inl Budget_exhausted \<Longrightarrow> ends (sreturn r)"
  by (auto simp: ends_def wp_rules split: sum.split)

lemma ends_sbind [ends_rules]: "ends m \<Longrightarrow> (\<And>x. ends (f x)) \<Longrightarrow> ends (sbind m f)"
  unfolding ends_def wp_rules by (blast intro: wp_mono)

lemma ends_sthen [ends_rules]: "ends m \<Longrightarrow> ends k \<Longrightarrow> ends (sthen m k)"
  unfolding sthen_def by (rule ends_sbind)

lemma ends_rethrow [ends_rules]: "ends m \<Longrightarrow> ends k \<Longrightarrow> ends (scatch m (\<lambda>e. sthen k (sthrow e)))"
  unfolding ends_def wp_rules by (blast intro: wp_mono)

lemma ends_scatch [ends_rules]: "(\<And>e. ends (h e)) \<Longrightarrow> ends (scatch m h)"
  unfolding ends_def wp_rules by (blast intro: wp_mono wp_True)

lemma ends_swhen [ends_rules]: "ends m \<Longrightarrow> ends (swhen b m)"
  by (simp add: swhen_def ends_simple)

lemma ends_if [ends_rules]: "(b \<Longrightarrow> ends m) \<Longrightarrow> (\<not> b \<Longrightarrow> ends k) \<Longrightarrow> ends (if b then m else k)"
  by simp

lemma ends_cases [ends_rules]:
  "(x = None \<Longrightarrow> ends m) \<Longrightarrow> (\<And>y. x = Some y \<Longrightarrow> ends (k y)) \<Longrightarrow> ends (case x of None \<Rightarrow> m | Some y \<Rightarrow> k y)"
  "(\<And>a b. p = (a, b) \<Longrightarrow> ends (g a b)) \<Longrightarrow> ends (case p of (a, b) \<Rightarrow> g a b)"
  "ends (f v) \<Longrightarrow> ends (Let v f)"
  by (simp_all split: option.split prod.split)

lemma ends_sfor [ends_rules]: "(\<And>i. ends (f i)) \<Longrightarrow> ends (sfor is f)"
  by (induction "is") (simp_all add: ends_rules)

lemma ends_on_panda [ends_rules]: "ends m \<Longrightarrow> ends (on_panda m)"
  unfolding on_panda_def ends_def wp_son by blast

lemma ends_usb [ends_rules]: "ends (usb_call f)" "ends (usb_do g)"
  by (simp_all add: ends_def wp_usb_call wp_usb_do)

lemma endsD: "ends m \<Longrightarrow> fst (m s) \<noteq> Inl Budget_exhausted"
  by (cases "m s"; cases "fst (m s)") (auto simp: ends_def wp_def dest: spec [of _ s])

section \<open>The driver\<close>

lemma ends_control [ends_rules]: "ends ensure_connected" "ends (control_write u r v i)" "ends (control_read u r v i n)"
  unfolding ensure_connected_def control_write_def control_read_def
  by (intro ends_rules; simp)+

lemma ends_requests [ends_rules]:
  "ends (set_safety_mode u a b)" "ends (send_heartbeat u c)" "ends (read_session u msg)"
  unfolding set_safety_mode_def send_heartbeat_def read_session_def by (intro ends_rules; simp)+

lemma ends_bus_off [ends_rules]: "ends (read_bus_off u e buses b)"
  by (induction buses arbitrary: b) (simp_all add: ends_rules split: prod.split)

lemma ends_read_health [ends_rules]: "ends (read_health u)"
  unfolding read_health_def by (intro ends_rules; simp)

text \<open>The pure builders throw none but their own exceptions either.\<close>

abbreviation proper :: "exn + 'a \<Rightarrow> bool" where
  "proper r \<equiv> r \<noteq> Inl Budget_exhausted"

lemma proper_ebind: "proper m \<Longrightarrow> (\<And>x. proper (f x)) \<Longrightarrow> proper (ebind m f)"
  by (cases m) auto

lemma proper_if: "(b \<Longrightarrow> proper x) \<Longrightarrow> (\<not> b \<Longrightarrow> proper y) \<Longrightarrow> proper (if b then x else y)"
  by simp

lemma proper_throw: "e \<noteq> Budget_exhausted \<Longrightarrow> proper (Inl e)" "proper (Inr x)"
  by simp_all

lemma proper_set_signal: "proper (set_signal d s n v order)"
proof -
  have "proper (set_be_loop d raw b k)" for d raw b k
    by (induction d raw b k rule: set_be_loop.induct) simp_all
  then show ?thesis by (simp add: set_signal_def split: byte_order.split)
qed

lemma proper_set_signals: "proper (set_signals d fs)"
  by (induction d fs rule: set_signals.induct) (simp_all add: proper_ebind proper_set_signal)

lemma proper_seal: "proper (seal_frame a b d)"
  unfolding seal_frame_def write_checksum_def checksum_def
  by (intro proper_ebind) (simp_all add: Let_def split: option.split)

lemma proper_to_raw: "proper (physical_to_raw v f off n)"
proof -
  have "proper (to_uint64 x)" for x by (cases x) simp_all
  then show ?thesis by (simp add: physical_to_raw_def Let_def)
qed

lemma proper_scc: "proper (make_scc_control c r v en st gas s j bus)"
  unfolding make_scc_control_def Let_def
  by (intro proper_if proper_throw proper_ebind proper_to_raw proper_set_signals proper_seal) simp

lemma proper_pack: "pack_frames_into fs = (r, out) \<Longrightarrow> proper r"
proof -
  assume packed: "pack_frames_into fs = (r, out)"
  have dlc: "proper (length_to_dlc n)" for n by (simp add: length_to_dlc_def Let_def)
  have "proper (pack_frame f)" for f
    unfolding pack_frame_def Let_def by (intro proper_if proper_throw proper_ebind dlc) simp
  then have "proper (fst (pack_loop fs out))" for out
    by (induction fs arbitrary: out) (auto split: sum.split)
  from this [of "[]"] packed show ?thesis by (simp add: pack_frames_into_def)
qed

lemma ends_send_loop: "ends (send_loop u h t buffer position)"
proof (induction u h t buffer position rule: send_loop.induct)
  case (1 u h t buffer position)
  show ?case by (subst send_loop.simps) (intro ends_rules 1, (assumption | simp)+)
qed

lemma ends_send [ends_rules]: "ends (send u frames)"
  unfolding send_def by (intro ends_rules ends_send_loop) (rule proper_pack)

lemma ends_clock [ends_rules]: "ends (clock w)" "ends (pass w d)" "ends (wait_for w d)"
  unfolding clock_def pass_def wait_for_def by (intro ends_rules)+

lemma ends_build [ends_rules]: "(\<And>c. proper (b c)) \<Longrightarrow> ends (build b)"
  by (auto simp: ends_def build_def wp_rules split: sum.split prod.split)

lemma ends_uds [ends_rules]:
  "ends (send_uds w a bs)" "ends (uds_request w a r bs prefix)" "ends (send_tester_present w e)"
  "ends (maintain_disabled_ecus w t)"
  unfolding uds_request_def send_uds_def send_tester_present_def maintain_disabled_ecus_def maintain_ecu_def
  by (intro ends_rules; simp)+

lemma ends_modes [ends_rules]:
  "ends (set_panda_mode w a b)" "ends (heartbeat w c)" "ends (panda_health_of w)" "ends (verify_longitudinal_firmware w)"
  unfolding set_panda_mode_def heartbeat_def panda_health_of_def verify_longitudinal_firmware_def
  by (intro ends_rules proper_scc; simp)+

section \<open>The polling loops\<close>

abbreviation no_earlier :: "('d \<Rightarrow> time_point) \<Rightarrow> time_point \<Rightarrow> 'd node \<Rightarrow> bool" where
  "no_earlier time t \<equiv> \<lambda>n. t \<le> time_of time n"

lemma keeps_time_on_panda: "keeps (on_device (\<lambda>d. t \<le> time d)) m \<Longrightarrow> keeps (no_earlier time t) (on_panda m)"
  unfolding on_panda_def keeps_def wp_son time_of_def by simp

lemma keeps_time_clock: "steady w time \<Longrightarrow> keeps (no_earlier time t) (clock w)"
  unfolding clock_def steady_def by (intro keeps_time_on_panda kept_calls) simp

lemma keeps_time_maintain: "steady w time \<Longrightarrow> keeps (no_earlier time t) (sbind (clock w) (maintain_disabled_ecus w))"
proof -
  assume s: "steady w time"
  have present: "keeps (no_earlier time t) (send_tester_present w e)" for e
    unfolding send_tester_present_def send_uds_def using s
    by (intro keeps_rules keeps_time_clock keeps_time_on_panda keeps_send)
      (simp_all add: steady_def time_of_def, cases e, simp_all)
  show ?thesis unfolding maintain_disabled_ecus_def maintain_ecu_def
    by (intro keeps_rules keeps_time_clock present s)
qed

lemma wp_steady_clock:
  assumes "steady w time"
  shows "wp (clock w) (\<lambda>t m. t = time_of time m \<and> time_of time n \<le> time_of time m) (\<lambda>_ _. False) n"
proof -
  have "time (pu_device (nd_panda n)) \<le> time (snd (us_now (w_usb w) (pu_device (nd_panda n))))"
    using assms unfolding steady_def kept_without_alloutput_def by (metis order_refl)
  then show ?thesis using assms by (simp add: clock_def on_panda_def wp_rules wp_usb_call steady_def time_of_def)
qed

lemma poll_ends:
  assumes "steady w time" and "ends body" and "\<And>t. keeps (no_earlier time t) body"
    and "deadline \<le> time_of time n + int k * ms 5"
  shows "wp (poll w (Suc k) deadline go body) (\<lambda>_ _. True) (\<lambda>e _. e \<noteq> Budget_exhausted) n"
  using assms(4)
proof (induction k arbitrary: n)
  case 0
  show ?case unfolding poll.simps(2) wp_sbind wp_sgets wp_if
    by (simp add: wp_sret, intro impI wp_mono [OF wp_steady_clock [OF assms(1)]])
      (use 0 in \<open>auto simp: wp_sret simp del: poll.simps\<close>)
next
  case (Suc k)
  have wait: "wp (sthen body (sthen (pass w (ms 5)) (poll w (Suc k) deadline go body))) (\<lambda>_ _. True)
      (\<lambda>e _. e \<noteq> Budget_exhausted) m" if "time_of time n \<le> time_of time m" for m
  proof -
    have body: "wp body (\<lambda>_ q. time_of time m \<le> time_of time q) (\<lambda>e _. e \<noteq> Budget_exhausted) m"
      using wp_conj [OF keeps_wp [OF assms(3), of "time_of time m" m] assms(2) [unfolded ends_def, rule_format, of m]]
      by (rule wp_mono) simp_all
    have rest: "deadline \<le> time_of time (w_pass w (ms 5) q) + int k * ms 5" if "time_of time m \<le> time_of time q" for q
    proof -
      have "time_of time q + ms 5 \<le> time_of time (w_pass w (ms 5) q)" using assms(1) by (simp add: steady_def)
      with that \<open>time_of time n \<le> time_of time m\<close> Suc.prems show ?thesis by (simp add: algebra_simps)
    qed
    show ?thesis unfolding wp_sthen pass_def wp_smodify
      by (rule wp_mono [OF body], rule Suc.IH, rule rest) simp_all
  qed
  show ?case unfolding poll.simps(2) [of w "Suc k"] wp_sbind wp_sgets wp_if
    by (simp add: wp_sret del: poll.simps, intro impI wp_mono [OF wp_steady_clock [OF assms(1)]])
      (auto simp: wp_sret wait simp del: poll.simps)
qed

text \<open>The three loops, with 70, 100 and 50 iterations between their deadlines and their pauses.\<close>

definition enough :: "'d world \<Rightarrow> bool" where
  "enough w \<longleftrightarrow> 101 \<le> w_budget w"

lemma poll_from_now:
  assumes "steady w time" and "enough w" and "ends body" and "\<And>t. keeps (no_earlier time t) body"
    and "window \<le> ms 500"
  shows "ends (sbind (clock w) (\<lambda>t. poll w (w_budget w) (t + window) go body))"
  unfolding ends_def wp_sbind
proof
  fix n
  obtain k where k: "w_budget w = Suc k" "100 \<le> k" using assms(2) by (cases "w_budget w") (auto simp: enough_def)
  then have fits: "window \<le> int k * ms 5" using assms(5) by (simp add: ms_def)
  show "wp (clock w) (\<lambda>t. wp (poll w (w_budget w) (t + window) go body) (\<lambda>_ _. True) (\<lambda>e _. e \<noteq> Budget_exhausted))
      (\<lambda>e _. e \<noteq> Budget_exhausted) n"
    unfolding k(1) by (rule wp_mono [OF wp_steady_clock [OF assms(1)]], rule poll_ends [OF assms(1,3,4)])
      (use fits in simp_all)
qed

lemma ends_clock_poll:
  assumes "steady w time" and "enough w" and "ends body" and "\<And>t. keeps (no_earlier time t) body"
    and "window \<le> ms 500" and "ends k"
  shows "ends (sbind (clock w) (\<lambda>t. sthen (poll w (w_budget w) (t + window) go body) k))"
proof -
  have "sbind (clock w) (\<lambda>t. sthen (poll w (w_budget w) (t + window) go body) k) =
      sthen (sbind (clock w) (\<lambda>t. poll w (w_budget w) (t + window) go body)) k"
    by (simp add: fun_eq_iff sthen_def sbind_def split: prod.split sum.split)
  then show ?thesis using poll_from_now [OF assms(1-5)] assms(6) by (simp add: ends_sthen)
qed

lemma ends_disable: "steady w time \<Longrightarrow> enough w \<Longrightarrow> ends (disable_ecu w e)"
  unfolding disable_ecu_def Let_def
  by (intro ends_rules ends_clock_poll keeps_time_maintain) (simp_all add: kEcuQuietObservation_def ms_def)

lemma ends_await_stock: "steady w time \<Longrightarrow> enough w \<Longrightarrow> ends (await_stock w e)"
  unfolding await_stock_def
  by (intro ends_rules ends_clock_poll keeps_rules) (simp_all add: kEcuRestoreObservation_def)

lemma ends_restore: "steady w time \<Longrightarrow> enough w \<Longrightarrow> ends (restore_ecu w e)"
  unfolding restore_ecu_def by (intro ends_rules ends_await_stock)

lemma ends_confirm: "steady w time \<Longrightarrow> enough w \<Longrightarrow> ends (confirm_ecu_restored w e)"
  unfolding confirm_ecu_restored_def by (intro ends_rules ends_await_stock) simp_all

lemma health_later:
  assumes "steady w time"
  shows "wp (panda_health_of w) (\<lambda>_ q. time_of time m \<le> time_of time q) (\<lambda>e _. e \<noteq> Budget_exhausted) m"
proof -
  have "keeps (no_earlier time (time_of time m)) (panda_health_of w)"
    unfolding panda_health_of_def using assms
    by (intro keeps_time_on_panda keeps_read_health) (simp add: steady_def)
  from wp_conj [OF keeps_wp [OF this] ends_modes(3) [unfolded ends_def, rule_format, of w m]] show ?thesis
    by (rule wp_mono) simp_all
qed

lemma await_session_ends:
  assumes "steady w time" and "deadline \<le> time_of time n + int k * ms 10"
  shows "wp (await_session w (Suc k) deadline h) (\<lambda>_ _. True) (\<lambda>e _. e \<noteq> Budget_exhausted) n"
  using assms(2)
proof (induction k arbitrary: n h)
  case 0
  show ?case unfolding await_session.simps(2) wp_if
    by (simp add: wp_sret wp_sbind, intro impI wp_mono [OF wp_steady_clock [OF assms(1)]])
      (use 0 in \<open>auto simp: wp_rules simp del: await_session.simps\<close>)
next
  case (Suc k)
  have wait: "wp (sthen (pass w (ms 10)) (sbind (panda_health_of w) (\<lambda>h. await_session w (Suc k) deadline h)))
      (\<lambda>_ _. True) (\<lambda>e _. e \<noteq> Budget_exhausted) m" if "time_of time n \<le> time_of time m" for m
  proof -
    have "time_of time m + ms 10 \<le> time_of time (w_pass w (ms 10) m)" using assms(1) by (simp add: steady_def)
    with that Suc.prems have "deadline \<le> time_of time (w_pass w (ms 10) m) + int k * ms 10" by (simp add: algebra_simps)
    then show ?thesis unfolding wp_sthen wp_sbind pass_def wp_smodify
      by (intro wp_mono [OF health_later [OF assms(1)]] Suc.IH) simp_all
  qed
  show ?case unfolding await_session.simps(2) [of w "Suc k"] wp_if
    by (simp add: wp_sret wp_sbind [of "clock w"] del: await_session.simps, intro impI wp_mono [OF wp_steady_clock [OF assms(1)]])
      (auto simp: wp_rules wait [unfolded wp_rules] simp del: await_session.simps)
qed

lemma ends_await_session:
  assumes "steady w time" and "enough w"
  shows "ends (sbind (clock w) (\<lambda>t. sbind (panda_health_of w) (\<lambda>h. await_session w (w_budget w) (t + ms 500) h)))"
  unfolding ends_def wp_sbind
proof
  fix n
  obtain k where k: "w_budget w = Suc k" "100 \<le> k" using assms(2) by (cases "w_budget w") (auto simp: enough_def)
  show "wp (clock w) (\<lambda>t. wp (panda_health_of w)
      (\<lambda>h. wp (await_session w (w_budget w) (t + ms 500) h) (\<lambda>_ _. True) (\<lambda>e _. e \<noteq> Budget_exhausted))
      (\<lambda>e _. e \<noteq> Budget_exhausted)) (\<lambda>e _. e \<noteq> Budget_exhausted) n"
    unfolding k(1)
    by (rule wp_mono [OF wp_steady_clock [OF assms(1)]], rule wp_mono [OF health_later [OF assms(1)]], rule await_session_ends [OF assms(1)])
      (use k(2) in \<open>auto simp: ms_def\<close>)
qed

section \<open>The transitions\<close>

lemma ends_in_transition: "ends m \<Longrightarrow> ends (in_transition m)"
  unfolding in_transition_def by (intro ends_rules)

lemma ends_attempt: "ends (attempt stage m)" "ends (stage_for e b stage m)"
  unfolding attempt_def stage_for_def by (intro ends_rules)+

lemma ends_template:
  "ends (sbind (sgets (\<lambda>n. set_scc_control_template (nd_codec n) f)) (\<lambda>r. sbind (sreturn r) (\<lambda>c. smodify (g c))))"
  by (auto simp: ends_def wp_rules set_scc_control_template_def)

lemma ends_confirmed_by_panda:
  "ends (sbind (panda_health_of w) (\<lambda>h. if b h then sthrow (Runtime_error msg) else sret ()))"
  by (intro ends_rules) simp

lemma ends_install: "steady w time \<Longrightarrow> enough w \<Longrightarrow> ends (install_mode w f long r p)"
  unfolding install_mode_def
  by (intro ends_sthen ends_swhen ends_simple ends_template ends_modes ends_await_session ends_confirmed_by_panda)

text \<open>C23: a mode transition ends. With a steady clock and 101 iterations for each of the waiting loops,
  entering the vehicle mode returns or throws an exception of the code, and so do restoring an ECU and
  confirming that it is back, the two operations in which the return to NO_OUTPUT waits (its handlers
  would take an endless loop for a failed stage), whatever the adapter, the ECUs and the other
  threads do: no loop runs past its deadline.\<close>

theorem transitions_end:
  assumes "steady w time" and "101 \<le> w_budget w"
  shows "fst (enter_vehicle_safety_mode w vehicle resume n) \<noteq> Inl Budget_exhausted \<and>
    fst (restore_ecu w e n) \<noteq> Inl Budget_exhausted \<and>
    fst (confirm_ecu_restored w e n) \<noteq> Inl Budget_exhausted \<and>
    fst (enter_no_output_mode w n) \<noteq> Inl Budget_exhausted"
proof -
  have enough: "enough w" using assms(2) by (simp add: enough_def)
  have takeover: "ends (if long then take_template w vehicle else sret f)" for long f
    unfolding take_template_def by (intro ends_rules) simp_all
  have silence: "ends (silence_ecus w long r p)" for long r p
    unfolding silence_ecus_def by (intro ends_rules ends_disable [OF assms(1) enough])
  have "takeover_error vehicle resume n = Some x \<Longrightarrow> x \<noteq> Budget_exhausted" for n :: "'a node" and x
    by (auto simp: takeover_error_def split: if_splits)
  then have "ends (enter_vehicle_safety_mode w vehicle resume)" unfolding enter_vehicle_safety_mode_def
    by (intro ends_in_transition ends_rules takeover silence ends_install [OF assms(1) enough]) simp_all
  moreover have "ends (enter_no_output_mode w)"
    unfolding enter_no_output_mode_def restore_stages_def elm_stage_def restore_both_def confirm_both_def
    by (intro ends_in_transition ends_rules ends_attempt) simp_all
  ultimately show ?thesis using ends_restore [OF assms(1) enough] ends_confirm [OF assms(1) enough] by (simp add: endsD)
qed

lemma demo_steady: "steady demo_world (\<lambda>(a, s, t). t)"
  by (auto simp: steady_def kept_without_alloutput_def demo_world_def demo_usb_def time_of_def demo_pass_def
    split: prod.split)

theorem transitions_end_witness:
  "fst (enter_vehicle_safety_mode demo_world sample_vehicle False demo_node) \<noteq> Inl Budget_exhausted"
  using transitions_end [OF demo_steady, of sample_vehicle False demo_node] by (simp add: demo_world_def)

section \<open>More iterations make no difference\<close>

text \<open>
  Some operations catch what is thrown in them, and would take a loop that used up its iterations
  for a stage that failed. That they end is stated differently: with 101 iterations for each loop or
  any larger number, the operation is the same function, so that its result is the one of the
  code's loop, which has no bound. A loop that ran on would give a different state for each number.
\<close>

abbreviation granted :: "'d world \<Rightarrow> nat \<Rightarrow> 'd world" where
  "granted w b \<equiv> w\<lparr>w_budget := b\<rparr>"

lemma steady_granted [simp]: "steady (granted w b) time = steady w time"
  by (simp add: steady_def)

lemma granted_budget: "w_budget (granted w b) = b"
  by simp

text \<open>The steps that do not loop do not know of the number.\<close>

lemma unbounded_steps [simp]:
  "clock (granted w b) = clock w" "pass (granted w b) = pass w" "wait_for (granted w b) = wait_for w"
  "interfere (granted w b) = interfere w" "send_uds (granted w b) = send_uds w"
  "set_panda_mode (granted w b) = set_panda_mode w" "heartbeat (granted w b) = heartbeat w"
  "panda_health_of (granted w b) = panda_health_of w"
  by (simp_all add: fun_eq_iff clock_def pass_def wait_for_def interfere_def send_uds_def set_panda_mode_def
      heartbeat_def panda_health_of_def cong: if_cong)

lemma unbounded_exchanges [simp]:
  "uds_request (granted w b) = uds_request w" "send_tester_present (granted w b) = send_tester_present w"
  "verify_longitudinal_firmware (granted w b) = verify_longitudinal_firmware w"
  "take_template (granted w b) = take_template w" "install_standby (granted w b) = install_standby w"
  "elm_stage (granted w b) = elm_stage w"
  by (intro ext; unfold uds_request_def send_tester_present_def verify_longitudinal_firmware_def
      take_template_def install_standby_def elm_stage_def unbounded_steps; simp)+

lemma unbounded_maintenance [simp]: "maintain_disabled_ecus (granted w b) = maintain_disabled_ecus w"
  unfolding fun_eq_iff maintain_disabled_ecus_def maintain_ecu_def unbounded_exchanges by simp

lemma granted_loops [simp]:
  "poll (granted w b) k deadline go body = poll w k deadline go body"
  "await_session (granted w b) k deadline h = await_session w k deadline h"
proof -
  show "poll (granted w b) k deadline go body = poll w k deadline go body" by (induction k) (simp_all cong: if_cong)
  show "await_session (granted w b) k deadline h = await_session w k deadline h"
  proof (induction k arbitrary: h)
    case (Suc k)
    show ?case unfolding await_session.simps unbounded_steps Suc ..
  qed simp
qed

text \<open>A loop that ended within its iterations ends the same with more of them.\<close>

lemma poll_more:
  "fst (poll w k deadline go body n) \<noteq> Inl Budget_exhausted \<Longrightarrow> k \<le> j \<Longrightarrow>
   poll w j deadline go body n = poll w k deadline go body n"
proof (induction k arbitrary: j n)
  case 0
  then show ?case by (simp add: sthrow_def)
next
  case (Suc k)
  obtain i where i: "j = Suc i" "k \<le> i" using Suc.prems(2) by (cases j) simp_all
  have tail: "sthen body (sthen (pass w (ms 5)) (poll w i deadline go body)) m =
      sthen body (sthen (pass w (ms 5)) (poll w k deadline go body)) m"
    if "fst (sthen body (sthen (pass w (ms 5)) (poll w k deadline go body)) m) \<noteq> Inl Budget_exhausted" for m
    unfolding sthen_def
    by (rule sbind_agree, use that in \<open>simp add: sthen_def\<close>, rule sbind_agree, assumption) (rule Suc.IH [OF _ i(2)])
  show ?case unfolding i(1) poll.simps(2)
    by (rule sbind_agree, use Suc.prems(1) in \<open>simp only: poll.simps(2) not_False_eq_True\<close>)
      (auto simp: tail intro!: sbind_agree [where e = Budget_exhausted] split: if_splits)
qed

lemma await_more:
  "fst (await_session w k deadline h n) \<noteq> Inl Budget_exhausted \<Longrightarrow> k \<le> j \<Longrightarrow>
   await_session w j deadline h n = await_session w k deadline h n"
proof (induction k arbitrary: j h n)
  case 0
  then show ?case by (simp add: sthrow_def)
next
  case (Suc k)
  obtain i where i: "j = Suc i" "k \<le> i" using Suc.prems(2) by (cases j) simp_all
  have tail: "sthen (pass w (ms 10)) (sbind (panda_health_of w) (\<lambda>h. await_session w i deadline h)) m =
      sthen (pass w (ms 10)) (sbind (panda_health_of w) (\<lambda>h. await_session w k deadline h)) m"
    if "fst (sthen (pass w (ms 10)) (sbind (panda_health_of w) (\<lambda>h. await_session w k deadline h)) m) \<noteq> Inl Budget_exhausted" for m
    unfolding sthen_def
    by (rule sbind_agree, use that in \<open>simp add: sthen_def\<close>, rule sbind_agree, assumption) (rule Suc.IH [OF _ i(2)])
  show ?case
  proof (cases "ph_command_session_ready h")
    case False
    show ?thesis unfolding i(1) await_session.simps(2) if_not_P [OF False]
      by (rule sbind_agree, use Suc.prems(1) in \<open>simp only: await_session.simps(2) if_not_P [OF False] not_False_eq_True\<close>)
        (auto simp: tail split: if_splits)
  qed (simp add: i(1))
qed

text \<open>A wait from now with more iterations than it needs.\<close>

lemma clock_returns: obtains t m where "clock w n = (Inr t, m)"
  by (cases "clock w n") (auto simp: clock_def on_panda_def son_def usb_call_def split: prod.splits)

lemma poll_same:
  assumes "steady w time" and "101 \<le> b" and "ends body" and "\<And>t. keeps (no_earlier time t) body" and "window \<le> ms 500"
  shows "sbind (clock w) (\<lambda>t. sthen (poll w b (t + window) go body) k) =
    sbind (clock w) (\<lambda>t. sthen (poll w 101 (t + window) go body) k)"
proof
  fix n
  obtain t m where now: "clock w n = (Inr t, m)" by (rule clock_returns)
  have "steady (granted w 101) time" "enough (granted w 101)" using assms(1) by (simp_all add: enough_def)
  from poll_from_now [OF this assms(3-5), of go]
  have "fst (poll w 101 (t + window) go body m) \<noteq> Inl Budget_exhausted"
    using endsD [of "sbind (clock w) (\<lambda>t. poll w 101 (t + window) go body)" n] now by (simp add: sbind_def)
  from poll_more [OF this assms(2)] now
  show "sbind (clock w) (\<lambda>t. sthen (poll w b (t + window) go body) k) n =
    sbind (clock w) (\<lambda>t. sthen (poll w 101 (t + window) go body) k) n" by (simp add: sbind_def sthen_def)
qed

lemma await_same:
  assumes "steady w time" and "101 \<le> b"
  shows "sbind (clock w) (\<lambda>t. sbind (panda_health_of w) (\<lambda>h. await_session w b (t + ms 500) h)) =
    sbind (clock w) (\<lambda>t. sbind (panda_health_of w) (\<lambda>h. await_session w 101 (t + ms 500) h))"
proof
  fix n
  have "steady (granted w 101) time" "enough (granted w 101)" using assms(1) by (simp_all add: enough_def)
  from endsD [OF ends_await_session [OF this], of n]
  have fin: "fst (sbind (clock w) (\<lambda>t. sbind (panda_health_of w) (\<lambda>h. await_session w 101 (t + ms 500) h)) n) \<noteq> Inl Budget_exhausted"
    by simp
  show "sbind (clock w) (\<lambda>t. sbind (panda_health_of w) (\<lambda>h. await_session w b (t + ms 500) h)) n =
    sbind (clock w) (\<lambda>t. sbind (panda_health_of w) (\<lambda>h. await_session w 101 (t + ms 500) h)) n"
    by (rule sbind_agree [OF fin], rule sbind_agree, assumption) (rule await_more [OF _ assms(2)])
qed

text \<open>Each transition is one function for all numbers from 101 on.\<close>

lemma same_ecu:
  assumes "steady w time" and "101 \<le> b"
  shows "disable_ecu (granted w b) e = disable_ecu (granted w 101) e"
    "await_stock (granted w b) e = await_stock (granted w 101) e"
proof -
  have maintain: "ends (sbind (clock w) (maintain_disabled_ecus w))" by (intro ends_rules)
  have "kEcuQuietObservation \<le> ms 500" by (simp add: kEcuQuietObservation_def ms_def)
  note quiet = poll_same [OF assms maintain keeps_time_maintain [OF assms(1)] this]
  show "disable_ecu (granted w b) e = disable_ecu (granted w 101) e"
    unfolding disable_ecu_def unbounded_steps unbounded_exchanges unbounded_maintenance granted_loops granted_budget quiet ..
  have "kEcuRestoreObservation \<le> ms 500" by (simp add: kEcuRestoreObservation_def)
  note stock = poll_same [OF assms ends_simple(1) keeps_sret this]
  show "await_stock (granted w b) e = await_stock (granted w 101) e"
    unfolding await_stock_def unbounded_steps granted_loops granted_budget stock ..
qed

lemma same_restore:
  assumes "steady w time" and "101 \<le> b"
  shows "restore_ecu (granted w b) e = restore_ecu (granted w 101) e"
    "confirm_ecu_restored (granted w b) e = confirm_ecu_restored (granted w 101) e"
    "silence_ecus (granted w b) long r p = silence_ecus (granted w 101) long r p"
    "install_mode (granted w b) f long r p = install_mode (granted w 101) f long r p"
  unfolding restore_ecu_def confirm_ecu_restored_def silence_ecus_def install_mode_def
    unbounded_steps unbounded_exchanges granted_loops granted_budget same_ecu [OF assms] await_same [OF assms]
  by (rule refl)+

lemma same_modes:
  assumes "steady w time" and "101 \<le> b"
  shows "enter_vehicle_safety_mode (granted w b) v r = enter_vehicle_safety_mode (granted w 101) v r"
    "enter_no_output_mode (granted w b) = enter_no_output_mode (granted w 101)"
    "retry_no_output_recovery (granted w b) t = retry_no_output_recovery (granted w 101) t"
proof -
  show "enter_vehicle_safety_mode (granted w b) v r = enter_vehicle_safety_mode (granted w 101) v r"
    unfolding enter_vehicle_safety_mode_def unbounded_steps unbounded_exchanges unbounded_maintenance
      same_restore [OF assms] ..
  show no_output: "enter_no_output_mode (granted w b) = enter_no_output_mode (granted w 101)"
    unfolding enter_no_output_mode_def restore_stages_def restore_both_def confirm_both_def
      unbounded_steps unbounded_exchanges same_restore [OF assms] ..
  show "retry_no_output_recovery (granted w b) t = retry_no_output_recovery (granted w 101) t"
    unfolding retry_no_output_recovery_def unbounded_steps no_output ..
qed

end
