(* ===== verification/Control_Loop.thy ===== *)
theory Control_Loop
  imports Safety_Modes
begin

text \<open>
  The two threads of the node (\<open>receive_loop\<close> and \<open>control_loop\<close> of \<open>src/node.cpp\<close>) and its
  destructor. A definition is one iteration of a loop, from the end of its sleep; the local variables
  of the loop are a record. An iteration that \<open>continue\<close>s returns early. The other threads act between
  the accesses of the control loop to the shared members, wherever \<open>interfere\<close> stands; the code
  between two of these points is one step.
\<close>

section \<open>The control loop\<close>

record control_locals =
  lc_next :: time_point
  lc_previous :: time_point
  lc_frame_index :: u64
  lc_applied_arm_generation :: u64
  lc_previous_state :: control_state

definition control_period :: "node_config \<Rightarrow> time_point" where
  "control_period c = 1000000000 div nc_control_rate_hz c"

definition start_control :: "node_config \<Rightarrow> time_point \<Rightarrow> time_point \<Rightarrow> control_locals" where
  "start_control c t1 t2 = \<lparr>lc_next = t1 + control_period c, lc_previous = t2, lc_frame_index = 0,
     lc_applied_arm_generation = 0, lc_previous_state = Disconnected\<rparr>"

text \<open>What an iteration samples at its start.\<close>

record sample =
  sm_now :: time_point
  sm_dt :: double
  sm_command :: command_sample
  sm_health :: panda_health
  sm_vehicle :: vehicle_state

definition make_sample ::
  "time_point \<Rightarrow> time_point \<Rightarrow> command_sample \<Rightarrow> panda_health \<Rightarrow> vehicle_state \<Rightarrow> sample" where
  "make_sample now previous command health vehicle =
     \<lparr>sm_now = now, sm_dt = of_integer (now - previous) / lit 1000000000,
      sm_command = command, sm_health = health, sm_vehicle = vehicle\<rparr>"

text \<open>Three reads under three mutexes.\<close>

definition take_sample :: "'d world \<Rightarrow> time_point \<Rightarrow> time_point \<Rightarrow> ('d node, sample) action" where
  "take_sample w now previous =
     sbind (sgets nd_latest_command) (\<lambda>command.
     sthen (interfere w)
     (sbind (sgets nd_latest_health) (\<lambda>health.
      sthen (interfere w)
      (sbind (sgets (\<lambda>n. snapshot now (nc_vehicle_state_timeout (nd_config n)) (nd_parser n))) (\<lambda>vehicle.
       sret (make_sample now previous command health vehicle))))))"

definition advance_time :: "node_config \<Rightarrow> time_point \<Rightarrow> control_locals \<Rightarrow> control_locals" where
  "advance_time c now l =
     (let period = control_period c; next = lc_next l + period
      in l\<lparr>lc_previous := now, lc_next := (if next + period < now then now + period else next)\<rparr>)"

text \<open>\<open>previous = now(); next = previous + period; continue\<close>.\<close>

definition restart_period :: "'d world \<Rightarrow> control_locals \<Rightarrow> ('d node, control_locals) action" where
  "restart_period w l =
     sbind (clock w) (\<lambda>t. sgets (\<lambda>n. l\<lparr>lc_previous := t, lc_next := t + control_period (nd_config n)\<rparr>))"

subsection \<open>Arming\<close>

definition longitudinal_preflight_ready :: "sample \<Rightarrow> 'd node \<Rightarrow> bool" where
  "longitudinal_preflight_ready s n \<longleftrightarrow>
     \<not> sc_allow_longitudinal (nc_safety (nd_config n)) \<or>
     vs_standstill (sm_vehicle s) \<and> vs_speed_mps (sm_vehicle s) \<le> kDisableMaximumSpeedMps \<and>
     vs_gear (sm_vehicle s) = 5 \<and> copy_recent_scc_template (sm_now s) n \<noteq> None"

definition session_live :: "panda_health \<Rightarrow> bool" where
  "session_live h \<longleftrightarrow> ph_command_session_active h \<and> ph_command_session_ready h \<and> \<not> ph_command_session_blocked h"

definition in_standby :: "safety_config \<Rightarrow> panda_health \<Rightarrow> bool" where
  "in_standby c h \<longleftrightarrow> ucast (ph_safety_mode h) = kSafetyNoOutput \<and> ph_safety_param h = sc_required_safety_param c"

definition listener_ready :: "safety_config \<Rightarrow> panda_health \<Rightarrow> bool" where
  "listener_ready c h \<longleftrightarrow>
     sc_resume_on_command_return c \<and> ph_ignition_on h \<and> in_standby c h \<and> session_live h"

text \<open>A press of LDA or SET since the last iteration acknowledges a latched fault.\<close>

definition engage_press :: "vehicle_state \<Rightarrow> 'd node \<Rightarrow> bool" where
  "engage_press v n \<longleftrightarrow> nd_rearm_lane_keep_events n < vs_lane_keep_button_events v \<or>
     nd_rearm_set_events n < vs_set_button_events v"

definition note_events :: "vehicle_state \<Rightarrow> 'd node \<Rightarrow> 'd node" where
  "note_events v n = n\<lparr>nd_rearm_lane_keep_events := vs_lane_keep_button_events v,
     nd_rearm_set_events := vs_set_button_events v\<rparr>"

definition may_acknowledge :: "'d node \<Rightarrow> bool" where
  "may_acknowledge n \<longleftrightarrow> sc_resume_on_command_return (nc_safety (nd_config n)) \<and> \<not> nd_operator_disarmed n \<and>
     \<not> nd_requested_arm n \<and> (nd_auto_arm_inhibited n \<or> nd_recovery_rearm_required n)"

definition note_engage_press :: "'d world \<Rightarrow> vehicle_state \<Rightarrow> ('d node, unit) action" where
  "note_engage_press w v =
     sbind (sgets (engage_press v)) (\<lambda>pressed.
     sthen (smodify (note_events v))
     (sbind (sgets may_acknowledge) (\<lambda>may.
      sthen (interfere w)
      (swhen (pressed \<and> may)
        (smodify (\<lambda>n. n\<lparr>nd_auto_arm_inhibited := False, nd_recovery_rearm_required := False,
           nd_button_rearm_takeover := True\<rparr>))))))"

definition auto_arm_ready :: "sample \<Rightarrow> 'd node \<Rightarrow> bool" where
  "auto_arm_ready s n \<longleftrightarrow>
     (let c = nc_safety (nd_config n); command = sm_command s
      in nc_auto_arm_on_command (nd_config n) \<and> \<not> nd_auto_arm_inhibited n \<and> \<not> nd_recovery_pending n \<and>
         sc_allow_actuation c \<and> vs_valid (sm_vehicle s) \<and> \<not> vs_eps_fault (sm_vehicle s) \<and>
         ph_connected (sm_health s) \<and>
         (listener_ready c (sm_health s) \<or>
          command_recent (nd_config n) command (sm_now s) \<and> cs_valid command \<and> cs_enable command \<and>
          longitudinal_preflight_ready s n \<and> \<not> sc_resume_on_command_return c))"

definition raise_request :: "'d node \<Rightarrow> 'd node" where
  "raise_request n =
     (if nd_requested_arm n then n
      else n\<lparr>nd_requested_arm := True, nd_arm_request_generation := nd_arm_request_generation n + 1\<rparr>)"

definition auto_arm :: "'d world \<Rightarrow> sample \<Rightarrow> ('d node, unit) action" where
  "auto_arm w s =
     sbind (sgets (auto_arm_ready s)) (\<lambda>ready. sthen (interfere w) (swhen ready (smodify raise_request)))"

text \<open>\<open>supervisor_->request_arm(arm)\<close>.\<close>

definition supervise_arm :: "bool \<Rightarrow> ('d node, bool) action" where
  "supervise_arm arm n =
     (case request_arm (nc_safety (nd_config n)) arm (nd_supervisor n) of
        (ok, s) \<Rightarrow> (Inr ok, n\<lparr>nd_supervisor := s\<rparr>))"

definition set_applied_arm :: "bool \<Rightarrow> ('d node, unit) action" where
  "set_applied_arm b = smodify (\<lambda>n. n\<lparr>nd_applied_arm := b\<rparr>)"

definition internal_disarm :: "('d node, unit) action" where
  "internal_disarm = sthen (request_internal_disarm True) (sret ())"

text \<open>The listener of a command session is installed in the standby mode.\<close>

definition install_listener :: "'d world \<Rightarrow> control_locals \<Rightarrow> ('d node, control_locals) action" where
  "install_listener w l =
     in_transition
       (sbind (sgets (\<lambda>n. sc_required_safety_param (nc_safety (nd_config n)))) (\<lambda>param.
        sthen (set_panda_mode w kSafetyNoOutput param)
        (sbind (panda_health_of w) (\<lambda>h.
         sthen (smodify (\<lambda>n. n\<lparr>nd_latest_health := h\<rparr>))
               (restart_period w l)))))"

text \<open>A handled arm request: the new locals, and whether the iteration goes on.\<close>

definition apply_arm :: "'d world \<Rightarrow> sample \<Rightarrow> bool \<Rightarrow> control_locals \<Rightarrow> ('d node, bool \<times> control_locals) action" where
  "apply_arm w s requested l =
     sbind (sgets (\<lambda>n. sc_resume_on_command_return (nc_safety (nd_config n)))) (\<lambda>resume.
     if requested \<and> resume \<and> \<not> ph_command_session_active (sm_health s)
     then sbind (install_listener w l) (\<lambda>l. sret (False, l))
     else
       sbind (sgets is_connected) (\<lambda>c.
       sthen (interfere w)
       (if requested \<and> c \<and> \<not> resume
        then sthen (enter_vehicle_safety_mode w (sm_vehicle s) False)
               (sbind (restart_period w l) (\<lambda>l. sret (False, l)))
        else if \<not> requested \<and> c
        then sbind (sgets (\<lambda>n. nd_recovery_pending n \<and> \<not> nd_vehicle_safety_mode n)) (\<lambda>pending.
             sthen (interfere w)
             (sthen (if pending then sbind (clock w) (retry_no_output_recovery w) else enter_no_output_mode w)
                    (sret (True, l))))
        else sret (True, l))))"

definition arm_failed :: "'d world \<Rightarrow> ('d node, unit) action" where
  "arm_failed w =
     sthen internal_disarm
     (sthen (interfere w)
     (sbind (supervise_arm False) (\<lambda>_.
      sthen (set_applied_arm False)
      (sthen (interfere w)
      (sbind (sgets is_connected) (\<lambda>c. swhen c (sbind (clock w) (retry_no_output_recovery w))))))))"

text \<open>The request and its generation are two loads, in this order.\<close>

definition handle_arm_request :: "'d world \<Rightarrow> sample \<Rightarrow> control_locals \<Rightarrow> ('d node, bool \<times> control_locals) action" where
  "handle_arm_request w s l =
     sbind (sgets nd_requested_arm) (\<lambda>requested.
     sthen (interfere w)
     (sbind (sgets nd_arm_request_generation) (\<lambda>generation.
      sbind (sgets is_connected) (\<lambda>c.
      if generation \<noteq> lc_applied_arm_generation l \<and> (\<not> requested \<or> c) then
        let l = l\<lparr>lc_applied_arm_generation := generation\<rparr>
        in sbind (supervise_arm requested) (\<lambda>ok.
           if ok then
             sthen (set_applied_arm requested)
             (sthen (interfere w)
               (scatch (apply_arm w s requested l) (\<lambda>e. sthen (arm_failed w) (sret (True, l)))))
           else
             sthen internal_disarm (sthen (interfere w) (sthen (set_applied_arm False) (sret (True, l)))))
      else sret (True, l)))))"

subsection \<open>The command session\<close>

text \<open>\<open>supervisor_->update\<close> on the samples; the decision becomes visible where the code stores it.\<close>

definition supervise :: "sample \<Rightarrow> ('d node, safety_decision) action" where
  "supervise s n =
     (case update (nc_safety (nd_config n)) (sm_now s) (sm_vehicle s) (sm_health s) (sm_command s) (nd_supervisor n) of
        (t, d) \<Rightarrow> (Inr d, n\<lparr>nd_supervisor := t\<rparr>))"

definition store_decision :: "safety_decision \<Rightarrow> ('d node, unit) action" where
  "store_decision d = smodify (\<lambda>n. n\<lparr>nd_latest_decision := d\<rparr>)"

definition log_and_disarm :: "('d node, unit) action \<Rightarrow> ('d node, unit) action" where
  "log_and_disarm m = scatch m (\<lambda>e. internal_disarm)"

text \<open>The answer to a command gap: stock control comes back, the session is kept.\<close>

definition yield_to_stock ::
  "'d world \<Rightarrow> sample \<Rightarrow> safety_decision \<Rightarrow> control_locals \<Rightarrow> ('d node, control_locals) action" where
  "yield_to_stock w s d l =
     sthen (smodify (\<lambda>n. n
        \<lparr>nd_command_gap_resume_qualified := lc_previous_state l = Active \<and> (sd_lateral_armed d \<or> sd_longitudinal_armed d),
         nd_preserve_command_session := True,
         nd_adapter := reset (sm_vehicle s) (nd_adapter n)\<rparr>))
     (sthen (interfere w)
     (sthen (log_and_disarm (enter_no_output_mode w))
     (sthen (interfere w)
     (sthen (store_decision d)
            (restart_period w (l\<lparr>lc_previous_state := sd_state d\<rparr>))))))"

definition moving_resume :: "sample \<Rightarrow> 'd node \<Rightarrow> bool" where
  "moving_resume s n \<longleftrightarrow>
     (nd_command_gap_resume_qualified n \<or> nd_button_rearm_takeover n) \<and> session_live (sm_health s)"

definition takeover_ready :: "sample \<Rightarrow> safety_decision \<Rightarrow> bool \<Rightarrow> 'd node \<Rightarrow> bool" where
  "takeover_ready s d resume n \<longleftrightarrow>
     nd_applied_arm n \<and> nd_requested_arm n \<and> in_standby (nc_safety (nd_config n)) (sm_health s) \<and>
     \<not> nd_vehicle_safety_mode n \<and> \<not> nd_recovery_pending n \<and> sd_state d = Armed \<and>
     (sd_lateral_armed d \<or> sd_longitudinal_armed d) \<and>
     command_recent (nd_config n) (sm_command s) (sm_now s) \<and> cs_valid (sm_command s) \<and> cs_enable (sm_command s) \<and>
     ph_command_session_ready (sm_health s) \<and> (vs_standstill (sm_vehicle s) \<or> resume)"

definition take_over :: "'d world \<Rightarrow> sample \<Rightarrow> bool \<Rightarrow> control_locals \<Rightarrow> ('d node, control_locals) action" where
  "take_over w s resume l =
     sthen (log_and_disarm
        (sthen (enter_vehicle_safety_mode w (sm_vehicle s) resume)
        (sbind (clock w) (\<lambda>t.
         sthen (smodify (\<lambda>n. n\<lparr>nd_adapter :=
            reset (snapshot t (nc_vehicle_state_timeout (nd_config n)) (nd_parser n)) (nd_adapter n)\<rparr>))
         (sthen (interfere w)
         (sbind (panda_health_of w) (\<lambda>h. smodify (\<lambda>n. n\<lparr>nd_latest_health := h\<rparr>))))))))
       (restart_period w l)"

text \<open>The part of an iteration that only runs with command sessions: \<open>None\<close> where it goes on.\<close>

definition drop_longitudinal :: "'d world \<Rightarrow> sample \<Rightarrow> safety_decision \<Rightarrow> ('d node, bool) action" where
  "drop_longitudinal w s d =
     (if \<not> sd_longitudinal_armed d \<and> ph_longitudinal_selected (sm_health s)
      then scatch (sthen (on_panda (drop_longitudinal_permission (w_usb w))) (sret True))
                  (\<lambda>e. sthen internal_disarm (sret False))
      else sret True)"

definition resume_stage ::
  "'d world \<Rightarrow> sample \<Rightarrow> safety_decision \<Rightarrow> control_locals \<Rightarrow> ('d node, control_locals option) action" where
  "resume_stage w s d l =
     sbind (sgets (moving_resume s)) (\<lambda>resume.
     sthen (interfere w)
     (sbind (sgets (takeover_ready s d resume)) (\<lambda>ready.
      sthen (interfere w)
      (if ready then sbind (take_over w s resume l) (\<lambda>l. sret (Some l)) else sret None))))"

definition session_stage ::
  "'d world \<Rightarrow> sample \<Rightarrow> safety_decision \<Rightarrow> control_locals \<Rightarrow> ('d node, control_locals option) action" where
  "session_stage w s d l =
     sbind (drop_longitudinal w s d) (\<lambda>dropped.
     if \<not> dropped then sret (Some l)
     else
       sthen (swhen (\<not> sd_lateral_armed d \<and> \<not> sd_longitudinal_armed d)
          (smodify (\<lambda>n. n\<lparr>nd_command_gap_resume_qualified := False\<rparr>)))
       (sthen (interfere w)
       (sbind (sgets (\<lambda>n. sd_waiting_for_command d \<and> nd_vehicle_safety_mode n)) (\<lambda>gap.
        if gap then sthen (interfere w) (sbind (yield_to_stock w s d l) (\<lambda>l. sret (Some l)))
        else resume_stage w s d l))))"

subsection \<open>Cleaning up after the supervisor disarmed\<close>

definition clean_up ::
  "'d world \<Rightarrow> sample \<Rightarrow> safety_decision \<Rightarrow> control_locals \<Rightarrow> ('d node, control_locals) action" where
  "clean_up w s d l =
     sbind (sgets (\<lambda>n. sd_state d = Passive \<and> \<not> command_recent (nd_config n) (sm_command s) (sm_now s)))
       (\<lambda>inactive_command_wait.
     sbind (request_internal_disarm (\<not> inactive_command_wait)) (\<lambda>generation.
     sthen (interfere w)
     (sthen (set_applied_arm False)
     (sthen (interfere w)
     (sthen (scatch (sbind (sgets is_connected) (\<lambda>c. swhen c (sthen (interfere w) (enter_no_output_mode w)))) (\<lambda>e. sret ()))
     (sbind (restart_period w (l\<lparr>lc_applied_arm_generation := generation\<rparr>)) (\<lambda>l.
      sthen (interfere w)
      (sthen (store_decision d) (sret (l\<lparr>lc_previous_state := sd_state d\<rparr>))))))))))"

subsection \<open>Output\<close>

text \<open>\<open>adapter_->update\<close>.\<close>

definition adapt ::
  "'d world \<Rightarrow> command_sample \<Rightarrow> sample \<Rightarrow> bool \<Rightarrow> bool \<Rightarrow> ('d node, control_output) action" where
  "adapt w command s lateral longitudinal n =
     (case update_adapter (w_libm w) (nc_adapter (nd_config n)) command (sm_vehicle s) (sm_dt s) lateral longitudinal
        (nd_adapter n) of (r, a) \<Rightarrow> (r, n\<lparr>nd_adapter := a\<rparr>))"

text \<open>A command that cannot be represented disarms; the second update is outside of every \<open>try\<close>.\<close>

definition shape_output ::
  "'d world \<Rightarrow> sample \<Rightarrow> safety_decision \<Rightarrow> ('d node, control_output \<times> safety_decision) action" where
  "shape_output w s d =
     sbind (scatch
        (sbind (adapt w (sm_command s) s (sd_lateral_allowed d) (sd_longitudinal_allowed d)) (\<lambda>out. sret (Some out)))
        (\<lambda>e. sret None)) (\<lambda>out.
     case out of Some out \<Rightarrow> sret (out, d)
     | None \<Rightarrow>
         sthen internal_disarm
         (sbind (adapt w empty_command s False False) (\<lambda>out.
          sret (out, d\<lparr>sd_lateral_allowed := False, sd_longitudinal_allowed := False, sd_heartbeat_engaged := False\<rparr>))))"

text \<open>The frames of one period, in their order.\<close>

definition cluster_frame :: "u64 \<Rightarrow> safety_decision \<Rightarrow> ('d node, can_frame list) action" where
  "cluster_frame index d =
     (if index mod 5 = 0
      then sbind (sgets (\<lambda>n. nc_ecan_bus (nd_config n))) (\<lambda>bus.
        sbind (build (\<lambda>k. make_lfa_cluster k (sd_lateral_allowed d) bus)) (\<lambda>f. sret [f]))
      else sret [])"

definition longitudinal_frames ::
  "u64 \<Rightarrow> sample \<Rightarrow> control_output \<Rightarrow> safety_decision \<Rightarrow> ('d node, can_frame list) action" where
  "longitudinal_frames index s out d =
     sbind (sgets id) (\<lambda>n.
     let c = nd_config n; bus = nc_ecan_bus c
     in if sc_allow_longitudinal (nc_safety c) \<and> index mod 2 = 0 then
          if \<not> cd_has_scc_template (nd_codec n)
          then sthrow (Runtime_error ''stock SCC_CONTROL template was lost'')
          else
            let target = (if co_longitudinal_active out then co_acceleration_mps2 out else lit 0);
                acc_enabled = sd_longitudinal_allowed d;
                demand = (if acc_enabled then target else lit 0)
            in sbind (build (\<lambda>k. make_scc_control k demand demand acc_enabled (co_stopping out)
                 (sc_longitudinal_override_on_gas (nc_safety c) \<and> vs_gas_pressed (sm_vehicle s))
                 (nc_set_speed_kph c) (ac_jerk_limit_mps3 (nc_adapter c)) bus)) (\<lambda>scc.
               sbind (build (\<lambda>k. make_fca_warning k bus)) (\<lambda>fca. sret [scc, fca]))
        else sret [])"

definition control_frames ::
  "u64 \<Rightarrow> sample \<Rightarrow> control_output \<Rightarrow> safety_decision \<Rightarrow> ('d node, can_frame list) action" where
  "control_frames index s out d =
     sbind (sgets (\<lambda>n. nc_ecan_bus (nd_config n))) (\<lambda>bus.
     sbind (build (\<lambda>k. make_lfa k (co_steering_torque out) (sd_lateral_allowed d) (co_steering_request out) bus)) (\<lambda>lfa.
     sbind (cluster_frame index d) (\<lambda>cluster.
     sbind (longitudinal_frames index s out d) (\<lambda>long.
     sret (lfa # cluster @ long)))))"

definition send_control_frames ::
  "'d world \<Rightarrow> u64 \<Rightarrow> sample \<Rightarrow> control_output \<Rightarrow> safety_decision \<Rightarrow> ('d node, unit) action" where
  "send_control_frames w index s out d =
     log_and_disarm (sbind (sgets id) (\<lambda>n.
       swhen (nd_vehicle_safety_mode n \<and> is_connected n \<and>
              (\<not> sc_resume_on_command_return (nc_safety (nd_config n)) \<or> ph_command_session_ready (sm_health s)))
         (sbind (control_frames index s out d) (\<lambda>frames.
          sthen (on_panda (send (w_usb w) frames))
                (maintain_disabled_ecus w (sm_now s))))))"

text \<open>A heartbeat every half second, and at once when the node becomes active.\<close>

definition beat :: "'d world \<Rightarrow> safety_decision \<Rightarrow> control_locals \<Rightarrow> ('d node, unit) action" where
  "beat w d l =
     sbind (sgets is_connected) (\<lambda>c.
     swhen (c \<and> (sd_state d = Active \<and> lc_previous_state l \<noteq> Active \<or> lc_frame_index l mod 50 = 0))
       (scatch (heartbeat w (sd_heartbeat_engaged d)) (\<lambda>e. sret ())))"

definition drive :: "'d world \<Rightarrow> sample \<Rightarrow> safety_decision \<Rightarrow> control_locals \<Rightarrow> ('d node, control_locals) action" where
  "drive w s d l =
     sbind (shape_output w s d) (\<lambda>(out, d).
     sthen (interfere w)
     (sthen (store_decision d)
     (sthen (interfere w)
     (sthen (send_control_frames w (lc_frame_index l) s out d)
     (sthen (interfere w)
     (sthen (beat w d l)
            (sret (l\<lparr>lc_previous_state := sd_state d, lc_frame_index := lc_frame_index l + 1\<rparr>))))))))"

subsection \<open>One iteration\<close>

definition decide_and_act :: "'d world \<Rightarrow> sample \<Rightarrow> control_locals \<Rightarrow> ('d node, control_locals) action" where
  "decide_and_act w s l =
     sbind (supervise s) (\<lambda>d.
     sthen (interfere w)
     (sbind (sgets (\<lambda>n. sc_resume_on_command_return (nc_safety (nd_config n)))) (\<lambda>resume.
      sbind (if resume then session_stage w s d l else sret None) (\<lambda>early.
      case early of Some l \<Rightarrow> sret l
      | None \<Rightarrow>
          sbind (sgets (\<lambda>n. \<not> sv_arm_requested (nd_supervisor n) \<and> nd_applied_arm n)) (\<lambda>disarmed.
          sthen (interfere w)
          (if disarmed then clean_up w s d l else drive w s d l))))))"

text \<open>An iteration after its samples are taken.\<close>

definition run_period :: "'d world \<Rightarrow> sample \<Rightarrow> control_locals \<Rightarrow> ('d node, control_locals) action" where
  "run_period w s l =
     sthen (note_engage_press w (sm_vehicle s))
     (sthen (interfere w)
     (sthen (auto_arm w s)
     (sthen (interfere w)
     (sbind (handle_arm_request w s l) (\<lambda>(goes_on, l).
      sthen (interfere w) (if goes_on then decide_and_act w s l else sret l))))))"

definition control_tick :: "'d world \<Rightarrow> control_locals \<Rightarrow> ('d node, control_locals) action" where
  "control_tick w l =
     sthen (sbind (clock w) (retry_no_output_recovery w))
     (sthen (interfere w)
     (sbind (clock w) (\<lambda>now.
      sbind (sgets nd_config) (\<lambda>c.
      sbind (take_sample w now (lc_previous l)) (\<lambda>s.
      sthen (interfere w) (run_period w s (advance_time c now l)))))))"

section \<open>The receive loop\<close>

record receive_locals =
  rl_next_connect_attempt :: time_point
  rl_next_health :: time_point

text \<open>The locals change inside a \<open>try\<close>, so the state of the loop is the node with them.\<close>

type_synonym 'd receiver = "'d node \<times> receive_locals"

definition on_node :: "('d node, 'a) action \<Rightarrow> ('d receiver, 'a) action" where
  "on_node m = son fst (\<lambda>n s. (n, snd s)) m"

definition set_locals :: "(receive_locals \<Rightarrow> receive_locals) \<Rightarrow> ('d receiver, unit) action" where
  "set_locals f = smodify (\<lambda>(n, l). (n, f l))"

definition health_period :: "node_config \<Rightarrow> time_point" where
  "health_period c = ms (1000 div nc_health_rate_hz c)"

text \<open>A new session: the vehicle mode is off, a pending restoration disarms. \<open>fuel\<close> bounds the reads of
  the driver's drain.\<close>

definition reconnect :: "'d world \<Rightarrow> nat \<Rightarrow> ('d receiver, unit) action" where
  "reconnect w fuel =
     sthen (on_node (sthen (on_panda (connect (w_usb w) fuel))
       (sbind (sgets both_disabled) (\<lambda>restore_pending.
        sthen (smodify (\<lambda>n. n\<lparr>nd_vehicle_safety_mode := False\<rparr>))
              (swhen restore_pending internal_disarm)))))
     (sbind (on_node (clock w)) (\<lambda>t. set_locals (\<lambda>l. l\<lparr>rl_next_health := t\<rparr>)))"

text \<open>A health report is stored unless a transition ran while it was read.\<close>

definition poll_health :: "'d world \<Rightarrow> time_point \<Rightarrow> ('d receiver, unit) action" where
  "poll_health w now =
     sthen (on_node
       (sbind (sgets nd_safety_transition_epoch) (\<lambda>epoch.
        sbind (panda_health_of w) (\<lambda>h.
        smodify (\<lambda>n.
          if epoch mod 2 = 0 \<and> epoch = nd_safety_transition_epoch n
          then n\<lparr>nd_latest_health := h\<lparr>ph_last_rejected_address := nd_last_rejected_address n\<rparr>\<rparr> else n)))))
     (sbind (on_node (sgets nd_config)) (\<lambda>c. set_locals (\<lambda>l. l\<lparr>rl_next_health := now + health_period c\<rparr>)))"

definition receive_frames :: "'d world \<Rightarrow> ('d receiver, unit) action" where
  "receive_frames w =
     sthen (on_node (sbind (on_panda (receive (w_usb w))) (\<lambda>frames. sfor frames process_frame)))
     (sbind (on_node (clock w)) (\<lambda>now.
      sbind (sgets (rl_next_health \<circ> snd)) (\<lambda>due. swhen (due \<le> now) (poll_health w now))))"

definition receive_failed :: "'d world \<Rightarrow> ('d receiver, unit) action" where
  "receive_failed w =
     sthen (on_node
       (sthen (on_panda (disconnect (w_usb w)))
       (sthen (smodify (\<lambda>n. n\<lparr>nd_vehicle_safety_mode := False\<rparr>))
       (sthen internal_disarm
              (smodify (\<lambda>n. n\<lparr>nd_applied_arm := False, nd_latest_health := initial_health\<rparr>))))))
     (sbind (on_node (clock w)) (\<lambda>t. set_locals (\<lambda>l. l\<lparr>rl_next_connect_attempt := t + seconds 1\<rparr>)))"

definition receive_try :: "'d world \<Rightarrow> nat \<Rightarrow> ('d receiver, unit) action" where
  "receive_try w fuel =
     sbind (on_node (sgets is_connected)) (\<lambda>c.
     if c then receive_frames w
     else
       sbind (on_node (clock w)) (\<lambda>t.
       sbind (sgets (rl_next_connect_attempt \<circ> snd)) (\<lambda>next.
       if t < next then sret ()
       else sthen (reconnect w fuel) (receive_frames w))))"

definition receive_cycle :: "'d world \<Rightarrow> nat \<Rightarrow> ('d receiver, unit) action" where
  "receive_cycle w fuel = scatch (receive_try w fuel) (\<lambda>e. receive_failed w)"

definition start_receiving :: "time_point \<Rightarrow> time_point \<Rightarrow> receive_locals" where
  "start_receiving t1 t2 = \<lparr>rl_next_connect_attempt = t1, rl_next_health = t2\<rparr>"

section \<open>Shutdown\<close>

text \<open>The destructor: stock control comes back before the threads are stopped.\<close>

definition shut_down :: "'d world \<Rightarrow> ('d node, unit) action" where
  "shut_down w =
     sthen (smodify (\<lambda>n. n\<lparr>nd_auto_arm_inhibited := True, nd_operator_disarmed := True,
        nd_button_rearm_takeover := False, nd_preserve_command_session := False,
        nd_command_gap_resume_qualified := False, nd_requested_arm := False,
        nd_arm_request_generation := nd_arm_request_generation n + 1\<rparr>))
     (sthen (sbind (sgets is_connected) (\<lambda>c.
        swhen c (scatch (enter_no_output_mode w) (\<lambda>e. sret ()))))
     (sthen (smodify (\<lambda>n. n\<lparr>nd_running := False\<rparr>))
     (sbind (sgets is_connected) (\<lambda>c. swhen c (on_panda (disconnect (w_usb w)))))))"

end
