(* ===== verification/Node_Properties.thy ===== *)
theory Node_Properties
  imports Node_Demo Control_Loop
begin

text \<open>
  What the configuration and the callbacks guarantee: which configurations the node accepts, and when
  a raw frame of the host reaches the bus.
\<close>

section \<open>Configuration\<close>

lemma loaded_configuration:
  assumes "load_configuration ps = Inr c"
  obtains a where "load_adapter_config ps = Inr a" and "c = load_values ps a" and "check_config c = Inr c"
proof -
  from assms obtain a where a: "load_adapter_config ps = Inr a" "check_config (load_values ps a) = Inr c"
    by (auto simp: load_configuration_def ebind_eq_Inr)
  then have "c = load_values ps a" by (auto simp: check_config_def Let_def split: if_splits)
  with a show thesis using that by blast
qed

lemma small_bus: "b \<le> 2 \<Longrightarrow> b = 0 \<or> b = 1 \<or> b = 2" for b :: u8
proof -
  assume "b \<le> 2"
  then have "unat b \<in> {0, 1, 2}" by (auto simp: word_le_nat_alt)
  then show ?thesis by (auto simp: word_unat_eq_iff)
qed

text \<open>Two parameter servers that differ at most in the E-CAN bus number, and there by a multiple of 256.\<close>

definition same_but_bus :: "params \<Rightarrow> params \<Rightarrow> bool" where
  "same_but_bus ps qs \<longleftrightarrow> pm_bool ps = pm_bool qs \<and> pm_double ps = pm_double qs \<and> pm_string ps = pm_string qs \<and>
     pm_doubles ps = pm_doubles qs \<and>
     (\<forall>name v. name \<noteq> ''hardware/ecan_bus'' \<longrightarrow> parameter (pm_int ps) name v = parameter (pm_int qs) name v) \<and>
     (word_of_int (parameter (pm_int ps) ''hardware/ecan_bus'' 0) :: u8) =
       word_of_int (parameter (pm_int qs) ''hardware/ecan_bus'' 0)"

lemma same_but_bus_load:
  assumes "same_but_bus ps qs"
  shows "load_configuration ps = load_configuration qs"
proof -
  have same: "pm_bool ps = pm_bool qs" "pm_double ps = pm_double qs" "pm_string ps = pm_string qs" "pm_doubles ps = pm_doubles qs"
    and ints: "\<And>name v. name \<noteq> ''hardware/ecan_bus'' \<Longrightarrow> parameter (pm_int ps) name v = parameter (pm_int qs) name v"
    and bus: "(word_of_int (parameter (pm_int ps) ''hardware/ecan_bus'' 0) :: u8) =
      word_of_int (parameter (pm_int qs) ''hardware/ecan_bus'' 0)"
    using assms unfolding same_but_bus_def by blast+
  have "load_adapter_config ps = load_adapter_config qs"
    unfolding load_adapter_config_def same by (simp add: ints Let_def cong: if_cong)
  moreover have "load_safety_config ps b = load_safety_config qs b" for b
    unfolding load_safety_config_def same by (simp add: ints Let_def)
  then have "load_values ps a = load_values qs a" for a
    unfolding load_values_def same Let_def bus by (simp add: ints)
  ultimately show ?thesis by (simp add: load_configuration_def)
qed

text \<open>C40: a node only starts on a configuration in the envelope its code relies on: E-CAN on bus 0, the
  camera on another of the three buses, 500/2000 kbps, a 100 Hz control loop, a health rate with a
  positive period, bounded timeouts, a valid priority and valid CPU numbers, a set speed from 0 to
  255. But the two bus numbers are cut to
  eight bits before they are checked, so a bus number counts only modulo 256, and one such as 256 is
  accepted as bus 0.\<close>

theorem accepted_configuration:
  assumes "load_configuration ps = Inr c"
  shows "nc_ecan_bus c = 0 \<and> (nc_camera_bus c = 1 \<or> nc_camera_bus c = 2) \<and> nc_ecan_only c \<and>
    pc_nominal_bitrate_kbps (nc_panda c) = 500 \<and> pc_data_bitrate_kbps (nc_panda c) = 2000 \<and>
    pc_read_timeout_ms (nc_panda c) \<in> {1..100} \<and> pc_write_timeout_ms (nc_panda c) \<in> {1..100} \<and>
    control_period c = ms 10 \<and> ms 50 \<le> health_period c \<and> health_period c \<le> ms 200 \<and>
    nc_realtime_priority c \<in> {0..99} \<and> - 1 \<le> nc_control_cpu c \<and> - 1 \<le> nc_receive_cpu c \<and>
    0 < nc_vehicle_state_timeout c \<and> isfinite (nc_set_speed_kph c) \<and>
    \<not> nc_set_speed_kph c < lit 0 \<and> \<not> lit 255 < nc_set_speed_kph c \<and>
    (\<forall>k. load_configuration (ps\<lparr>pm_int := (pm_int ps)(''hardware/ecan_bus'' \<mapsto>
        parameter (pm_int ps) ''hardware/ecan_bus'' 0 + 256 * k)\<rparr>) = Inr c)"
proof -
  from assms obtain a where a: "load_adapter_config ps = Inr a" "c = load_values ps a" "check_config c = Inr c"
    by (rule loaded_configuration)
  have envelope: "nc_ecan_bus c = 0" "nc_camera_bus c \<le> 2" "nc_camera_bus c \<noteq> 0" "nc_ecan_only c"
    "pc_nominal_bitrate_kbps (nc_panda c) = 500" "pc_data_bitrate_kbps (nc_panda c) = 2000"
    "pc_read_timeout_ms (nc_panda c) \<in> {1..100}" "pc_write_timeout_ms (nc_panda c) \<in> {1..100}"
    "nc_control_rate_hz c = 100" "5 \<le> nc_health_rate_hz c" "nc_health_rate_hz c \<le> 20"
    "0 < nc_vehicle_state_timeout c" "isfinite (nc_set_speed_kph c)" "nc_realtime_priority c \<in> {0..99}"
    "- 1 \<le> nc_control_cpu c" "- 1 \<le> nc_receive_cpu c" "\<not> nc_set_speed_kph c < lit 0" "\<not> lit 255 < nc_set_speed_kph c"
    using a(3) by (auto simp: check_config_def Let_def not_less split: if_splits)
  have "1000 div nc_health_rate_hz c \<le> 1000 div 5" "1000 div 20 \<le> 1000 div nc_health_rate_hz c"
    using envelope(10,11) by (intro zdiv_mono2; simp)+
  then have period: "ms 50 \<le> health_period c" "health_period c \<le> ms 200"
    by (simp_all add: health_period_def ms_def)
  have "load_configuration (ps\<lparr>pm_int := (pm_int ps)(''hardware/ecan_bus'' \<mapsto>
        parameter (pm_int ps) ''hardware/ecan_bus'' 0 + 256 * k)\<rparr>) = Inr c" for k
  proof -
    let ?ps = "ps\<lparr>pm_int := (pm_int ps)(''hardware/ecan_bus'' \<mapsto> parameter (pm_int ps) ''hardware/ecan_bus'' 0 + 256 * k)\<rparr>"
    have "same_but_bus ?ps ps"
    proof -
      have zero: "(256 :: u8) = 0" by (transfer, simp)
      show ?thesis by (simp add: same_but_bus_def parameter_def) (simp only: zero mult_zero_left)
    qed
    from same_but_bus_load [OF this] show ?thesis using assms by simp
  qed
  then show ?thesis using envelope period small_bus [of "nc_camera_bus c"] by (simp add: control_period_def ms_def)
qed

theorem accepted_configuration_witness:
  "\<exists>c. load_configuration demo_params = Inr c \<and> nc_ecan_bus c = 0 \<and>
     load_configuration (demo_params\<lparr>pm_int := [''hardware/ecan_bus'' \<mapsto> 256]\<rparr>) = Inr c"
proof -
  have "pm_int demo_params = Map.empty" by (simp add: demo_params_def fun_eq_iff)
  with accepted_configuration [OF demo_configuration] show ?thesis
    by (auto simp: demo_configuration parameter_def dest: spec [of _ 1])
qed

section \<open>Raw transmission\<close>

lemma raw_valid_size:
  assumes "raw_valid message"
  shows "length (rm_data message) \<in> {0, 1, 2, 3, 4, 5, 6, 7, 8, 12, 16, 20, 24, 32, 48, 64}"
    and "rm_fd message \<or> length (rm_data message) \<le> 8"
proof -
  have n: "length (rm_data message) \<le> 64" and size: "raw_size message \<in> set kCanPayloadSizes"
    and fd: "rm_fd message \<or> raw_size message \<le> 8"
    using assms by (simp_all add: raw_valid_def valid_can_payload_size_def)
  then have u: "unat (raw_size message) = length (rm_data message)"
    by (simp add: raw_size_def unat_of_nat)
  then have "length (rm_data message) \<in> unat ` set kCanPayloadSizes" using size by (metis imageI)
  then show "length (rm_data message) \<in> {0, 1, 2, 3, 4, 5, 6, 7, 8, 12, 16, 20, 24, 32, 48, 64}"
    by (simp add: kCanPayloadSizes_def)
  show "rm_fd message \<or> length (rm_data message) \<le> 8" using fd u by (auto simp: word_le_nat_alt)
qed

text \<open>C13: a raw frame from the host reaches the bus only behind every gate. The callback never throws.
  The driver object (and with it the device) can only change if raw transmission is configured; the
  frame is for one of the three buses, with an address in range (11 bits unless extended, else 29),
  a payload of a CAN-FD length, at most 8 bytes unless it is an FD frame, and not marked as returned
  or rejected; the vehicle mode is on, the adapter is connected, longitudinal control is allowed,
  and, for the steering address, lateral control too. Otherwise the frame is at most counted as
  dropped.\<close>

theorem raw_frame_gated:
  "fst (raw_can_tx_callback w message n) = Inr () \<and>
   (let m = snd (raw_can_tx_callback w message n); d = nd_latest_decision n in
    (m = n \<or> m = drop_raw n) \<or>
    nc_allow_raw_can_tx (nd_config n) \<and> rm_address message < 2 ^ 29 \<and> rm_bus message < 3 \<and>
    (rm_extended message \<or> rm_address message < 2 ^ 11) \<and>
    length (rm_data message) \<in> {0, 1, 2, 3, 4, 5, 6, 7, 8, 12, 16, 20, 24, 32, 48, 64} \<and>
    (rm_fd message \<or> length (rm_data message) \<le> 8) \<and> \<not> rm_returned message \<and> \<not> rm_rejected message \<and>
    nd_vehicle_safety_mode n \<and> is_connected n \<and> sd_longitudinal_allowed d \<and>
    \<not> (rm_address message = kLfaAddress \<and> \<not> sd_lateral_allowed d) \<and>
    (\<exists>p. m = drop_raw (n\<lparr>nd_panda := p\<rparr>) \<or> m = n\<lparr>nd_panda := p, nd_raw_can_tx_count := nd_raw_can_tx_count n + 1\<rparr>))"
proof -
  have sent: "wp (on_panda (send (w_usb w) fs)) (\<lambda>_ m. \<exists>p. m = n\<lparr>nd_panda := p\<rparr>) (\<lambda>_ m. \<exists>p. m = n\<lparr>nd_panda := p\<rparr>) n" for fs
    by (auto simp: on_panda_def wp_son wp_def split: prod.split sum.split)
  let ?open = "nc_allow_raw_can_tx (nd_config n) \<and> raw_valid message \<and> nd_vehicle_safety_mode n \<and> is_connected n \<and>
    sd_longitudinal_allowed (nd_latest_decision n) \<and>
    (rm_address message = kLfaAddress \<longrightarrow> sd_lateral_allowed (nd_latest_decision n))"
  have "wp (raw_can_tx_callback w message) (\<lambda>_ m. (m = n \<or> m = drop_raw n) \<or> ?open \<and>
      (\<exists>p. m = drop_raw (n\<lparr>nd_panda := p\<rparr>) \<or> m = n\<lparr>nd_panda := p, nd_raw_can_tx_count := nd_raw_can_tx_count n + 1\<rparr>))
      (\<lambda>_ _. False) n"
  proof (cases ?open)
    case True
    then show ?thesis
      by (simp add: raw_can_tx_callback_def wp_rules Let_def raw_frame_def, intro wp_mono [OF sent]) auto
  next
    case False
    then show ?thesis by (auto simp: raw_can_tx_callback_def wp_rules Let_def raw_frame_def empty_frame_def)
  qed
  then show ?thesis using raw_valid_size [of message]
    by (simp add: wp_def Let_def split: prod.splits sum.splits) (auto simp: raw_valid_def)
qed

end
