(* ===== verification/Mode_Properties.thy ===== *)
theory Mode_Properties
  imports Node_Demo
begin

text \<open>
  What the mode transitions guarantee: the vehicle mode is entered only through a complete, confirmed
  takeover; a return to NO_OUTPUT either has everything restored and confirmed or leaves the node
  latched with a retry scheduled; an ECU counts as restored only on the evidence of its own stock
  frames.
\<close>

section \<open>Restoring an ECU\<close>

lemma other_flag [simp]: "is_disabled e (set_disabled e b n) = b" "e' \<noteq> e \<Longrightarrow> is_disabled e' (set_disabled e b n) = is_disabled e' n"
  "nd_vehicle_safety_mode (set_disabled e b n) = nd_vehicle_safety_mode n"
  "nd_recovery_pending (set_disabled e b n) = nd_recovery_pending n" "nd_codec (set_disabled e b n) = nd_codec n" "nd_config (set_disabled e b n) = nd_config n"
  "owned_count e' (set_disabled e b n) = owned_count e' n" "nd_recovery_retry (set_disabled e b n) = nd_recovery_retry n"
  by (cases e; cases e'; simp)+

text \<open>A predicate the restoring stages keep: undisturbed by the waits, and by the clearing of a flag.\<close>

definition restorable :: "('d node \<Rightarrow> bool) \<Rightarrow> bool" where
  "restorable Q \<longleftrightarrow> undisturbed Q \<and> (\<forall>e n. Q n \<longrightarrow> Q (set_disabled e False n))"

lemma is_disabled_protected:
  "is_disabled e n = (case protected_part n of (c, a, s, k, v, cam, rad, r) \<Rightarrow>
     (case e of Camera \<Rightarrow> cam | Radar \<Rightarrow> rad))"
  by (cases e) (simp_all add: protected_part_def)

lemma undisturbed_flags:
  "undisturbed (\<lambda>n. \<not> is_disabled e n)" "undisturbed (\<lambda>n. is_disabled e n)" "undisturbed (\<lambda>n. \<not> nd_vehicle_safety_mode n)"
  "undisturbed (\<lambda>n. nd_config n = c)" "undisturbed (\<lambda>n. nd_recovery_retry n = r)" "undisturbed (\<lambda>n. P (nd_codec n))"
  using undisturbed_protected [of "\<lambda>(c, a, s, k, v, cam, rad, r). \<not> (case e of Camera \<Rightarrow> cam | Radar \<Rightarrow> rad)"]
    undisturbed_protected [of "\<lambda>(c, a, s, k, v, cam, rad, r). (case e of Camera \<Rightarrow> cam | Radar \<Rightarrow> rad)"]
    undisturbed_protected [of "\<lambda>(c, a, s, k, v, cam, rad, r). \<not> v"]
    undisturbed_protected [of "\<lambda>(c', a, s, k, v, cam, rad, r). c' = c"]
    undisturbed_protected [of "\<lambda>(c, a, s, k, v, cam, rad, r'). r' = r"]
    undisturbed_protected [of "\<lambda>(c, a, s, k, v, cam, rad, r). P k"]
  by (simp_all add: is_disabled_protected case_prod_beta) (simp_all add: protected_part_def)

lemma clear_keeps_clear: "\<not> is_disabled e n \<Longrightarrow> \<not> is_disabled e (set_disabled e' False n)"
  by (cases "e = e'") simp_all

lemma restorable_flags:
  "restorable (\<lambda>n. \<not> is_disabled e n)" "restorable (\<lambda>n. \<not> nd_vehicle_safety_mode n)"
  "restorable (\<lambda>n. nd_recovery_retry n = r)" "restorable nd_recovery_pending"
  unfolding restorable_def
  by (simp_all add: undisturbed_flags undisturbed_recovery_pending clear_keeps_clear del: is_disabled.simps)

lemma restorable_keeps:
  assumes "restorable Q" and "others_behave w"
  shows "keeps Q (restore_ecu w e)" "keeps Q (confirm_ecu_restored w e)" "keeps Q (heartbeat w b)"
    "keeps Q (set_panda_mode w x y)" "keeps Q (clock w)"
proof -
  have u: "undisturbed Q" using assms(1) by (simp add: restorable_def)
  have clear: "keeps Q (smodify (set_disabled e False))"
    using assms(1) by (intro keeps_smodify) (simp add: restorable_def)
  show "keeps Q (restore_ecu w e)" unfolding restore_ecu_def
    by (intro waiting_rules clear u assms(2))
  show "keeps Q (confirm_ecu_restored w e)" unfolding confirm_ecu_restored_def
    by (intro waiting_rules clear u assms(2))
  show "keeps Q (heartbeat w b)" "keeps Q (set_panda_mode w x y)" "keeps Q (clock w)"
    by (simp_all add: device_rules u)
qed

lemma keeps_install_standby:
  assumes "restorable Q"
  shows "keeps Q (install_standby w)"
proof -
  have u: "undisturbed Q" using assms by (simp add: restorable_def)
  have "Q n \<Longrightarrow> Q (n\<lparr>nd_latest_health := h\<rparr>)" for n h
    using u step_health [of n h] by (blast intro: undisturbed_step)
  then show ?thesis unfolding install_standby_def by (intro keeps_rules device_rules u)
qed

lemma keeps_attempt: "keeps Q m \<Longrightarrow> keeps Q (attempt stage m)"
  unfolding attempt_def by (intro keeps_rules)

lemma keeps_stage_for: "keeps Q m \<Longrightarrow> keeps Q (stage_for e b stage m)"
  unfolding stage_for_def by (intro keeps_rules keeps_attempt)

lemma keeps_restore_stages: "restorable Q \<Longrightarrow> others_behave w \<Longrightarrow> keeps Q (restore_stages w)"
  unfolding restore_stages_def elm_stage_def restore_both_def confirm_both_def
  by (intro keeps_rules keeps_attempt keeps_stage_for restorable_keeps keeps_install_standby)

section \<open>The stages of the return\<close>

lemma wp_on_panda: "(\<And>x p. Q x (n\<lparr>nd_panda := p\<rparr>)) \<Longrightarrow> (\<And>e p. E e (n\<lparr>nd_panda := p\<rparr>)) \<Longrightarrow> wp (on_panda m) Q E n"
  unfolding on_panda_def wp_son by (simp add: wp_def split: prod.split sum.split)

lemma wp_attempt: "wp (attempt stage m) Q E n = wp m (\<lambda>_. Q []) (\<lambda>e. Q [(stage, e)]) n"
  by (simp add: attempt_def wp_rules)

lemma attempt_any: "wp (attempt stage m) (\<lambda>_ _. True) (\<lambda>_ _. False) n"
  by (simp add: wp_attempt)

lemma attempt_ok: "wp m (\<lambda>_. Q) (\<lambda>_ _. True) n \<Longrightarrow> wp (attempt stage m) (\<lambda>es m. es = [] \<longrightarrow> Q m) (\<lambda>_ _. False) n"
  by (simp add: wp_attempt)

lemma stage_for_any: "wp (stage_for e b stage m) (\<lambda>_ _. True) (\<lambda>_ _. False) n"
  by (simp add: stage_for_def wp_rules attempt_any)

lemma confirm_clears: "wp (confirm_ecu_restored w e) (\<lambda>_ m. \<not> is_disabled e m) (\<lambda>_ _. True) n"
  by (auto simp: confirm_ecu_restored_def wp_rules intro: wp_mono [OF wp_True])

lemma confirm_stage:
  "wp (stage_for e b stage (confirm_ecu_restored w e)) (\<lambda>es m. b \<and> es = [] \<longrightarrow> \<not> is_disabled e m) (\<lambda>_ _. False) n"
  using attempt_ok [OF confirm_clears [where w = w and e = e and n = n], where stage = stage]
  by (auto simp: stage_for_def wp_rules intro: wp_mono)

text \<open>The Panda has confirmed the standby mode: NO_OUTPUT, the standby profile, no permission.\<close>

definition standby_confirmed :: "'d node \<Rightarrow> bool" where
  "standby_confirmed n \<longleftrightarrow>
     ucast (ph_safety_mode (nd_latest_health n)) = kSafetyNoOutput \<and>
     \<not> ph_controls_allowed (nd_latest_health n) \<and>
     ph_safety_param (nd_latest_health n) =
       recovery_standby_param (sc_required_safety_param (nc_safety (nd_config n))) (nd_preserve_command_session n)
         (sc_resume_on_command_return (nc_safety (nd_config n))) (nd_operator_disarmed n)"

lemma install_standby_confirms: "wp (install_standby w) (\<lambda>_. standby_confirmed) (\<lambda>_ _. True) n"
  unfolding install_standby_def Let_def wp_rules set_panda_mode_def panda_health_of_def id_apply
  by (auto intro!: wp_on_panda simp: standby_confirmed_def)

lemma wp_keeps:
  assumes "keeps P m" and "wp m Q E s"
  shows "wp m (\<lambda>x t. Q x t \<and> (P s \<longrightarrow> P t)) E s"
  using assms unfolding keeps_def by (cases "P s") (auto simp: wp_def split: prod.splits sum.splits)

lemma wp_sthen_kept:
  "keeps P m \<Longrightarrow> P s \<Longrightarrow> (\<And>t. P t \<Longrightarrow> wp k Q (\<lambda>_ _. True) t) \<Longrightarrow> wp (sthen m k) Q (\<lambda>_ _. True) s"
  unfolding wp_sthen by (rule wp_mono [where Q = "\<lambda>_. P" and E = "\<lambda>_. P"]) (auto dest: keeps_wp)

text \<open>No ECU is left silenced.\<close>

definition all_restored :: "'d node \<Rightarrow> bool" where
  "all_restored n \<longleftrightarrow> \<not> is_disabled Camera n \<and> \<not> is_disabled Radar n"

lemma confirm_both_ok:
  assumes "others_behave w"
  shows "wp (confirm_both w elm) (\<lambda>es m. elm \<and> es = [] \<longrightarrow> all_restored m) (\<lambda>_ _. False) n"
  unfolding confirm_both_def wp_sbind wp_sret
proof (rule wp_mono [OF confirm_stage])
  fix e1 :: stage_errors and m :: "'a node" assume r: "elm \<and> e1 = [] \<longrightarrow> \<not> is_disabled Radar m"
  have "keeps (\<lambda>m. \<not> is_disabled Radar m)
      (stage_for Camera elm ''camera stock confirmation'' (confirm_ecu_restored w Camera))"
    by (intro keeps_stage_for restorable_keeps restorable_flags assms)
  then show "wp (stage_for Camera elm ''camera stock confirmation'' (confirm_ecu_restored w Camera))
      (\<lambda>e2 m. elm \<and> e1 @ e2 = [] \<longrightarrow> all_restored m) (\<lambda>_ _. False) m"
    by (rule wp_mono [OF wp_keeps [OF _ confirm_stage]]) (use r in \<open>auto simp: all_restored_def\<close>)
qed simp

lemma no_output_stage:
  assumes "others_behave w"
  shows "wp (attempt ''NO_OUTPUT'' (install_standby w))
    (\<lambda>es m. (all_restored n \<longrightarrow> all_restored m) \<and> (es = [] \<longrightarrow> standby_confirmed m)) (\<lambda>_ _. False) n"
proof -
  have k: "keeps (\<lambda>m. \<not> is_disabled e m) (attempt ''NO_OUTPUT'' (install_standby w))" for e
    by (intro keeps_attempt keeps_install_standby restorable_flags)
  have "wp (attempt ''NO_OUTPUT'' (install_standby w)) (\<lambda>es m. es = [] \<longrightarrow> standby_confirmed m) (\<lambda>_ _. False) n"
    by (rule attempt_ok [OF install_standby_confirms])
  then show ?thesis
    by (rule wp_mono [OF wp_keeps [OF k [of Camera] wp_keeps [OF k [of Radar]]]]) (auto simp: all_restored_def)
qed

lemma restore_stages_ok:
  assumes "others_behave w"
  shows "wp (restore_stages w) (\<lambda>es m. es = [] \<longrightarrow> all_restored m \<and> standby_confirmed m) (\<lambda>_ _. False) n"
proof -
  have elm: "wp (elm_stage w) (\<lambda>_ _. True) (\<lambda>_ _. False) n" for n
    by (simp add: elm_stage_def wp_rules attempt_any)
  have restore: "wp (restore_both w b) (\<lambda>_ _. True) (\<lambda>_ _. False) n" for b n
    unfolding restore_both_def wp_sbind wp_sret by (rule wp_mono [OF stage_for_any]) (simp_all add: stage_for_any)
  have tail: "wp (confirm_both w (e2 = [])) (\<lambda>e4. wp (attempt ''NO_OUTPUT'' (install_standby w))
      (\<lambda>e5 m. e1 @ e2 @ e3 @ e4 @ e5 = [] \<longrightarrow> all_restored m \<and> standby_confirmed m) (\<lambda>_ _. False)) (\<lambda>_ _. False) n"
    for e1 e2 e3 n
    by (rule wp_mono [OF confirm_both_ok [OF assms]], rule wp_mono [OF no_output_stage [OF assms]]) auto
  show ?thesis
    unfolding restore_stages_def wp_sbind wp_sret
    by (rule wp_mono [OF attempt_any], rule wp_mono [OF elm], rule wp_mono [OF restore], rule tail) simp_all
qed

section \<open>The outcome of the return\<close>

lemma wp_in_transition:
  "wp (in_transition m) Q E n = wp m (\<lambda>x t. Q x (bump_epoch t)) (\<lambda>e t. E e (bump_epoch t)) (bump_epoch n)"
  by (simp add: in_transition_def wp_rules)

lemma wp_clock: "(\<And>t p. Q t (n\<lparr>nd_panda := p\<rparr>)) \<Longrightarrow> wp (clock w) Q E n"
  by (simp add: clock_def on_panda_def wp_rules wp_usb_call)

lemma bumped [simp]:
  "nd_vehicle_safety_mode (bump_epoch n) = nd_vehicle_safety_mode n" "nd_recovery_pending (bump_epoch n) = nd_recovery_pending n"
  "nd_camera_disabled (bump_epoch n) = nd_camera_disabled n" "nd_radar_disabled (bump_epoch n) = nd_radar_disabled n"
  "nd_recovery_retry (bump_epoch n) = nd_recovery_retry n" "nd_config (bump_epoch n) = nd_config n"
  "nd_auto_arm_inhibited (bump_epoch n) = nd_auto_arm_inhibited n" "nd_codec (bump_epoch n) = nd_codec n"
  "nd_recovery_rearm_required (bump_epoch n) = nd_recovery_rearm_required n"
  "standby_confirmed (bump_epoch n) = standby_confirmed n"
  by (simp_all add: bump_epoch_def standby_confirmed_def)

text \<open>A request is in the schedule; what the stages and the bookkeeping around them leave.\<close>

definition returning :: "retry \<Rightarrow> 'd node \<Rightarrow> bool" where
  "returning r n \<longleftrightarrow> \<not> nd_vehicle_safety_mode n \<and> nd_recovery_pending n \<and> nd_recovery_retry n = r"

lemma standby_confirmed_update [simp]:
  "standby_confirmed (n\<lparr>nd_codec := c\<rparr>) = standby_confirmed n"
  "standby_confirmed (n\<lparr>nd_recovery_retry := r\<rparr>) = standby_confirmed n"
  "standby_confirmed (n\<lparr>nd_recovery_retry := r, nd_recovery_pending := b\<rparr>) = standby_confirmed n"
  by (simp_all add: standby_confirmed_def)

lemma returningI: "\<not> nd_vehicle_safety_mode n \<Longrightarrow> nd_recovery_pending n \<Longrightarrow> returning (nd_recovery_retry n) n"
  by (simp add: returning_def)

lemma restorable_conj: "restorable P \<Longrightarrow> restorable Q \<Longrightarrow> restorable (\<lambda>n. P n \<and> Q n)"
  unfolding restorable_def undisturbed_def by simp

lemma restorable_returning: "restorable (returning r)"
  unfolding returning_def by (intro restorable_conj restorable_flags)

lemma restore_outcome:
  assumes "others_behave w" and "returning r n"
  shows "wp (restore_stages w) (\<lambda>es m. returning r m \<and> (es = [] \<longrightarrow> all_restored m \<and> standby_confirmed m)) (\<lambda>_ _. False) n"
  by (rule wp_mono [OF wp_keeps [OF keeps_restore_stages restore_stages_ok]])
    (use assms restorable_returning in auto)

definition given_back :: "'d node \<Rightarrow> bool" where
  "given_back m \<longleftrightarrow> all_restored m \<and> standby_confirmed m \<and> \<not> nd_recovery_pending m \<and>
     \<not> rr_pending (nd_recovery_retry m) \<and> \<not> nd_vehicle_safety_mode m \<and> \<not> cd_has_scc_template (nd_codec m)"

definition latched :: "retry \<Rightarrow> 'd node \<Rightarrow> bool" where
  "latched r m \<longleftrightarrow> nd_recovery_pending m \<and> nd_auto_arm_inhibited m \<and> nd_recovery_rearm_required m \<and>
     rr_pending (nd_recovery_retry m) \<and>
     rr_failures (nd_recovery_retry m) = (if rr_pending r then rr_failures r else 0) + 1 \<and>
     \<not> nd_vehicle_safety_mode m \<and> \<not> cd_has_scc_template (nd_codec m)"

lemma wp_enter_no_output:
  assumes "others_behave w"
  shows "wp (enter_no_output_mode w) (\<lambda>_. given_back) (\<lambda>_. latched (nd_recovery_retry n)) n"
proof -
  have failed: "rr_pending (retry_failed t (retry_request now r))"
    "rr_failures (retry_failed t (retry_request now r)) = (if rr_pending r then rr_failures r else 0) + 1" for t now r
    by (simp_all add: retry_failed_def retry_request_def Let_def)
  show ?thesis
    unfolding enter_no_output_mode_def wp_in_transition wp_sthen wp_sbind wp_smodify
    by (rule wp_clock, rule wp_mono [OF restore_outcome [OF assms returningI]])
      (auto simp: wp_rules returning_def given_back_def latched_def all_restored_def failed reset_counters_def
        clear_scc_control_template_def retry_restored_def intro!: wp_clock)
qed

text \<open>C9: the return to NO_OUTPUT has exactly two outcomes, whatever the adapter, the ECUs and the other
  threads do. Either it returns, and then neither ECU is left silenced, the Panda has reported the
  NO_OUTPUT mode with the standby parameter and no control permission, and the retry schedule is
  closed; or it throws, and then the node stays in the recovery state with a further attempt
  scheduled after one more failure, and it may not arm itself again. In both cases the
  vehicle mode is off and the stock template is gone.\<close>

theorem no_output_outcome:
  assumes "others_behave w"
  shows "case enter_no_output_mode w n of
      (Inr _, m) \<Rightarrow> \<not> nd_camera_disabled m \<and> \<not> nd_radar_disabled m \<and> standby_confirmed m \<and>
        \<not> nd_recovery_pending m \<and> \<not> rr_pending (nd_recovery_retry m) \<and>
        \<not> nd_vehicle_safety_mode m \<and> \<not> cd_has_scc_template (nd_codec m)
    | (Inl e, m) \<Rightarrow> nd_recovery_pending m \<and> nd_auto_arm_inhibited m \<and> nd_recovery_rearm_required m \<and>
        rr_pending (nd_recovery_retry m) \<and>
        rr_failures (nd_recovery_retry m) =
          (if rr_pending (nd_recovery_retry n) then rr_failures (nd_recovery_retry n) else 0) + 1 \<and>
        \<not> nd_vehicle_safety_mode m \<and> \<not> cd_has_scc_template (nd_codec m)"
  using wp_enter_no_output [OF assms, of n]
  by (auto simp: wp_def given_back_def latched_def all_restored_def split: prod.splits sum.splits if_splits)

section \<open>Entering the vehicle mode\<close>

text \<open>A predicate the steps of the takeover keep: undisturbed by the waits, and not about the codec.\<close>

definition arming_safe :: "('d node \<Rightarrow> bool) \<Rightarrow> bool" where
  "arming_safe Q \<longleftrightarrow> undisturbed Q \<and> (\<forall>n c. Q n \<longrightarrow> Q (n\<lparr>nd_codec := c\<rparr>)) \<and> (\<forall>n e. Q n \<longrightarrow> Q (set_disabled e True n))"

lemma set_keeps_set: "is_disabled e n \<Longrightarrow> is_disabled e (set_disabled e' True n)"
  by (cases "e = e'") simp_all

lemma is_disabled_codec [simp]: "is_disabled e (n\<lparr>nd_codec := c\<rparr>) = is_disabled e n"
  by (cases e) simp_all

lemma arming_safe_flags:
  "arming_safe (\<lambda>n. is_disabled e n)" "arming_safe (\<lambda>n. \<not> nd_vehicle_safety_mode n)"
  unfolding arming_safe_def by (simp_all add: undisturbed_flags set_keeps_set del: is_disabled.simps)

lemma keeps_build: "(\<And>n f c. Q n \<Longrightarrow> b (nd_codec n) = Inr (f, c) \<Longrightarrow> Q (n\<lparr>nd_codec := c\<rparr>)) \<Longrightarrow> keeps Q (build b)"
  by (auto simp: keeps_def build_def wp_rules split: sum.split prod.split)

lemma keeps_verify_firmware:
  assumes "others_behave w" and "undisturbed Q"
    and "\<And>n s j bus f c. Q n \<Longrightarrow> make_scc_control (nd_codec n) (lit 0) (lit 0) False False False s j bus = Inr (f, c) \<Longrightarrow>
      Q (n\<lparr>nd_codec := c\<rparr>)"
  shows "keeps Q (verify_longitudinal_firmware w)"
  unfolding verify_longitudinal_firmware_def by (intro waiting_rules keeps_build assms)

lemma keeps_disable:
  assumes "others_behave w" and "undisturbed Q" and "\<And>n. Q n \<Longrightarrow> Q (set_disabled e True n)"
  shows "keeps Q (disable_ecu w e)"
  unfolding disable_ecu_def by (intro waiting_rules assms)

lemma arming_keeps:
  assumes "others_behave w" and "arming_safe Q"
  shows "keeps Q (take_template w v)" "keeps Q (silence_ecus w long r p)" "keeps Q (install_mode w f long r p)"
    "keeps Q (sbind (clock w) (maintain_disabled_ecus w))"
proof -
  have u: "undisturbed Q" and c: "\<And>n c. Q n \<Longrightarrow> Q (n\<lparr>nd_codec := c\<rparr>)" and d: "\<And>n e. Q n \<Longrightarrow> Q (set_disabled e True n)"
    using assms(2) by (simp_all add: arming_safe_def)
  show "keeps Q (take_template w v)" unfolding take_template_def by (intro waiting_rules u assms)
  show "keeps Q (silence_ecus w long r p)" unfolding silence_ecus_def
    by (intro waiting_rules keeps_disable d u assms)
  show "keeps Q (install_mode w f long r p)" unfolding install_mode_def
    by (intro waiting_rules keeps_verify_firmware c u assms)
  show "keeps Q (sbind (clock w) (maintain_disabled_ecus w))" by (intro waiting_rules u assms)
qed

lemma disable_disables:
  assumes "others_behave w"
  shows "returns_in (\<lambda>m. is_disabled e m) (disable_ecu w e)"
proof -
  have u: "undisturbed (\<lambda>m :: 'a node. is_disabled e m)" by (rule undisturbed_flags)
  have *: "returns_in (\<lambda>m. is_disabled e m) (sthen (smodify (set_disabled e True)) k)"
    if "keeps (\<lambda>m. is_disabled e m) k" for k :: "('a node, unit) action"
    by (rule returns_in_then_keeps [OF returns_in_smodify that]) simp
  have "wp (disable_ecu w e) (\<lambda>_ m. is_disabled e m) (\<lambda>_ _. True) n" for n
  proof (cases "is_disabled e n")
    case True
    then show ?thesis by (simp add: disable_ecu_def wp_rules)
  next
    case False
    show ?thesis unfolding disable_ecu_def wp_sbind [of "sgets f" for f] wp_sgets
      using False by (simp, intro wp_returns_in returns_in_sbind returns_in_sthen *) (intro waiting_rules u assms)
  qed
  then show ?thesis by (simp add: returns_in_def)
qed

definition silenced :: "bool \<Rightarrow> 'd node \<Rightarrow> bool" where
  "silenced long n \<longleftrightarrow> is_disabled Camera n \<and> (long \<longrightarrow> is_disabled Radar n)"

lemma arming_safe_conj: "arming_safe P \<Longrightarrow> arming_safe Q \<Longrightarrow> arming_safe (\<lambda>n. P n \<and> Q n)"
  unfolding arming_safe_def undisturbed_def by simp

lemma arming_safe_silenced: "arming_safe (silenced long)"
proof (cases long)
  case True
  then show ?thesis using arming_safe_conj [OF arming_safe_flags(1) [of Camera] arming_safe_flags(1) [of Radar]]
    by (simp add: silenced_def [abs_def])
next
  case False
  then show ?thesis using arming_safe_flags(1) [of Camera] by (simp add: silenced_def [abs_def])
qed

lemma silence_silences:
  assumes "others_behave w"
  shows "returns_in (silenced long) (silence_ecus w long r p)"
proof -
  have camera: "keeps (\<lambda>m. is_disabled Camera m) (sthen (disable_ecu w Radar) (heartbeat w False))"
    by (intro waiting_rules keeps_disable undisturbed_flags set_keeps_set assms)
  have radar: "returns_in (\<lambda>m. is_disabled Radar m) (sthen (disable_ecu w Radar) (heartbeat w False))"
    by (intro returns_in_then_keeps disable_disables waiting_rules undisturbed_flags assms)
  have both: "wp (sthen (disable_ecu w Radar) (heartbeat w False)) (\<lambda>_. silenced True) (\<lambda>_ _. True) n"
    if "is_disabled Camera n" for n
    using wp_mono [OF wp_keeps [OF camera wp_returns_in [OF radar]]] that by (simp add: silenced_def)
  have radar_too: "wp (swhen long (sthen (disable_ecu w Radar) (heartbeat w False))) (\<lambda>_. silenced long) (\<lambda>_ _. True) n"
    if "is_disabled Camera n" for n
    using both [OF that] that by (cases long) (simp_all add: wp_rules silenced_def del: is_disabled.simps)
  have "wp (sthen (heartbeat w False) (swhen long (sthen (disable_ecu w Radar) (heartbeat w False))))
      (\<lambda>_. silenced long) (\<lambda>_ _. True) n" if "is_disabled Camera n" for n
    by (rule wp_sthen_kept [where P = "\<lambda>m. is_disabled Camera m", OF _ that radar_too])
      (intro waiting_rules undisturbed_flags)
  then have "returns_in (silenced long) (sthen (disable_ecu w Camera)
      (sthen (heartbeat w False) (swhen long (sthen (disable_ecu w Radar) (heartbeat w False)))))"
    unfolding returns_in_def wp_sthen [of "disable_ecu w Camera"]
    by (intro allI wp_mono [OF wp_returns_in [OF disable_disables [OF assms]]]) simp_all
  from returns_in_sthen [OF returns_in_sthen [OF this]] show ?thesis unfolding silence_ecus_def .
qed

lemma scc_keeps_template:
  "make_scc_control c r v en st gas s j bus = Inr (f, c') \<Longrightarrow>
   cd_has_scc_template c' = cd_has_scc_template c \<and> cd_scc_template c' = cd_scc_template c"
  by (auto simp: make_scc_control_def ebind_eq_Inr Let_def split: if_splits)

definition holds_template :: "can_frame \<Rightarrow> codec \<Rightarrow> bool" where
  "holds_template stock c \<longleftrightarrow> cd_has_scc_template c \<and> cd_scc_template c = take 32 (cf_data stock)"

lemma install_template:
  assumes "others_behave w"
  shows "wp (install_mode w stock True r p) (\<lambda>_ m. holds_template stock (nd_codec m)) (\<lambda>_ _. True) n"
proof -
  let ?T = "\<lambda>m :: 'a node. holds_template stock (nd_codec m)"
  have set: "set_scc_control_template c stock = Inr c' \<Longrightarrow> holds_template stock c'" for c c'
    by (auto simp: set_scc_control_template_def holds_template_def split: if_splits)
  have u: "undisturbed ?T" by (rule undisturbed_flags)
  have rest: "keeps ?T (sthen (set_panda_mode w kSafetyHyundaiCanFd p) k)" if "keeps ?T k" for k :: "('a node, unit) action"
    by (intro waiting_rules u that)
  show ?thesis unfolding install_mode_def wp_sthen [of "smodify f" for f] wp_sthen [of "swhen True m" for m]
      wp_swhen wp_sbind [of "sgets f" for f] wp_sbind [of "sreturn r" for r] wp_smodify wp_sgets wp_sreturn
    by (simp split: sum.split, intro allI impI, rule wp_mono [OF keeps_wp [OF rest]])
      (intro waiting_rules u keeps_verify_firmware assms, simp_all add: set, auto simp: holds_template_def dest: scc_keeps_template)
qed

text \<open>What the vehicle mode stands on.\<close>

definition taken_over :: "'d node \<Rightarrow> bool" where
  "taken_over n \<longleftrightarrow>
     (let long = sc_allow_longitudinal (nc_safety (nd_config n))
      in nd_camera_disabled n \<and> (long \<longrightarrow> nd_radar_disabled n \<and> cd_has_scc_template (nd_codec n)))"

lemma maintain_keeps_taken_over: "keeps taken_over (sbind (clock w) (maintain_disabled_ecus w))"
proof -
  have "undisturbed taken_over"
    using undisturbed_protected [of "\<lambda>(c, a, s, k, v, cam, rad, r).
      cam \<and> (sc_allow_longitudinal (nc_safety c) \<longrightarrow> rad \<and> cd_has_scc_template k)"]
    by (simp add: taken_over_def [abs_def] protected_part_def Let_def)
  then show ?thesis by (intro waiting_rules)
qed

lemma arming_safe_config: "arming_safe (\<lambda>n. nd_config n = c)"
  unfolding arming_safe_def by (simp add: undisturbed_flags)

lemma install_takes_over:
  assumes "others_behave w" and "silenced long n" and "long = sc_allow_longitudinal (nc_safety (nd_config n))"
  shows "wp (install_mode w stock long r p) (\<lambda>_. taken_over) (\<lambda>_ _. True) n"
proof -
  have "keeps (silenced long) (install_mode w stock long r p)" "keeps (\<lambda>m. nd_config m = nd_config n) (install_mode w stock long r p)"
    by (intro arming_keeps arming_safe_silenced arming_safe_config assms)+
  note kept = wp_conj [OF keeps_wp [OF this(1) assms(2)] keeps_wp [OF this(2) refl]]
  show ?thesis
  proof (cases long)
    case True
    then have "wp (install_mode w stock long r p) (\<lambda>_ m. cd_has_scc_template (nd_codec m)) (\<lambda>_ _. True) n"
      using wp_mono [OF install_template [OF assms(1), of stock r p n]] by (simp add: holds_template_def)
    from wp_conj [OF kept this] show ?thesis
      by (rule wp_mono) (use assms(3) in \<open>simp_all add: silenced_def taken_over_def\<close>)
  next
    case False
    from kept show ?thesis
      by (rule wp_mono) (use False assms(3) in \<open>simp_all add: silenced_def taken_over_def\<close>)
  qed
qed

lemma wp_take_template:
  "wp (if long then take_template w v else sret f) (\<lambda>_ m. (long \<longrightarrow> vs_gear v = 5) \<and> nd_config m = nd_config n)
    (\<lambda>_ _. True) n"
  by (auto simp: take_template_def wp_rules intro!: wp_clock split: option.split)

lemma takeover_steps:
  assumes "others_behave w" and "\<not> nd_vehicle_safety_mode n" and "long = sc_allow_longitudinal (nc_safety (nd_config n))"
  shows "wp (sbind (if long then take_template w v else sret f) (\<lambda>stock.
      sthen (silence_ecus w long r p) (sthen (install_mode w stock long r p) (sbind (clock w) (maintain_disabled_ecus w)))))
    (\<lambda>_ m. taken_over m \<and> nd_config m = nd_config n \<and> (long \<longrightarrow> vs_gear v = 5))
    (\<lambda>_ m. \<not> nd_vehicle_safety_mode m) n"
    (is "wp ?m _ _ _")
proof -
  have "keeps (\<lambda>m. \<not> nd_vehicle_safety_mode m) ?m"
    by (intro keeps_rules arming_keeps arming_safe_flags assms)
  note off = keeps_wp [OF this assms(2)]
  have "keeps (\<lambda>m. nd_config m = nd_config n) ?m"
    by (intro keeps_rules arming_keeps arming_safe_config assms)
  note config = keeps_wp [OF this refl]
  have silence: "wp (silence_ecus w long r p) (\<lambda>_ m. silenced long m \<and> nd_config m = nd_config n) (\<lambda>_ _. True) m"
    if "nd_config m = nd_config n" for m
    using wp_conj [OF wp_returns_in [OF silence_silences [OF assms(1)]]
        keeps_wp [OF arming_keeps(2) [OF assms(1) arming_safe_config] that]]
    by (rule wp_mono) simp_all
  have install: "wp (install_mode w stock long r p) (\<lambda>_. taken_over) (\<lambda>_ _. True) m"
    if "silenced long m \<and> nd_config m = nd_config n" for m stock
    using that assms by (intro install_takes_over) simp_all
  have maintain: "wp (sbind (clock w) (maintain_disabled_ecus w)) (\<lambda>_. taken_over) (\<lambda>_ _. True) m" if "taken_over m" for m
    using keeps_wp [OF maintain_keeps_taken_over that] by (rule wp_mono) simp_all
  have "wp ?m (\<lambda>_ m. taken_over m \<and> (long \<longrightarrow> vs_gear v = 5)) (\<lambda>_ _. True) n"
    unfolding wp_sbind [of "if long then _ else _"] wp_sthen
    by (rule wp_mono [OF wp_take_template], rule wp_mono [OF silence], simp, rule wp_mono [OF install], simp,
        rule wp_mono [OF maintain]) simp_all
  from wp_conj [OF off wp_conj [OF config this]] show ?thesis by (rule wp_mono) simp_all
qed

lemma wp_sthen_last:
  "wp (sbind m (\<lambda>x. sthen (a x) (sthen (b x) (sthen c (smodify f))))) Q E =
   wp (sbind m (\<lambda>x. sthen (a x) (sthen (b x) c))) (\<lambda>_ s. Q () (f s)) E"
  by (simp add: wp_rules)

section \<open>The path of a takeover\<close>

text \<open>What a run that returned went through, step by step.\<close>

lemma run_steps:
  "sbind m f s = (Inr y, t) \<longleftrightarrow> (\<exists>x u. m s = (Inr x, u) \<and> f x u = (Inr y, t))"
  "sthen m k s = (Inr y, t) \<longleftrightarrow> (\<exists>x u. m s = (Inr x, u) \<and> k u = (Inr y, t))"
  "sret x s = (Inr x', t) \<longleftrightarrow> x' = x \<and> t = s" "sgets g s = (Inr x', t) \<longleftrightarrow> x' = g s \<and> t = s"
  "smodify h s = (Inr z, t) \<longleftrightarrow> t = h s" "sthrow e s \<noteq> (Inr y, t)"
  by (auto simp: sbind_def sthen_def sret_def sgets_def smodify_def sthrow_def split: prod.splits sum.splits)

lemma run_in_transition: "in_transition f n = (Inr x, m) \<longleftrightarrow> (\<exists>k. f (bump_epoch n) = (Inr x, k) \<and> m = bump_epoch k)"
  by (auto simp: in_transition_def sbind_def sthen_def scatch_def smodify_def sthrow_def sret_def split: prod.splits sum.splits)

text \<open>The template is the last stock frame of \<open>n\<close>, and no older than 500 ms on the clock.\<close>

definition template_fresh :: "'d world \<Rightarrow> 'd node \<Rightarrow> bool" where
  "template_fresh w n \<longleftrightarrow> nd_have_stock_scc n \<and> cf_received_at (nd_latest_stock_scc n) \<noteq> 0 \<and>
     (\<exists>t. fst (clock w n) = Inr t \<and> cf_received_at (nd_latest_stock_scc n) \<le> t \<and>
       t - cf_received_at (nd_latest_stock_scc n) \<le> ms 500)"

lemma run_take_template:
  assumes "take_template w v n = (Inr f, k)"
  shows "vs_gear v = 5 \<and> f = nd_latest_stock_scc n \<and> template_fresh w n"
proof -
  obtain t where gear: "vs_gear v = 5" and t: "clock w n = (Inr t, k)" and some: "copy_recent_scc_template t k = Some f"
    using assms by (auto simp: take_template_def run_steps split: if_splits option.splits)
  have "nd_have_stock_scc k = nd_have_stock_scc n" "nd_latest_stock_scc k = nd_latest_stock_scc n"
    using t by (auto simp: clock_def on_panda_def son_def usb_call_def split: prod.splits)
  then show ?thesis using gear t some
    by (auto simp: copy_recent_scc_template_def template_fresh_def kStockSccTimeout_def split: if_splits)
qed

text \<open>A poll that returned has waited until its deadline, on its own clock, or the node was stopped, or
  its condition had gone.\<close>

lemma poll_ran:
  "poll w k deadline go body s = (Inr x, l) \<Longrightarrow>
   \<not> nd_running l \<or> (\<exists>t r. clock w r = (Inr t, l) \<and> (deadline \<le> t \<or> \<not> go l))"
proof (induction k arbitrary: s)
  case (Suc k)
  then show ?case by (auto simp: run_steps not_less split: if_splits)
qed (simp add: run_steps)

text \<open>The ECU was observed to be quiet: in a window of 350 ms, during which the silenced ECUs were kept
  silent, no stock frame of it was counted.\<close>

definition quiet_shown :: "'d world \<Rightarrow> ecu \<Rightarrow> 'd node \<Rightarrow> bool" where
  "quiet_shown w e l \<longleftrightarrow> (\<exists>q t r. clock w q = (Inr t, r) \<and>
     poll w (w_budget w) (t + ms 350) (\<lambda>_. True) (sbind (clock w) (maintain_disabled_ecus w)) r = (Inr (), l) \<and>
     (\<not> nd_running l \<or> (\<exists>t' r'. clock w r' = (Inr t', l) \<and> t + ms 350 \<le> t')) \<and>
     owned_count e l = owned_count e q)"

lemma run_disable_ecu:
  assumes "disable_ecu w e k = (Inr (), l)" and "\<not> is_disabled e k"
  shows "quiet_shown w e l"
proof -
  obtain q t r where "clock w q = (Inr t, r)" "owned_count e l - owned_count e q = 0"
    "poll w (w_budget w) (t + kEcuQuietObservation) (\<lambda>_. True) (sbind (clock w) (maintain_disabled_ecus w)) r = (Inr (), l)"
    using assms by (auto simp: disable_ecu_def run_steps Let_def split: if_splits)
  with poll_ran [OF this(3)] show ?thesis
    unfolding quiet_shown_def kEcuQuietObservation_def
    by (intro exI [of _ q] exI [of _ t] exI [of _ r]) auto
qed

text \<open>The Panda has confirmed the Hyundai mode with the parameter the configuration needs, in its last
  report; with longitudinal control, a probe frame was not blocked; where sessions resume, the
  command session was ready before.\<close>

definition hyundai_confirmed :: "'d world \<Rightarrow> bool \<Rightarrow> bool \<Rightarrow> u16 \<Rightarrow> 'd node \<Rightarrow> bool" where
  "hyundai_confirmed w longitudinal resume param l \<longleftrightarrow> (\<exists>k2 k3 h.
     (resume \<longrightarrow> (\<exists>k1 r. panda_health_of w k1 = (Inr r, k2) \<and> ph_command_session_ready r)) \<and>
     (if longitudinal then \<exists>before after r s. panda_health_of w k2 = (Inr before, r) \<and>
        panda_health_of w s = (Inr after, k3) \<and> ph_safety_tx_blocked after = ph_safety_tx_blocked before
      else k3 = k2) \<and>
     panda_health_of w k3 = (Inr h, l) \<and> ph_safety_mode h = 28 \<and> ph_safety_param h = param)"

lemma run_await_session:
  "await_session w b d h s = (Inr x, l) \<Longrightarrow>
   ph_command_session_ready h \<and> l = s \<or> (\<exists>r k. panda_health_of w k = (Inr r, l) \<and> ph_command_session_ready r)"
proof (induction b arbitrary: h s)
  case (Suc b)
  then show ?case by (fastforce simp: run_steps split: if_splits)
qed (simp add: run_steps)

lemma run_verify_firmware:
  "verify_longitudinal_firmware w k = (Inr x, l) \<Longrightarrow> \<exists>before after r s. panda_health_of w k = (Inr before, r) \<and>
     panda_health_of w s = (Inr after, l) \<and> ph_safety_tx_blocked after = ph_safety_tx_blocked before"
  by (auto simp: verify_longitudinal_firmware_def run_steps numeral_eq_Suc split: if_splits)

lemma run_swhen: "swhen b m s = (Inr x, t) \<longleftrightarrow> (if b then m s = (Inr x, t) else t = s)"
  by (simp add: swhen_def run_steps)

lemma run_install_mode:
  assumes "install_mode w stock long resume param k = (Inr (), l)"
  shows "hyundai_confirmed w long resume param l"
proof -
  obtain k1 k2 k3 h where
    session: "swhen resume (sbind (clock w) (\<lambda>t. sbind (panda_health_of w) (\<lambda>readiness.
         await_session w (w_budget w) (t + ms 500) readiness))) k1 = (Inr (), k2)"
    and firmware: "swhen long (verify_longitudinal_firmware w) k2 = (Inr (), k3)"
    and health: "panda_health_of w k3 = (Inr h, l)"
      "\<not> (ucast (ph_safety_mode h) \<noteq> kSafetyHyundaiCanFd \<or> ph_safety_param h \<noteq> param)"
    using assms unfolding install_mode_def by (auto simp: run_steps split: if_splits)
  have "ucast (ph_safety_mode h) = (28 :: u16)" using health(2) by (simp add: kSafetyHyundaiCanFd_def)
  then have "uint (ucast (ph_safety_mode h) :: u16) = 28" by simp
  then have mode: "ph_safety_mode h = 28" by (simp add: uint_up_ucast is_up word_uint_eq_iff)
  have "resume \<longrightarrow> (\<exists>k1 r. panda_health_of w k1 = (Inr r, k2) \<and> ph_command_session_ready r)"
    using session run_await_session by (fastforce simp: run_swhen run_steps)
  moreover have "if long then \<exists>before after r s. panda_health_of w k2 = (Inr before, r) \<and>
        panda_health_of w s = (Inr after, k3) \<and> ph_safety_tx_blocked after = ph_safety_tx_blocked before
      else k3 = k2"
    using firmware run_verify_firmware [of w k2 "()" k3] by (cases long) (simp_all add: run_swhen)
  ultimately show ?thesis using health mode unfolding hyundai_confirmed_def by blast
qed

text \<open>The evidence behind a takeover from \<open>n\<close> that ended in \<open>m\<close>: the states it passed through after
  silencing the camera (\<open>k1\<close>), and the radar (\<open>k3\<close>), and after arming the Panda (\<open>k5\<close>).\<close>

definition takeover_evidence :: "'d world \<Rightarrow> 'd node \<Rightarrow> 'd node \<Rightarrow> bool" where
  "takeover_evidence w n m \<longleftrightarrow>
     (let safety = nc_safety (nd_config n); longitudinal = sc_allow_longitudinal safety;
          resume = sc_resume_on_command_return safety; param = sc_required_safety_param safety
      in \<exists>k0 k1 k2 k3 k4 k5 k6.
         disable_ecu w Camera k0 = (Inr (), k1) \<and> (nd_camera_disabled n \<or> quiet_shown w Camera k1) \<and>
         heartbeat w False k1 = (Inr (), k2) \<and>
         (if longitudinal
          then disable_ecu w Radar k2 = (Inr (), k3) \<and> (nd_radar_disabled n \<or> quiet_shown w Radar k3) \<and>
            heartbeat w False k3 = (Inr (), k4)
          else k4 = k2) \<and>
         (\<exists>stock. install_mode w stock longitudinal resume param k4 = (Inr (), k5)) \<and>
         hyundai_confirmed w longitudinal resume param k5 \<and>
         sbind (clock w) (maintain_disabled_ecus w) k5 = (Inr (), k6) \<and>
         m = bump_epoch (k6\<lparr>nd_vehicle_safety_mode := True, nd_button_rearm_takeover := False\<rparr>))"

lemma keeps_not_disabled:
  "keeps (\<lambda>m. \<not> is_disabled e m) (heartbeat w b)" "keeps (\<lambda>m. \<not> is_disabled e m) (set_panda_mode w x y)"
  "keeps (\<lambda>m. \<not> is_disabled e m) (if long then take_template w v else sret f)"
  "others_behave w \<Longrightarrow> keeps (\<lambda>m. \<not> is_disabled Radar m) (disable_ecu w Camera)"
  unfolding take_template_def by (intro waiting_rules keeps_disable undisturbed_flags; simp)+

lemma run_keeps: "keeps P m \<Longrightarrow> m s = (r, t) \<Longrightarrow> P s \<Longrightarrow> P t"
  by (metis keepsD snd_conv)

lemma run_takeover:
  assumes w: "others_behave w" and off: "\<not> nd_vehicle_safety_mode n"
    and run: "enter_vehicle_safety_mode w vehicle resume n = (Inr x, m)"
  shows "takeover_evidence w n m"
    and "sc_allow_longitudinal (nc_safety (nd_config n)) \<Longrightarrow> template_fresh w n \<and>
      holds_template (nd_latest_stock_scc n) (nd_codec m)"
proof -
  let ?s = "nc_safety (nd_config n)"
  let ?long = "sc_allow_longitudinal ?s" and ?resume = "sc_resume_on_command_return ?s" and ?param = "sc_required_safety_param ?s"
  have b: "nd_config (bump_epoch n) = nd_config n" "nd_vehicle_safety_mode (bump_epoch n) = nd_vehicle_safety_mode n"
    "nd_latest_stock_scc (bump_epoch n) = nd_latest_stock_scc n" "is_disabled e (bump_epoch n) = is_disabled e n" for e
    by (cases e; simp add: bump_epoch_def)+
  obtain stock k0 k1 k5 k6 where
    template: "(if ?long then take_template w vehicle else sret empty_frame) (bump_epoch n) = (Inr stock, k0)"
    and silence: "silence_ecus w ?long ?resume ?param k0 = (Inr (), k1)"
    and install: "install_mode w stock ?long ?resume ?param k1 = (Inr (), k5)"
    and maintain: "sbind (clock w) (maintain_disabled_ecus w) k5 = (Inr (), k6)"
    and m: "m = bump_epoch (k6\<lparr>nd_vehicle_safety_mode := True, nd_button_rearm_takeover := False\<rparr>)"
    using run off unfolding enter_vehicle_safety_mode_def run_in_transition
    by (auto simp: run_steps(1,2,4,5,6) Let_def b split: if_split_asm option.split_asm)
  obtain a c k2 k3 where quiet: "heartbeat w False k0 = (Inr (), a)"
    "set_panda_mode w kSafetyElm327 (if ?resume then ?param else kElm327EcanParam) a = (Inr (), c)"
    "disable_ecu w Camera c = (Inr (), k2)" "heartbeat w False k2 = (Inr (), k3)"
    "swhen ?long (sthen (disable_ecu w Radar) (heartbeat w False)) k3 = (Inr (), k1)"
    using silence by (auto simp: silence_ecus_def run_steps(2))
  have unsilenced: "\<not> is_disabled e c" if "\<not> is_disabled e n" for e
    using that run_keeps [OF keeps_not_disabled(3) template, of e] run_keeps [OF keeps_not_disabled(1) quiet(1), of e]
      run_keeps [OF keeps_not_disabled(2) quiet(2), of e] by (simp add: b)
  have camera: "nd_camera_disabled n \<or> quiet_shown w Camera k2"
    using unsilenced [of Camera] run_disable_ecu [OF quiet(3)] by auto
  have "\<not> is_disabled Radar k3" if "\<not> nd_radar_disabled n"
    using unsilenced [of Radar] that run_keeps [OF keeps_not_disabled(4) [OF w] quiet(3)]
      run_keeps [OF keeps_not_disabled(1) quiet(4), of Radar] by simp
  then have radar: "nd_radar_disabled n \<or> quiet_shown w Radar u" if "disable_ecu w Radar k3 = (Inr (), u)" for u
    using run_disable_ecu [OF that] by auto
  have "\<exists>k4. if ?long then disable_ecu w Radar k3 = (Inr (), k4) \<and> (nd_radar_disabled n \<or> quiet_shown w Radar k4) \<and>
      heartbeat w False k4 = (Inr (), k1) else k1 = k3"
    using quiet(5) radar by (auto simp: run_swhen run_steps(2))
  with camera quiet(3,4) install run_install_mode [OF install] maintain m show "takeover_evidence w n m"
    unfolding takeover_evidence_def Let_def by blast
  show "template_fresh w n \<and> holds_template (nd_latest_stock_scc n) (nd_codec m)" if ?long
  proof -
    have "fst (clock w (bump_epoch n)) = fst (clock w n)"
      by (simp add: clock_def on_panda_def son_def usb_call_def bump_epoch_def split: prod.split)
    then have fresh: "template_fresh w n" "stock = nd_latest_stock_scc n"
      using run_take_template [of w vehicle "bump_epoch n" stock k0] template that
      by (simp_all add: template_fresh_def b) (simp_all add: bump_epoch_def)
    have "holds_template stock (nd_codec k5)"
      using wp_Inr [OF install [unfolded eqTrueI [OF that]] install_template [OF w]] .
    have kept: "keeps (\<lambda>m. holds_template stock (nd_codec m)) (sbind (clock w) (maintain_disabled_ecus w))"
      by (intro waiting_rules undisturbed_flags)
    have "holds_template stock (nd_codec k6)" by (rule run_keeps [OF kept]) fact+
    then show ?thesis using fresh m by (simp add: bump_epoch_def)
  qed
qed


section \<open>The evidence of a restored ECU\<close>

lemma observe_counts:
  "owned_count e (observe_control_frame f n) = owned_count e n +
     (if cf_address f = owned_address e \<and> \<not> cf_rejected f \<and> \<not> cf_returned f \<and> cf_bus f = nc_ecan_bus (nd_config n) \<and>
         cf_size f = (case e of Camera \<Rightarrow> 16 | Radar \<Rightarrow> 32) \<and> checksum_valid f then 1 else 0)"
  by (cases e) (auto simp: observe_control_frame_def note_stock_def deliver_uds_def Let_def
    kLfaAddress_def kSccControlAddress_def)

text \<open>The count of stock frames the restoration relies on counts real evidence: handling a received
  frame adds one for an ECU exactly if the frame carries the address that ECU owns, came in on the
  E-CAN bus (neither returned nor rejected), and has the right length and a valid checksum. A frame
  whose checksum is wrong does not count, whatever the parser does with it.\<close>

theorem stock_count_is_evidence:
  "owned_count e (snd (process_frame f n)) = owned_count e n +
     (if cf_address f = owned_address e \<and> \<not> cf_rejected f \<and> \<not> cf_returned f \<and> cf_bus f = nc_ecan_bus (nd_config n) \<and>
         cf_size f = (case e of Camera \<Rightarrow> 16 | Radar \<Rightarrow> 32) \<and> checksum_valid f then 1 else 0)"
proof -
  have count: "owned_count e (publish_raw_can f m) = owned_count e m" "owned_count e (m\<lparr>nd_parser := p\<rparr>) = owned_count e m" for m p
    by (cases e; simp add: publish_raw_can_def)+
  have "wp (process_frame f) (\<lambda>_ m. owned_count e m = owned_count e (observe_control_frame f n))
      (\<lambda>_ m. owned_count e m = owned_count e (observe_control_frame f n)) n"
    by (simp add: process_frame_def wp_rules count split: sum.split prod.split)
  then have "owned_count e (snd (process_frame f n)) = owned_count e (observe_control_frame f n)"
    by (cases "process_frame f n"; cases "fst (process_frame f n)") (auto simp: wp_def)
  then show ?thesis by (simp add: observe_counts)
qed

lemma await_stock_evidence: "wp (await_stock w e) (\<lambda>r m. r = owned_count e m - owned_count e n) (\<lambda>_ _. True) n"
  unfolding await_stock_def wp_sbind wp_sgets wp_sthen wp_sret
  by (rule wp_mono [OF wp_True], rule wp_mono [OF wp_True]) simp_all

lemma await_stock_flag:
  "others_behave w \<Longrightarrow> wp (await_stock w e) (\<lambda>_ m. is_disabled e m = is_disabled e n) (\<lambda>_ m. is_disabled e m = is_disabled e n) n"
  by (cases "is_disabled e n")
    (use keeps_wp [OF keeps_await_stock [OF _ undisturbed_flags(2)], of w e n e]
       keeps_wp [OF keeps_await_stock [OF _ undisturbed_flags(1)], of w e n e] in \<open>simp_all del: is_disabled.simps\<close>)

text \<open>C10: an ECU the node silenced is taken for restored only on evidence. The confirmation step returns
  only if stock frames of that ECU were counted while it waited, and it throws, leaving the ECU
  marked as silenced, otherwise; the restore step either leaves the mark or has counted a frame.\<close>

theorem released_on_evidence:
  assumes "others_behave w" and "is_disabled e n"
  shows "(case confirm_ecu_restored w e n of
      (Inr _, m) \<Rightarrow> \<not> is_disabled e m \<and> owned_count e m \<noteq> owned_count e n
    | (Inl _, m) \<Rightarrow> is_disabled e m)
   \<and> (\<not> is_disabled e (snd (restore_ecu w e n)) \<longrightarrow>
        owned_count e (snd (restore_ecu w e n)) \<noteq> owned_count e n)"
proof
  have both: "wp (await_stock w e) (\<lambda>r m. r = owned_count e m - owned_count e n \<and> is_disabled e m)
      (\<lambda>_ m. is_disabled e m) n"
    by (rule wp_mono [OF wp_conj [OF await_stock_evidence await_stock_flag [OF assms(1)]]])
      (use assms(2) in \<open>simp_all del: is_disabled.simps\<close>)
  have "wp (confirm_ecu_restored w e) (\<lambda>_ m. \<not> is_disabled e m \<and> owned_count e m \<noteq> owned_count e n)
      (\<lambda>_ m. is_disabled e m) n"
    unfolding confirm_ecu_restored_def wp_sbind wp_sgets using assms(2)
    by (simp add: wp_sbind del: is_disabled.simps, intro wp_mono [OF both]) (auto simp: wp_rules simp del: is_disabled.simps)
  then show "case confirm_ecu_restored w e n of
      (Inr _, m) \<Rightarrow> \<not> is_disabled e m \<and> owned_count e m \<noteq> owned_count e n | (Inl _, m) \<Rightarrow> is_disabled e m"
    by (auto simp: wp_def split: prod.splits sum.splits)
  let ?ask = "sbind (uds_request w (request_address e) (response_address e) [0x10, 0x03] [0x50, 0x03]) (\<lambda>_.
         sbind (uds_request w (request_address e) (response_address e) [0x28, 0x00, 0x01] [0x68, 0x00]) (\<lambda>_.
         sbind (uds_request w (request_address e) (response_address e) [0x10, 0x01] [0x50, 0x01]) (\<lambda>_.
         sret ())))"
  have ask: "keeps (\<lambda>m. is_disabled e m) ?ask" by (intro waiting_rules undisturbed_flags assms)
  let ?ok = "\<lambda>m. \<not> is_disabled e m \<longrightarrow> owned_count e m \<noteq> owned_count e n"
  have after_wait: "wp (if r \<noteq> 0 then smodify (set_disabled e False) else ?ask) (\<lambda>_. ?ok) (\<lambda>_. ?ok) m"
    if "r = owned_count e m - owned_count e n \<and> is_disabled e m \<or> r = 0 \<and> is_disabled e m" for r m
    using that by (auto simp: wp_smodify simp del: is_disabled.simps intro!: wp_mono [OF keeps_wp [OF ask]])
  have wait: "wp (sbind (if b then await_stock w e else sret 0) (\<lambda>r. if r \<noteq> 0 then smodify (set_disabled e False) else ?ask))
      (\<lambda>_. ?ok) (\<lambda>_. ?ok) n" for b
  proof (cases b)
    case True
    show ?thesis unfolding wp_sbind [of "if b then _ else _"]
      using True by simp (rule wp_mono [OF both], rule after_wait, simp_all del: is_disabled.simps)
  next
    case False
    then show ?thesis using after_wait [of 0 n] assms(2) by (simp add: wp_sbind wp_sret del: is_disabled.simps)
  qed
  have "wp (restore_ecu w e) (\<lambda>_. ?ok) (\<lambda>_. ?ok) n"
    unfolding restore_ecu_def wp_sbind [of "sgets f" for f] wp_sgets wp_if using assms(2) wait by simp
  then show "\<not> is_disabled e (snd (restore_ecu w e n)) \<longrightarrow>
        owned_count e (snd (restore_ecu w e n)) \<noteq> owned_count e n"
    by (cases "restore_ecu w e n"; cases "fst (restore_ecu w e n)") (auto simp: wp_def simp del: is_disabled.simps)
qed

section \<open>Witnesses\<close>

theorem no_output_outcome_witness:
  "case enter_no_output_mode demo_world demo_node of
     (Inr _, m) \<Rightarrow> standby_confirmed m \<and> \<not> nd_recovery_pending m
   | (Inl e, m) \<Rightarrow> nd_recovery_pending m \<and> rr_failures (nd_recovery_retry m) = 1"
  using no_output_outcome [OF demo_others, of demo_node]
  by (auto simp: demo_fields initial_retry_def split: prod.splits sum.splits)


theorem released_on_evidence_witness:
  "case confirm_ecu_restored demo_world Camera (set_disabled Camera True demo_node) of
     (Inr _, m) \<Rightarrow> nd_stock_lfa_count m \<noteq> nd_stock_lfa_count demo_node | (Inl _, m) \<Rightarrow> nd_camera_disabled m"
  using released_on_evidence [OF demo_others, of Camera "set_disabled Camera True demo_node"]
  by (auto split: prod.splits sum.splits)

end
