(* ===== verification/Node_Invariant.thy ===== *)
theory Node_Invariant
  imports Control_Loop Mode_Properties
begin

text \<open>
  The invariant of the whole node: the steps are the iterations of the two threads, the ROS callbacks
  and the destructor, in any order. The components stay in states their own machines reach, so that
  every theorem about a component holds inside the node; an arm request only stands where actuation
  is configured; an accepted command is finite; and a silenced ECU is never forgotten.
\<close>

section \<open>The parts the invariant speaks of\<close>

type_synonym core = "node_config \<times> adapter \<times> supervisor \<times> bool \<times> command_sample"

definition core_of :: "'d node \<Rightarrow> core" where
  "core_of n = (nd_config n, nd_adapter n, nd_supervisor n, nd_requested_arm n, nd_latest_command n)"

text \<open>The components are where their own machines can get from the loaded configuration.\<close>

fun sound_core :: "libm \<Rightarrow> params \<Rightarrow> core \<Rightarrow> bool" where
  "sound_core m ps (c, a, s, requested, command) \<longleftrightarrow>
     load_configuration ps = Inr c \<and>
     reach (ad_init (nc_adapter c)) (ad_step m (nc_adapter c)) a \<and>
     reach (sv_init (nc_safety c)) (sv_step (nc_safety c)) s \<and>
     (requested \<longrightarrow> sc_allow_actuation (nc_safety c)) \<and>
     (cs_valid command \<longrightarrow> isfinite (cs_lateral command) \<and> isfinite (cs_acceleration_mps2 command))"

abbreviation sound :: "libm \<Rightarrow> params \<Rightarrow> 'd node \<Rightarrow> bool" where
  "sound m ps n \<equiv> sound_core m ps (core_of n)"

lemma core_update [simp]:
  "core_of (n\<lparr>nd_panda := p\<rparr>) = core_of n" "core_of (n\<lparr>nd_codec := k\<rparr>) = core_of n"
  "core_of (set_tester_present e t n) = core_of n" "core_of (set_disabled e b n) = core_of n"
  "core_of (end_uds_wait n) = core_of n" "core_of (drop_raw n) = core_of n" "core_of (bump_epoch n) = core_of n"
  "core_of (n\<lparr>nd_parser := q\<rparr>) = core_of n" "core_of (n\<lparr>nd_latest_health := h\<rparr>) = core_of n"
  "core_of (n\<lparr>nd_applied_arm := b\<rparr>) = core_of n" "core_of (n\<lparr>nd_running := b\<rparr>) = core_of n"
  "core_of (n\<lparr>nd_vehicle_safety_mode := b\<rparr>) = core_of n" "core_of (n\<lparr>nd_latest_decision := d\<rparr>) = core_of n"
  "core_of (publish_raw_can f n) = core_of n" "core_of (note_stock f n) = core_of n" "core_of (deliver_uds f n) = core_of n"
  by (cases e; simp add: core_of_def end_uds_wait_def drop_raw_def bump_epoch_def publish_raw_can_def note_stock_def
    deliver_uds_def Let_def)+

lemma core_observe [simp]: "core_of (observe_control_frame f n) = core_of n"
  by (simp add: observe_control_frame_def) (simp add: core_of_def)

lemma core_process [simp]: "core_of (snd (process_frame f n)) = core_of n"
proof -
  have "keeps (\<lambda>m. core_of m = core_of n) (process_frame f)"
    unfolding process_frame_def by (intro keeps_rules) simp_all
  from keepsD [OF this refl] show ?thesis .
qed

lemma sound_command: "sound m ps n \<Longrightarrow> sound m ps (command_callback c t n)"
  by (auto simp: core_of_def command_callback_def Let_def)

lemma sound_arm: "sound m ps n \<Longrightarrow> sound m ps (snd (arm_callback b n))"
  "sound m ps n \<Longrightarrow> sound m ps (snd (request_internal_disarm b n))"
  by (auto simp: core_of_def arm_callback_def request_internal_disarm_def Let_def)

lemma other_step_core:
  "other_step n n' \<Longrightarrow> core_of n' = core_of n \<or> (\<exists>c t. n' = command_callback c t n) \<or>
     (\<exists>b. n' = snd (arm_callback b n)) \<or> (\<exists>b. n' = snd (request_internal_disarm b n))"
  by (erule other_step.cases) (simp_all, blast+)

lemma undisturbed_sound: "undisturbed (sound m ps)"
  unfolding undisturbed_def
proof (intro conjI allI impI)
  fix n n' :: "'a node" assume "other_step n n'" "sound m ps n"
  then show "sound m ps n'" using other_step_core [of n n'] sound_command sound_arm by metis
qed (simp_all, simp_all add: core_of_def)

lemma sound_safe: "restorable (sound m ps)" "arming_safe (sound m ps)"
  unfolding restorable_def arming_safe_def by (simp_all add: undisturbed_sound)

section \<open>Operations keep the components sound\<close>

text \<open>A predicate the bookkeeping of the transitions keeps.\<close>

definition transparent :: "('d node \<Rightarrow> bool) \<Rightarrow> bool" where
  "transparent Q \<longleftrightarrow> restorable Q \<and> arming_safe Q \<and>
     (\<forall>n. Q n \<longrightarrow> Q (bump_epoch n) \<and>
       (\<forall>v b r p a i. Q (n\<lparr>nd_vehicle_safety_mode := v, nd_button_rearm_takeover := b\<rparr>) \<and>
         Q (n\<lparr>nd_vehicle_safety_mode := v, nd_recovery_pending := p\<rparr>) \<and>
         Q (n\<lparr>nd_recovery_retry := r\<rparr>) \<and> Q (n\<lparr>nd_recovery_attempts := a\<rparr>) \<and>
         Q (n\<lparr>nd_recovery_retry := r, nd_recovery_pending := p\<rparr>) \<and>
         Q (n\<lparr>nd_auto_arm_inhibited := i, nd_recovery_rearm_required := p\<rparr>)))"

lemma transparent_sound: "transparent (sound m ps)"
  unfolding transparent_def by (simp add: sound_safe) (simp add: core_of_def)

lemma keeps_in_transition: "(\<And>n. Q n \<Longrightarrow> Q (bump_epoch n)) \<Longrightarrow> keeps Q m \<Longrightarrow> keeps Q (in_transition m)"
  unfolding in_transition_def by (intro keeps_rules)

lemma keeps_enter_vehicle:
  assumes "others_behave w" and "transparent Q"
  shows "keeps Q (enter_vehicle_safety_mode w v r)"
proof -
  have a: "arming_safe Q" and u: "undisturbed Q" using assms(2) by (simp_all add: transparent_def arming_safe_def)
  note steps = arming_keeps [OF assms(1) a]
  show ?thesis unfolding enter_vehicle_safety_mode_def
    by (intro keeps_in_transition waiting_rules steps u assms(1)) (use assms(2) in \<open>simp_all add: transparent_def\<close>)
qed

lemma keeps_enter_no_output:
  assumes "others_behave w" and "transparent Q"
  shows "keeps Q (enter_no_output_mode w)"
proof -
  have r: "restorable Q" and u: "undisturbed Q" and c: "\<And>n k. Q n \<Longrightarrow> Q (n\<lparr>nd_codec := k\<rparr>)"
    using assms(2) by (simp_all add: transparent_def restorable_def arming_safe_def)
  show ?thesis unfolding enter_no_output_mode_def
    by (intro keeps_in_transition keeps_rules keeps_restore_stages device_rules r u c assms(1))
      (use assms(2) in \<open>simp_all add: transparent_def\<close>)
qed

lemma keeps_retry:
  "others_behave w \<Longrightarrow> transparent Q \<Longrightarrow> stable w Q \<Longrightarrow> keeps Q (retry_no_output_recovery w now)"
  unfolding retry_no_output_recovery_def
  by (intro keeps_rules keeps_interfere keeps_enter_no_output) (simp_all add: transparent_def)

text \<open>The steps outside of the mutex keep the components sound.\<close>

lemma keeps_raw: "keeps (sound m ps) (raw_can_tx_callback w msg)"
  unfolding raw_can_tx_callback_def Let_def
  by (intro keeps_rules keeps_on_panda [OF undisturbed_sound]) (simp_all add: core_of_def drop_raw_def)

lemma stable_sound: "others_behave w \<Longrightarrow> stable w (sound m ps)"
  by (rule stableI [OF undisturbed_sound keeps_raw keeps_enter_no_output [OF _ transparent_sound]])
    (simp_all add: sound_arm)

lemma keeps_disarm_request: "keeps (sound m ps) (request_internal_disarm b)"
  by (rule keepsI) (simp add: wp_def request_internal_disarm_def core_of_def Let_def)

lemma keeps_internal_disarm: "keeps (sound m ps) internal_disarm"
  unfolding internal_disarm_def by (intro keeps_rules keeps_disarm_request)

lemma keeps_supervise_arm: "keeps (sound m ps) (supervise_arm b)"
proof (rule keepsI)
  fix n :: "'a node" assume n: "sound m ps n"
  obtain r t where t: "request_arm (nc_safety (nd_config n)) b (nd_supervisor n) = (r, t)" by fastforce
  have "reach (sv_init (nc_safety (nd_config n))) (sv_step (nc_safety (nd_config n))) t"
    by (rule reach_step [where s = "nd_supervisor n"]) (use n in \<open>simp_all add: core_of_def sv_step.step_arm [OF t]\<close>)
  with n t show "wp (supervise_arm b) (\<lambda>_. sound m ps) (\<lambda>_. sound m ps) n"
    by (simp add: wp_def supervise_arm_def core_of_def)
qed

lemma keeps_supervise: "keeps (sound m ps) (supervise s)"
proof (rule keepsI)
  fix n :: "'a node" assume n: "sound m ps n"
  obtain t d where t: "update (nc_safety (nd_config n)) (sm_now s) (sm_vehicle s) (sm_health s) (sm_command s)
      (nd_supervisor n) = (t, d)" by fastforce
  have "reach (sv_init (nc_safety (nd_config n))) (sv_step (nc_safety (nd_config n))) t"
    by (rule reach_step [where s = "nd_supervisor n"]) (use n in \<open>simp_all add: core_of_def sv_step.step_update [OF t]\<close>)
  with n t show "wp (supervise s) (\<lambda>_. sound m ps) (\<lambda>_. sound m ps) n"
    by (simp add: wp_def supervise_def core_of_def)
qed

lemma keeps_adapt: "keeps (sound (w_libm w) ps) (adapt w c s lat long)"
proof (rule keepsI)
  fix n :: "'a node" assume n: "sound (w_libm w) ps n"
  obtain r a where a: "update_adapter (w_libm w) (nc_adapter (nd_config n)) c (sm_vehicle s) (sm_dt s) lat long
      (nd_adapter n) = (r, a)" by fastforce
  have "reach (ad_init (nc_adapter (nd_config n))) (ad_step (w_libm w) (nc_adapter (nd_config n))) a"
    by (rule reach_step [where s = "nd_adapter n"]) (use n in \<open>simp_all add: core_of_def ad_step.step_adapt [OF a]\<close>)
  with n a show "wp (adapt w c s lat long) (\<lambda>_. sound (w_libm w) ps) (\<lambda>_. sound (w_libm w) ps) n"
    by (simp add: wp_def adapt_def core_of_def split: sum.split)
qed

lemma sound_reset: "sound m ps n \<Longrightarrow> sound m ps (n\<lparr>nd_adapter := reset v (nd_adapter n)\<rparr>)"
  by (auto simp: core_of_def intro: reach_step step_reset)

lemmas sound_waits = keeps_on_panda [OF undisturbed_sound] keeps_heartbeat [OF undisturbed_sound]
  keeps_set_panda_mode [OF undisturbed_sound] keeps_panda_health [OF undisturbed_sound] keeps_enter_vehicle [OF _ transparent_sound]
  keeps_enter_no_output [OF _ transparent_sound] keeps_retry [OF _ transparent_sound stable_sound]
  keeps_interfere [OF _ stable_sound] keeps_maintain [OF undisturbed_sound] keeps_clock [OF undisturbed_sound]

lemmas sound_rules = keeps_rules sound_waits keeps_internal_disarm keeps_disarm_request keeps_supervise_arm keeps_supervise keeps_adapt

lemma keeps_restart: "keeps (sound m ps) (restart_period w l)"
  unfolding restart_period_def by (intro sound_rules)

lemma keeps_note_engage: "others_behave w \<Longrightarrow> keeps (sound m ps) (note_engage_press w v)"
  unfolding note_engage_press_def by (intro sound_rules) (simp_all add: core_of_def note_events_def)

text \<open>The check and the request may be far apart: what was checked is a property of the configuration.\<close>

lemma keeps_auto_arm:
  assumes "others_behave w"
  shows "keeps (sound m ps) (auto_arm w s)"
  unfolding auto_arm_def
proof (rule keeps_read)
  fix n :: "'a node" assume "sound m ps n"
  then have "auto_arm_ready s n \<Longrightarrow> \<exists>c. load_configuration ps = Inr c \<and> sc_allow_actuation (nc_safety c)"
    by (auto simp: core_of_def auto_arm_ready_def Let_def)
  then show "keeps (sound m ps) (sthen (interfere w) (swhen (auto_arm_ready s n) (smodify raise_request)))"
    by (intro sound_rules assms) (auto simp: core_of_def raise_request_def)
qed

lemma keeps_take_sample: "others_behave w \<Longrightarrow> keeps (sound m ps) (take_sample w now previous)"
  unfolding take_sample_def by (intro sound_rules)

lemma keeps_handle_arm: "others_behave w \<Longrightarrow> keeps (sound m ps) (handle_arm_request w s l)"
  unfolding handle_arm_request_def apply_arm_def arm_failed_def install_listener_def set_applied_arm_def
  by (intro keeps_in_transition sound_rules keeps_restart) (simp_all add: core_of_def bump_epoch_def)

lemma keeps_build_any: "(\<And>n k. Q n \<Longrightarrow> Q (n\<lparr>nd_codec := k\<rparr>)) \<Longrightarrow> keeps Q (build b)"
  by (rule keeps_build)

lemma keeps_control_frames: "keeps (sound m ps) (control_frames i s out d)"
  unfolding control_frames_def cluster_frame_def longitudinal_frames_def
  by (intro keeps_rules keeps_build_any) simp_all

lemma keeps_session_stage: "others_behave w \<Longrightarrow> keeps (sound m ps) (session_stage w s d l)"
  unfolding session_stage_def drop_longitudinal_def resume_stage_def yield_to_stock_def take_over_def
    log_and_disarm_def store_decision_def
  by (intro sound_rules keeps_restart) (simp_all add: sound_reset, simp_all add: core_of_def, auto intro: reach_step step_reset)

lemma keeps_clean_up: "others_behave w \<Longrightarrow> keeps (sound m ps) (clean_up w s d l)"
  unfolding clean_up_def set_applied_arm_def store_decision_def
  by (intro sound_rules keeps_restart) (simp_all add: core_of_def)

lemma keeps_drive: "others_behave w \<Longrightarrow> keeps (sound (w_libm w) ps) (drive w s d l)"
  unfolding drive_def shape_output_def send_control_frames_def beat_def log_and_disarm_def store_decision_def
  by (intro sound_rules keeps_control_frames) simp_all

lemma keeps_tick:
  assumes "others_behave w"
  shows "keeps (sound (w_libm w) ps) (control_tick w l)"
  unfolding control_tick_def run_period_def decide_and_act_def
  by (intro sound_rules keeps_note_engage keeps_auto_arm keeps_take_sample keeps_handle_arm keeps_session_stage
      keeps_clean_up keeps_drive assms)

lemma keeps_on_node: "keeps Q m \<Longrightarrow> keeps (Q \<circ> fst) (on_node m)"
  unfolding keeps_def on_node_def wp_son by simp

lemma keeps_locals: "keeps (Q \<circ> fst) (set_locals f)"
  unfolding set_locals_def by (rule keeps_smodify) auto

lemma keeps_receive_cycle: "keeps (sound m ps \<circ> fst) (receive_cycle w fuel)"
proof -
  have p: "keeps (sound m ps) (process_frame f)" for f
    unfolding process_frame_def by (intro keeps_rules) simp_all
  show ?thesis
    unfolding receive_cycle_def receive_try_def receive_frames_def reconnect_def poll_health_def receive_failed_def
    by (intro keeps_rules keeps_on_node keeps_locals sound_waits keeps_internal_disarm p) (simp_all add: core_of_def)
qed

lemma keeps_shut_down: "others_behave w \<Longrightarrow> keeps (sound m ps) (shut_down w)"
  unfolding shut_down_def by (intro sound_rules) (simp_all add: core_of_def)

section \<open>No silenced ECU is forgotten\<close>

definition remembered :: "'d node \<Rightarrow> bool" where
  "remembered n \<longleftrightarrow> nd_camera_disabled n \<or> nd_radar_disabled n \<longrightarrow> nd_vehicle_safety_mode n \<or> nd_recovery_pending n"

lemma remembered_protected:
  "remembered n \<longleftrightarrow> (case protected_part n of (c, a, s, k, v, cam, rad, r) \<Rightarrow> cam \<or> rad \<longrightarrow> v) \<or> nd_recovery_pending n"
  by (auto simp: remembered_def protected_part_def)

lemma undisturbed_disj: "undisturbed P \<Longrightarrow> undisturbed Q \<Longrightarrow> undisturbed (\<lambda>n. P n \<or> Q n)"
  unfolding undisturbed_def by meson

lemma undisturbed_remembered: "undisturbed remembered"
  unfolding remembered_protected [abs_def]
  by (rule undisturbed_disj [OF undisturbed_protected undisturbed_recovery_pending])

lemma remembered_pending: "nd_recovery_pending n \<Longrightarrow> remembered n"
  by (simp add: remembered_def)

lemma remembered_no_output: "others_behave w \<Longrightarrow> wp (enter_no_output_mode w) (\<lambda>_. remembered) (\<lambda>_. remembered) n"
  by (rule wp_mono [OF wp_enter_no_output]) (auto simp: remembered_def given_back_def all_restored_def latched_def)

lemma remembered_vehicle: "wp (enter_vehicle_safety_mode w v r) (\<lambda>_. remembered) (\<lambda>_ _. True) n"
proof -
  have steps: "wp (sbind m (\<lambda>f. sthen (a f) (sthen (b f) (sthen c
      (smodify (\<lambda>n. n\<lparr>nd_vehicle_safety_mode := True, nd_button_rearm_takeover := False\<rparr>))))))
      (\<lambda>_. nd_vehicle_safety_mode) (\<lambda>_ _. True) n" for m :: "('a node, 'f) action" and a b c n
    by (intro wp_returns_in returns_in_rules) simp
  have "wp (enter_vehicle_safety_mode w v r) (\<lambda>_. nd_vehicle_safety_mode) (\<lambda>_ _. True) n"
    unfolding enter_vehicle_safety_mode_def wp_in_transition wp_sbind [of "sgets id"] wp_sgets Let_def
    by (auto simp: wp_sret wp_sthrow split: option.split intro!: wp_mono [OF steps])
  then show ?thesis by (rule wp_mono) (simp_all add: remembered_def)
qed

text \<open>A failed takeover is followed by a disarm, which opens the recovery.\<close>

lemma disarm_remembers: "wp (request_internal_disarm b) (\<lambda>_. nd_recovery_pending) (\<lambda>_. nd_recovery_pending) n"
  by (simp add: wp_def request_internal_disarm_def Let_def)

lemma internal_disarm_remembers: "wp internal_disarm (\<lambda>_. nd_recovery_pending) (\<lambda>_. nd_recovery_pending) n"
  unfolding internal_disarm_def wp_sthen wp_sret by (rule wp_mono [OF disarm_remembers]) simp_all

lemma keeps_remembered_disarm: "keeps remembered internal_disarm" "keeps remembered (request_internal_disarm b)"
  using internal_disarm_remembers disarm_remembers
  by (auto simp: keeps_def intro: wp_mono [where Q = "\<lambda>_. nd_recovery_pending" and E = "\<lambda>_. nd_recovery_pending"] remembered_pending)

lemma keeps_remembered_no_output: "others_behave w \<Longrightarrow> keeps remembered (enter_no_output_mode w)"
  by (rule keepsI) (rule remembered_no_output)

lemma keeps_remembered_raw: "keeps remembered (raw_can_tx_callback w msg)"
  unfolding raw_can_tx_callback_def Let_def
  by (intro keeps_rules keeps_on_panda [OF undisturbed_remembered]) (simp_all add: remembered_def drop_raw_def)

lemma stable_remembered: "others_behave w \<Longrightarrow> stable w remembered"
  by (rule stableI [OF undisturbed_remembered keeps_remembered_raw keeps_remembered_no_output])
    (simp_all add: remembered_pending, simp add: remembered_def both_disabled_def)

lemma keeps_remembered_retry: "others_behave w \<Longrightarrow> keeps remembered (retry_no_output_recovery w now)"
  unfolding retry_no_output_recovery_def
  by (intro keeps_rules keeps_interfere stable_remembered keeps_remembered_no_output) (simp_all add: remembered_def)

lemma remembered_panda: "keeps remembered (on_panda m)" "keeps remembered (clock w)" "keeps remembered (heartbeat w b)"
  "keeps remembered (set_panda_mode w x y)" "keeps remembered (panda_health_of w)"
  by (simp_all add: keeps_on_panda keeps_clock keeps_heartbeat keeps_set_panda_mode keeps_panda_health undisturbed_remembered)

lemma keeps_remembered_restart: "keeps remembered (restart_period w l)"
  unfolding restart_period_def by (intro keeps_rules remembered_panda)

lemma remembered_update:
  "remembered (n\<lparr>nd_supervisor := s\<rparr>) = remembered n" "remembered (n\<lparr>nd_adapter := a\<rparr>) = remembered n"
  "remembered (bump_epoch n) = remembered n" "remembered (note_events v n) = remembered n"
  "remembered (raise_request n) = remembered n" "remembered (n\<lparr>nd_applied_arm := b\<rparr>) = remembered n"
  "remembered (n\<lparr>nd_latest_health := h\<rparr>) = remembered n" "remembered (n\<lparr>nd_latest_decision := d\<rparr>) = remembered n"
  "remembered (n\<lparr>nd_codec := k\<rparr>) = remembered n"
  by (simp_all add: remembered_def bump_epoch_def note_events_def raise_request_def)

lemma keeps_remembered_supervise: "keeps remembered (supervise_arm b)" "keeps remembered (supervise s)" "keeps remembered (adapt w c s lat long)"
  unfolding keeps_def wp_def
  by (simp_all add: supervise_arm_def supervise_def adapt_def remembered_update split: prod.split sum.split)

text \<open>A guarded action keeps a predicate if it brings it whenever it returns, and its handler restores it
  from any state. A handler that disarms first does.\<close>

definition brings :: "('s \<Rightarrow> bool) \<Rightarrow> ('s, 'a) action \<Rightarrow> bool" where
  "brings Q m \<longleftrightarrow> (\<forall>s. Q s \<longrightarrow> wp m (\<lambda>_. Q) (\<lambda>_ _. True) s)"

lemma brings_keeps: "keeps Q m \<Longrightarrow> brings Q m"
  unfolding keeps_def brings_def by (blast intro: wp_mono)

lemma brings_sbind: "brings Q m \<Longrightarrow> (\<And>x. brings Q (f x)) \<Longrightarrow> brings Q (sbind m f)"
  unfolding brings_def wp_rules by (blast intro: wp_mono)

lemma brings_sthen: "brings Q m \<Longrightarrow> brings Q k \<Longrightarrow> brings Q (sthen m k)"
  unfolding sthen_def by (rule brings_sbind)

lemma brings_if: "(b \<Longrightarrow> brings Q m) \<Longrightarrow> (\<not> b \<Longrightarrow> brings Q k) \<Longrightarrow> brings Q (if b then m else k)"
  by simp

lemma brings_Let: "brings Q (f x) \<Longrightarrow> brings Q (Let x f)"
  by simp

lemma keeps_guarded:
  assumes "brings Q m" and "\<And>e s. wp (h e) (\<lambda>_. Q) (\<lambda>_. Q) s"
  shows "keeps Q (scatch m h)"
  unfolding keeps_def wp_scatch
proof (intro allI impI)
  fix s assume "Q s"
  with assms(1) have "wp m (\<lambda>_. Q) (\<lambda>_ _. True) s" by (simp add: brings_def)
  then show "wp m (\<lambda>_. Q) (\<lambda>e. wp (h e) (\<lambda>_. Q) (\<lambda>_. Q)) s" by (rule wp_mono) (simp_all add: assms(2))
qed

lemma wp_disarm_then:
  assumes "keeps remembered k"
  shows "wp (sthen internal_disarm k) (\<lambda>_. remembered) (\<lambda>_. remembered) n"
  unfolding wp_sthen
  by (rule wp_mono [OF internal_disarm_remembers]) (auto intro: keeps_wp [OF assms] remembered_pending)

lemma keeps_log_and_disarm: "brings remembered m \<Longrightarrow> keeps remembered (log_and_disarm m)"
  unfolding log_and_disarm_def
  by (rule keeps_guarded) (auto intro: wp_mono [OF internal_disarm_remembers] remembered_pending)

lemma brings_vehicle: "brings remembered (enter_vehicle_safety_mode w v r)"
  by (simp add: brings_def remembered_vehicle)

lemmas remembered_rules = keeps_rules remembered_panda keeps_remembered_disarm keeps_remembered_no_output
  keeps_remembered_retry keeps_remembered_restart keeps_remembered_supervise keeps_log_and_disarm
  keeps_interfere [OF _ stable_remembered]

lemmas brings_rules = brings_sbind brings_sthen brings_if brings_Let brings_vehicle

lemma keeps_remembered_applied: "keeps remembered (set_applied_arm b)"
  unfolding set_applied_arm_def by (rule keeps_smodify) (simp add: remembered_update)

lemma keeps_remembered_listener: "keeps remembered (install_listener w l)"
  unfolding install_listener_def by (intro keeps_in_transition remembered_rules) (simp_all add: remembered_update)

lemma brings_apply_arm: "others_behave w \<Longrightarrow> brings remembered (apply_arm w s b l)"
  unfolding apply_arm_def
  by (intro brings_rules; (rule brings_keeps, intro remembered_rules keeps_remembered_listener; assumption)?)

lemma keeps_remembered_arm_request: "others_behave w \<Longrightarrow> keeps remembered (handle_arm_request w s l)"
proof -
  assume w: "others_behave w"
  have failed: "keeps remembered (sthen (interfere w) (sbind (supervise_arm False) (\<lambda>_. sthen (set_applied_arm False)
      (sthen (interfere w)
        (sbind (sgets is_connected) (\<lambda>c. swhen c (sbind (clock w) (retry_no_output_recovery w))))))))"
    by (intro remembered_rules keeps_remembered_applied w)
  have "wp (sthen (arm_failed w) (sret x)) (\<lambda>_. remembered) (\<lambda>_. remembered) n" for x :: "bool \<times> control_locals" and n
    unfolding arm_failed_def wp_sthen [of _ "sret x"] wp_sret by (rule wp_disarm_then [OF failed])
  then show ?thesis unfolding handle_arm_request_def
    by (intro remembered_rules keeps_remembered_applied keeps_guarded brings_apply_arm w)
qed

lemma keeps_remembered_session: "others_behave w \<Longrightarrow> keeps remembered (session_stage w s d l)"
proof -
  assume w: "others_behave w"
  have yield: "keeps remembered (yield_to_stock w s d l)"
    unfolding yield_to_stock_def store_decision_def
    by (intro remembered_rules brings_keeps w) (simp_all add: remembered_def)
  have take: "keeps remembered (take_over w s r l)" for r
    unfolding take_over_def
    by (intro remembered_rules brings_rules; (rule brings_keeps)?; (intro remembered_rules w)?; simp add: remembered_update)
  show ?thesis unfolding session_stage_def drop_longitudinal_def resume_stage_def
    by (intro remembered_rules yield take w) (simp_all add: remembered_def)
qed

lemma keeps_remembered_clean_up: "others_behave w \<Longrightarrow> keeps remembered (clean_up w s d l)"
  unfolding clean_up_def store_decision_def
  by (intro remembered_rules keeps_remembered_applied) (simp_all add: remembered_update)

lemma keeps_remembered_drive: "others_behave w \<Longrightarrow> keeps remembered (drive w s d l)"
proof -
  assume w: "others_behave w"
  have frames: "keeps remembered (control_frames i s out d)" for i out d
    unfolding control_frames_def cluster_frame_def longitudinal_frames_def
    by (intro keeps_rules keeps_build) (simp_all add: remembered_update)
  show ?thesis
    unfolding drive_def shape_output_def send_control_frames_def beat_def store_decision_def
    by (intro remembered_rules brings_keeps frames keeps_maintain undisturbed_remembered w) (simp_all add: remembered_update)
qed

lemma keeps_remembered_tick: "others_behave w \<Longrightarrow> keeps remembered (control_tick w l)"
  unfolding control_tick_def run_period_def decide_and_act_def take_sample_def note_engage_press_def auto_arm_def
  by (intro remembered_rules keeps_remembered_arm_request keeps_remembered_session keeps_remembered_clean_up
      keeps_remembered_drive) (simp_all add: remembered_update, simp add: remembered_def)

lemma remembered_reconnect:
  "wp (sbind (sgets both_disabled) (\<lambda>b. sthen (smodify (\<lambda>n. n\<lparr>nd_vehicle_safety_mode := False\<rparr>)) (swhen b internal_disarm)))
     (\<lambda>_. remembered) (\<lambda>_ _. True) n"
proof (cases "both_disabled n")
  case True
  then show ?thesis
    by (simp add: wp_rules) (rule wp_mono [OF internal_disarm_remembers], simp_all add: remembered_pending)
next
  case False
  then show ?thesis by (simp add: wp_rules both_disabled_def remembered_def)
qed

lemma brings_on_node: "brings Q m \<Longrightarrow> brings (Q \<circ> fst) (on_node m)"
  unfolding brings_def on_node_def wp_son by simp

lemma brings_reconnect: "brings (remembered \<circ> fst) (reconnect w fuel)"
proof -
  have "brings remembered (sthen (on_panda (connect (w_usb w) fuel)) (sbind (sgets both_disabled) (\<lambda>b.
      sthen (smodify (\<lambda>n. n\<lparr>nd_vehicle_safety_mode := False\<rparr>)) (swhen b internal_disarm))))"
    unfolding brings_def wp_sthen [of "on_panda m" for m]
    by (intro allI impI, rule wp_mono [OF keeps_wp [OF remembered_panda(1)]]) (simp_all add: remembered_reconnect)
  from brings_on_node [OF this] show ?thesis unfolding reconnect_def
    by (rule brings_sthen) (intro brings_keeps keeps_rules keeps_on_node keeps_locals remembered_panda)
qed

lemma keeps_remembered_frame: "keeps remembered (process_frame f)"
proof -
  have "remembered (publish_raw_can g n) = remembered n" for g and n :: "'a node"
    by (simp add: remembered_def publish_raw_can_def)
  moreover have "remembered (observe_control_frame g n)" if "remembered n" for g and n :: "'a node"
    using that by (auto simp: remembered_def observe_control_frame_def note_stock_def deliver_uds_def Let_def)
  ultimately show ?thesis unfolding process_frame_def
    by (intro keeps_rules) (auto simp: remembered_def)
qed

lemma keeps_remembered_receive: "keeps (remembered \<circ> fst) (receive_cycle w fuel)"
proof -
  have frames: "brings (remembered \<circ> fst) (receive_frames w)"
    unfolding receive_frames_def poll_health_def
    by (intro brings_keeps keeps_rules keeps_on_node keeps_locals remembered_panda keeps_remembered_frame)
      (simp_all add: remembered_update)
  have failed: "wp (receive_failed w) (\<lambda>_. remembered \<circ> fst) (\<lambda>_. remembered \<circ> fst) s" for s
  proof -
    have cleared: "wp (on_node (sthen (on_panda (disconnect (w_usb w))) (sthen (smodify (\<lambda>n. n\<lparr>nd_vehicle_safety_mode := False\<rparr>))
        (sthen internal_disarm (smodify (\<lambda>n. n\<lparr>nd_applied_arm := False, nd_latest_health := initial_health\<rparr>))))))
        (\<lambda>_. nd_recovery_pending \<circ> fst) (\<lambda>_. nd_recovery_pending \<circ> fst) s"
      unfolding on_node_def wp_son on_panda_def wp_sthen
      by (rule wp_mono [OF disconnect_releases], unfold wp_smodify, rule wp_mono [OF internal_disarm_remembers]) simp_all
    have rest: "keeps (remembered \<circ> fst) (sbind (on_node (clock w)) (\<lambda>t. set_locals (\<lambda>l. l\<lparr>rl_next_connect_attempt := t + seconds 1\<rparr>)))"
      by (intro keeps_rules keeps_on_node keeps_locals remembered_panda)
    show ?thesis unfolding receive_failed_def wp_sthen [of "on_node m" for m]
      by (rule wp_mono [OF cleared], rule keeps_wp [OF rest]) (simp_all add: remembered_pending)
  qed
  show ?thesis unfolding receive_cycle_def receive_try_def
    by (intro keeps_guarded failed brings_sbind brings_if brings_sthen brings_reconnect frames;
        (rule brings_keeps, intro keeps_rules keeps_on_node remembered_panda)?)
qed

lemma keeps_remembered_shut_down: "others_behave w \<Longrightarrow> keeps remembered (shut_down w)"
  unfolding shut_down_def by (intro remembered_rules) (simp_all add: remembered_def)

lemma remembered_callbacks:
  "remembered (command_callback c t n) = remembered n" "remembered (snd (arm_callback b n)) = remembered n"
  by (simp_all add: remembered_def command_callback_def arm_callback_def Let_def)

section \<open>The node as a state machine\<close>

inductive node_step :: "'d world \<Rightarrow> 'd node \<Rightarrow> 'd node \<Rightarrow> bool" for w where
  control: "node_step w n (snd (control_tick w l n))"
| reception: "node_step w n (fst (snd (receive_cycle w fuel (n, rl))))"
| command: "node_step w n (command_callback c t n)"
| arm: "node_step w n (snd (arm_callback b n))"
| raw: "node_step w n (snd (raw_can_tx_callback w msg n))"
| shutdown: "node_step w n (snd (shut_down w n))"

inductive_cases node_stepE: "node_step w n m"

definition node_start :: "params \<Rightarrow> 'd node \<Rightarrow> bool" where
  "node_start ps n \<longleftrightarrow> (\<exists>d. make_node ps d = Inr n)"

definition node_inv :: "'d world \<Rightarrow> params \<Rightarrow> 'd node \<Rightarrow> bool" where
  "node_inv w ps n \<longleftrightarrow> others_behave w \<longrightarrow> sound (w_libm w) ps n \<and> remembered n"

lemma node_inv_start: "node_start ps n \<Longrightarrow> sound m ps n \<and> remembered n"
proof -
  assume "node_start ps n"
  then obtain d c a s where n: "load_configuration ps = Inr c" "make_adapter (nc_adapter c) = Inr a"
      "make_supervisor (nc_safety c) = Inr s" "nd_config n = c" "nd_adapter n = a" "nd_supervisor n = s"
      "\<not> nd_requested_arm n" "nd_latest_command n = empty_command" "\<not> nd_camera_disabled n" "\<not> nd_radar_disabled n"
    by (auto simp: node_start_def make_node_def ebind_eq_Inr)
  moreover have "\<not> cs_valid empty_command" by (simp add: empty_command_def)
  ultimately show ?thesis
    by (simp add: core_of_def remembered_def) (simp add: reach_init ad_init_def sv_init_def)
qed

lemma node_inv_step:
  assumes "others_behave w" and "node_step w n m" and "sound (w_libm w) ps n" and "remembered n"
  shows "sound (w_libm w) ps m \<and> remembered m"
  using assms(2)
proof cases
  case (control l)
  then show ?thesis
    using keepsD [OF keeps_tick [OF assms(1)] assms(3), of l] keepsD [OF keeps_remembered_tick [OF assms(1)] assms(4), of l] by simp
next
  case (reception fuel rl)
  have "(sound (w_libm w) ps \<circ> fst) (n, rl)" "(remembered \<circ> fst) (n, rl)" using assms by simp_all
  then show ?thesis
    using keepsD [OF keeps_receive_cycle] keepsD [OF keeps_remembered_receive] reception by (metis comp_apply)
next
  case (command c t)
  then show ?thesis using sound_command [OF assms(3)] assms(4) by (simp add: remembered_callbacks)
next
  case (arm b)
  then show ?thesis using sound_arm(1) [OF assms(3)] assms(4) by (simp add: remembered_callbacks)
next
  case (raw msg)
  then show ?thesis using keepsD [OF keeps_raw assms(3)] keepsD [OF keeps_remembered_raw assms(4)] by simp
next
  case shutdown
  then show ?thesis
    using keepsD [OF keeps_shut_down [OF assms(1)] assms(3)] keepsD [OF keeps_remembered_shut_down [OF assms(1)] assms(4)] by simp
qed

interpretation nd: machine_invariant "node_start ps" "node_step w" "node_inv w ps" for ps w
proof
  show "node_start ps n \<Longrightarrow> node_inv w ps n" for n :: "'a node"
    unfolding node_inv_def using node_inv_start by blast
  show "node_inv w ps n \<Longrightarrow> node_step w n m \<Longrightarrow> node_inv w ps m" for n m :: "'a node"
    unfolding node_inv_def using node_inv_step by blast
qed

text \<open>C5: what holds of the node forever. In every state the two threads, the callbacks and the
  destructor can reach from a constructed node, in any order and with any adapter, ECUs and
  timing: an ECU that is silenced is never forgotten, that is, the vehicle mode is on or a
  restoration is pending; an arm request stands only where the configuration allows actuation; an
  accepted command is finite; the last torque of the adapter is within the configured bound; and a
  supervisor in its fault state holds no arm request.\<close>

theorem node_invariant:
  assumes "others_behave w" and "reach (node_start ps) (node_step w) n"
  shows "(nd_camera_disabled n \<or> nd_radar_disabled n \<longrightarrow> nd_vehicle_safety_mode n \<or> nd_recovery_pending n) \<and>
    load_configuration ps = Inr (nd_config n) \<and>
    (nd_requested_arm n \<longrightarrow> sc_allow_actuation (nc_safety (nd_config n))) \<and>
    (cs_valid (nd_latest_command n) \<longrightarrow>
      isfinite (cs_lateral (nd_latest_command n)) \<and> isfinite (cs_acceleration_mps2 (nd_latest_command n))) \<and>
    \<bar>ad_last_torque (nd_adapter n)\<bar> \<le> ac_max_torque (nc_adapter (nd_config n)) \<and>
    (sv_state (nd_supervisor n) = Fault \<longrightarrow> \<not> sv_arm_requested (nd_supervisor n))"
proof -
  have inv: "sound (w_libm w) ps n" "remembered n"
    using nd.reachable_inv [OF assms(2)] assms(1) by (simp_all add: node_inv_def)
  then have "ad_inv (nc_adapter (nd_config n)) (nd_adapter n)" "sv_inv (nc_safety (nd_config n)) (nd_supervisor n)"
    by (auto simp: core_of_def intro: ad.reachable_inv sv.reachable_inv)
  with inv show ?thesis by (simp add: core_of_def remembered_def ad_inv_def sv_inv_def)
qed

definition first_tick :: "demo node" where
  "first_tick = snd (control_tick demo_world (start_control demo_config 0 0) demo_node)"

theorem node_invariant_witness:
  "\<not> (nd_camera_disabled first_tick \<and> \<not> nd_vehicle_safety_mode first_tick \<and> \<not> nd_recovery_pending first_tick) \<and>
   load_configuration demo_params = Inr (nd_config first_tick)"
proof -
  have start: "node_start demo_params demo_node" unfolding node_start_def using make_demo by blast
  have step: "node_step demo_world demo_node first_tick" unfolding first_tick_def by (rule node_step.control)
  have "reach (node_start demo_params) (node_step demo_world) first_tick"
    by (rule reach_step [where s = demo_node]) (rule reach_init [where s = demo_node], rule start, rule step)
  from node_invariant [OF demo_others this] show ?thesis by blast
qed

end
