(* ===== verification/Loop_Properties.thy ===== *)
theory Loop_Properties
  imports Node_Invariant Wait_Properties
begin

text \<open>
  What the two loops and the destructor guarantee: the frames of a period follow the supervisor's
  decision down to the bits on the wire; an iteration of the control loop never ends the thread;
  a receive error and the shutdown leave the node disarmed and disconnected.
\<close>

section \<open>From the decision to the wire\<close>

lemma adapt_torque:
  "wp (adapt w c s lat long) (\<lambda>out _. lat \<or> co_steering_torque out = 0) (\<lambda>_ _. True) n"
proof (cases "admissible (sm_dt s) c \<and> \<not> lat")
  case True
  then show ?thesis by (simp add: adapt_def wp_def update_paused)
next
  case False
  moreover have "\<exists>e. fst (update_adapter (w_libm w) (nc_adapter (nd_config n)) c (sm_vehicle s) (sm_dt s) lat long (nd_adapter n)) = Inl e"
    if "\<not> admissible (sm_dt s) c"
    using update_inadmissible [OF that] by metis
  ultimately show ?thesis by (auto simp: adapt_def wp_def split: prod.split sum.split)
qed

lemma shape_decision:
  "wp (shape_output w s d) (\<lambda>(out, d') _. (sd_lateral_allowed d' \<longrightarrow> sd_lateral_allowed d) \<and>
     (sd_longitudinal_allowed d' \<longrightarrow> sd_longitudinal_allowed d) \<and>
     (\<not> sd_lateral_allowed d' \<longrightarrow> co_steering_torque out = 0)) (\<lambda>_ _. True) n"
  unfolding shape_output_def wp_sbind wp_scatch wp_sret
  by (rule wp_mono [OF adapt_torque])
    (auto simp: wp_rules intro!: wp_mono [OF wp_True, where m = internal_disarm] wp_mono [OF adapt_torque])

lemma wp_build: "wp (build b) Q E n = (case b (nd_codec n) of Inl e \<Rightarrow> E e n | Inr (f, c) \<Rightarrow> Q f (n\<lparr>nd_codec := c\<rparr>))"
  by (simp add: build_def wp_rules split: sum.split prod.split)

definition idle_scc :: "can_frame \<Rightarrow> bool" where
  "idle_scc f \<longleftrightarrow> get_signal (payload f) 68 3 LittleEndian = Inr 0 \<and>
     get_signal (payload f) 128 11 LittleEndian = Inr 1023 \<and> get_signal (payload f) 140 11 LittleEndian = Inr 1023"

text \<open>What every frame of a period is: sealed, on the E-CAN bus, at one of the four addresses, and
  without a longitudinal demand where that is not allowed.\<close>

definition decent :: "u8 \<Rightarrow> bool \<Rightarrow> can_frame \<Rightarrow> bool" where
  "decent bus longitudinal f \<longleftrightarrow> checksum_valid f \<and> cf_bus f = bus \<and>
     cf_address f \<in> {kLfaAddress, kLfaClusterAddress, kSccControlAddress, kFcaWarningAddress} \<and>
     (cf_address f = kSccControlAddress \<and> \<not> longitudinal \<longrightarrow> idle_scc f)"

lemmas address_defs = kLfaAddress_def kLfaClusterAddress_def kSccControlAddress_def kFcaWarningAddress_def

lemma decent_cluster: "make_lfa_cluster c e bus = Inr (f, c') \<Longrightarrow> decent bus b f \<and> wf_codec c' = wf_codec c"
proof -
  assume m: "make_lfa_cluster c e bus = Inr (f, c')"
  obtain d g where d: "set_signals (replicate 16 0) (cluster_fields (cd_cluster_counter c) e) = Inr d"
    and g: "seal_frame kLfaClusterAddress bus d = Inr g"
    and eq: "make_lfa_cluster c e bus = Inr (g, c\<lparr>cd_cluster_counter := cd_cluster_counter c + 1\<rparr>)"
    using make_lfa_cluster_ok by blast
  have "length d = 16" using length_set_signals [OF _ d] by simp
  with m eq g show ?thesis using hy.seal_valid [OF _ g] hy.seal_header [OF _ g]
    by (auto simp: decent_def wf_codec_def address_defs)
qed

lemma decent_fca: "make_fca_warning c bus = Inr (f, c') \<Longrightarrow> decent bus b f \<and> wf_codec c' = wf_codec c"
proof -
  assume m: "make_fca_warning c bus = Inr (f, c')"
  obtain d g where d: "set_signals (replicate 16 0) (fca_fields (cd_fca_warning_counter c)) = Inr d"
    and g: "seal_frame kFcaWarningAddress bus d = Inr g"
    and eq: "make_fca_warning c bus = Inr (g, c\<lparr>cd_fca_warning_counter := cd_fca_warning_counter c + 1\<rparr>)"
    using make_fca_warning_ok by blast
  have "length d = 16" using length_set_signals [OF _ d] by simp
  with m eq g show ?thesis using hy.seal_valid [OF _ g] hy.seal_header [OF _ g]
    by (auto simp: decent_def wf_codec_def address_defs)
qed

lemma decent_scc:
  assumes "make_scc_control c (if b then t else lit 0) (if b then t else lit 0) b st g speed jerk bus = Inr (f, c')" and "wf_codec c"
  shows "decent bus b f \<and> wf_codec c'"
proof (cases b)
  case False
  then have m: "make_scc_control c (lit 0) (lit 0) False st g speed jerk bus = Inr (f, c')" using assms(1) by simp
  have "wf_codec c'" using m assms(2) by (auto simp: make_scc_control_def ebind_eq_Inr wf_codec_def Let_def split: if_splits)
  with scc_idle_on_wire [OF m assms(2)] False show ?thesis by (simp add: decent_def idle_scc_def)
next
  case True
  then have "isfinite t" "isfinite speed" "isfinite jerk"
    using assms(1) by (auto simp: make_scc_control_def split: if_splits)
  then obtain sp vr rr ju jl d g' where d: "set_signals (scc_base c) (scc_fields (cd_scc_counter c) b st g sp vr rr ju jl) = Inr d"
    and g': "seal_frame kSccControlAddress bus d = Inr g'"
    and eq: "make_scc_control c t t b st g speed jerk bus = Inr (g', c\<lparr>cd_scc_counter := cd_scc_counter c + 1\<rparr>)"
    using make_scc_control_ok [of t t speed jerk c b st g bus] assms(2) by auto
  have "length d = 32" using length_set_signals [OF _ d] assms(2) by (simp add: scc_base_def wf_codec_def)
  with assms eq g' True show ?thesis using hy.seal_valid [OF _ g'] hy.seal_header [OF _ g']
    by (simp add: decent_def wf_codec_def)
qed

lemma wp_cluster_frame:
  assumes "wf_codec (nd_codec n)"
  shows "wp (cluster_frame index d) (\<lambda>fs m. list_all (decent (nc_ecan_bus (nd_config n)) b) fs \<and>
    wf_codec (nd_codec m) \<and> nd_config m = nd_config n) (\<lambda>_ _. True) n"
  using assms by (auto simp: cluster_frame_def wp_rules wp_build dest: decent_cluster [where b = b] split: sum.split)

lemma wp_two_frames:
  assumes "\<And>f c. b (nd_codec n) = Inr (f, c) \<Longrightarrow> P f \<and> wf_codec c" and "\<And>k f c. b' k = Inr (f, c) \<Longrightarrow> P f"
  shows "wp (sbind (build b) (\<lambda>f. sbind (build b') (\<lambda>g. sret [f, g]))) (\<lambda>fs _. list_all P fs) (\<lambda>_ _. True) n"
  using assms by (auto simp: wp_rules wp_build split: sum.split)

lemma wp_longitudinal_frames:
  assumes "wf_codec (nd_codec n)"
  shows "wp (longitudinal_frames index s out d)
    (\<lambda>fs _. list_all (decent (nc_ecan_bus (nd_config n)) (sd_longitudinal_allowed d)) fs) (\<lambda>_ _. True) n"
  unfolding longitudinal_frames_def wp_sbind [of "sgets id"] wp_sgets Let_def wp_if wp_sret wp_sthrow id_apply
proof (intro if_bool_eq_conj [THEN iffD2] conjI impI wp_two_frames)
  show "decent bus (sd_longitudinal_allowed d) f" if "make_fca_warning k bus = Inr (f, c)" for bus k f c
    using decent_fca [OF that] by blast
qed (use assms in \<open>auto dest: decent_scc\<close>)

lemma wp_control_frames:
  assumes "wf_codec (nd_codec n)"
  shows "wp (control_frames index s out d) (\<lambda>fs _. \<exists>lfa rest w. fs = lfa # rest \<and> cf_address lfa = kLfaAddress \<and>
      list_all (decent (nc_ecan_bus (nd_config n)) (sd_longitudinal_allowed d)) fs \<and>
      get_signal (payload lfa) 41 11 LittleEndian = Inr w \<and>
      uint w - 1024 = cclamp (co_steering_torque out) (- 1021) 1021 \<and>
      get_signal (payload lfa) 38 3 LittleEndian = Inr (if sd_lateral_allowed d then 2 else 1))
    (\<lambda>_ _. True) n"
proof -
  let ?bus = "nc_ecan_bus (nd_config n)" and ?b = "sd_longitudinal_allowed d"
  obtain lfa w where lfa: "make_lfa (nd_codec n) (co_steering_torque out) (sd_lateral_allowed d) (co_steering_request out) ?bus =
      Inr (lfa, (nd_codec n)\<lparr>cd_lfa_counter := cd_lfa_counter (nd_codec n) + 1\<rparr>)" "checksum_valid lfa"
    "cf_address lfa = kLfaAddress" "cf_bus lfa = ?bus" "get_signal (payload lfa) 41 11 LittleEndian = Inr w"
    "uint w - 1024 = cclamp (co_steering_torque out) (- 1021) 1021"
    "get_signal (payload lfa) 38 3 LittleEndian = Inr (if sd_lateral_allowed d then 2 else 1)"
    using lfa_on_wire by blast
  have decent: "decent ?bus ?b lfa" using lfa by (simp add: decent_def address_defs)
  let ?m = "n\<lparr>nd_codec := (nd_codec n)\<lparr>cd_lfa_counter := cd_lfa_counter (nd_codec n) + 1\<rparr>\<rparr>"
  have "wf_codec (nd_codec ?m)" using assms by (simp add: wf_codec_def)
  from wp_cluster_frame [OF this, where b = ?b]
  have rest: "wp (cluster_frame index d) (\<lambda>cluster. wp (longitudinal_frames index s out d)
      (\<lambda>long _. list_all (decent ?bus ?b) (cluster @ long)) (\<lambda>_ _. True)) (\<lambda>_ _. True) ?m"
    by (rule wp_mono) (auto intro!: wp_mono [OF wp_longitudinal_frames])
  show ?thesis unfolding control_frames_def wp_sbind wp_sgets wp_build lfa(1) wp_sret
    using wp_mono [OF rest] lfa decent by (auto elim!: wp_mono)
qed

text \<open>C4: the frames of a period follow the supervisor's decision down to the bits. Whatever command was
  given, every frame is sealed, on the E-CAN bus and at one of the four control addresses; the first
  is the steering frame, whose torque never leaves \<open>[-1021, 1021]\<close>; where the decision does not allow
  lateral control, its torque is zero and its mode passive; where it does not allow longitudinal
  control, an \<open>SCC_CONTROL\<close> frame is in mode 0 and asks for exactly 0.00 m/s2. If the command could not
  be represented, this holds of the decision the node falls back to.\<close>

theorem control_frames_follow_decision:
  assumes "shape_output w s d n0 = (Inr (out, d'), n)" and "wf_codec (nd_codec n)"
    and "control_frames index s out d' n = (Inr fs, m)"
  shows "(sd_lateral_allowed d' \<longrightarrow> sd_lateral_allowed d) \<and> (sd_longitudinal_allowed d' \<longrightarrow> sd_longitudinal_allowed d) \<and>
    (\<exists>lfa rest v. fs = lfa # rest \<and> cf_address lfa = kLfaAddress \<and>
      get_signal (payload lfa) 41 11 LittleEndian = Inr v \<and> \<bar>uint v - 1024\<bar> \<le> 1021 \<and>
      (\<not> sd_lateral_allowed d' \<longrightarrow> uint v = 1024 \<and> get_signal (payload lfa) 38 3 LittleEndian = Inr 1)) \<and>
    (\<forall>f\<in>set fs. checksum_valid f \<and> cf_bus f = nc_ecan_bus (nd_config n) \<and>
      cf_address f \<in> {kLfaAddress, kLfaClusterAddress, kSccControlAddress, kFcaWarningAddress} \<and>
      (cf_address f = kSccControlAddress \<and> \<not> sd_longitudinal_allowed d' \<longrightarrow>
        get_signal (payload f) 68 3 LittleEndian = Inr 0 \<and>
        get_signal (payload f) 128 11 LittleEndian = Inr 1023 \<and> get_signal (payload f) 140 11 LittleEndian = Inr 1023))"
proof -
  have shape: "(sd_lateral_allowed d' \<longrightarrow> sd_lateral_allowed d) \<and> (sd_longitudinal_allowed d' \<longrightarrow> sd_longitudinal_allowed d)"
    "\<not> sd_lateral_allowed d' \<Longrightarrow> co_steering_torque out = 0"
    using wp_Inr [OF assms(1) shape_decision] by auto
  from wp_Inr [OF assms(3) wp_control_frames [OF assms(2)]] obtain lfa rest v where
    f: "fs = lfa # rest" "cf_address lfa = kLfaAddress" "list_all (decent (nc_ecan_bus (nd_config n)) (sd_longitudinal_allowed d')) fs"
    "get_signal (payload lfa) 41 11 LittleEndian = Inr v" "uint v - 1024 = cclamp (co_steering_torque out) (- 1021) 1021"
    "get_signal (payload lfa) 38 3 LittleEndian = Inr (if sd_lateral_allowed d' then 2 else 1)" by blast
  have "\<bar>uint v - 1024\<bar> \<le> 1021" unfolding f(5) by (simp add: cclamp_def abs_le_iff)
  moreover have "uint v = 1024" if "\<not> sd_lateral_allowed d'" using f(5) shape(2) [OF that] by (simp add: cclamp_def)
  ultimately have lfa: "\<exists>lfa rest v. fs = lfa # rest \<and> cf_address lfa = kLfaAddress \<and>
      get_signal (payload lfa) 41 11 LittleEndian = Inr v \<and> \<bar>uint v - 1024\<bar> \<le> 1021 \<and>
      (\<not> sd_lateral_allowed d' \<longrightarrow> uint v = 1024 \<and> get_signal (payload lfa) 38 3 LittleEndian = Inr 1)"
    using f by auto
  have "\<forall>f\<in>set fs. decent (nc_ecan_bus (nd_config n)) (sd_longitudinal_allowed d') f" using f(3) by (simp add: list_all_iff)
  with shape(1) lfa show ?thesis unfolding decent_def idle_scc_def by blast
qed

section \<open>An iteration of the control loop returns\<close>

text \<open>A period of at least a nanosecond and less than 292 years is a positive finite double.\<close>

lemma sampled_period:
  assumes "0 < k" and "k < 2 ^ 63"
  shows "isfinite (of_integer k / lit 1000000000) \<and> \<not> of_integer k / lit 1000000000 \<le> lit 0"
proof -
  have "rval (of_int 1) \<le> rval (of_int k)" using assms(1) by (intro rval_mono) simp
  then have low: "1 \<le> rval (of_int k)" using rval_of_int [of 1] by simp
  have "\<bar>of_int k :: rat\<bar> \<le> 2 ^ 63"
  proof -
    have "(of_int k :: rat) \<le> of_int (2 ^ 63)" unfolding of_int_le_iff using assms(2) by simp
    then show ?thesis using assms(1) by simp
  qed
  from rnd_bounded [OF this] have r: "rnd (of_int k) = Fin (rval (of_int k))" "\<bar>rval (of_int k)\<bar> \<le> 2 ^ 63" by simp_all
  let ?q = "rval (of_int k) / 1000000000"
  have e: "lit 1000000000 = Fin 1000000000" using rnd_of_int [of 1000000000] by simp
  have "\<bar>?q\<bar> \<le> 2 ^ 63" using r(2) low by simp
  from rnd_bounded [OF this] have q: "rnd ?q = Fin (rval ?q)" by simp
  have "rval (1 / 1000000000) \<le> rval ?q" using low by (intro rval_mono) simp
  moreover have "(0::rat) < rval (1 / 1000000000)"
    using rnd_Fin [of "1 / 1000000000" "rval (1 / 1000000000)"] by (simp add: float_eval)
  ultimately have "0 < rval ?q" by simp
  then show ?thesis using q r(1) by (simp add: of_integer_def e)
qed

text \<open>Actions that never throw.\<close>

definition quiet :: "('s, 'a) action \<Rightarrow> bool" where
  "quiet m \<longleftrightarrow> (\<forall>s. wp m (\<lambda>_ _. True) (\<lambda>_ _. False) s)"

lemma quietD: "quiet m \<Longrightarrow> is_Inr (fst (m s))"
  by (cases "m s"; cases "fst (m s)") (auto simp: quiet_def wp_def dest: spec [of _ s])

named_theorems quiet_rules \<open>actions that never throw\<close>

lemma quiet_simple [quiet_rules]: "quiet (sret x)" "quiet (sgets f)" "quiet (smodify g)"
  by (simp_all add: quiet_def wp_rules)

lemma quiet_sbind [quiet_rules]: "quiet m \<Longrightarrow> (\<And>x. quiet (f x)) \<Longrightarrow> quiet (sbind m f)"
  unfolding quiet_def wp_rules by (blast intro: wp_mono)

lemma quiet_sthen [quiet_rules]: "quiet m \<Longrightarrow> quiet k \<Longrightarrow> quiet (sthen m k)"
  unfolding sthen_def by (rule quiet_sbind)

lemma quiet_scatch [quiet_rules]: "(\<And>e. quiet (h e)) \<Longrightarrow> quiet (scatch m h)"
  unfolding quiet_def wp_rules by (blast intro: wp_mono wp_True)

lemma quiet_swhen [quiet_rules]: "quiet m \<Longrightarrow> quiet (swhen b m)"
  by (simp add: swhen_def quiet_simple)

lemma quiet_if [quiet_rules]: "(b \<Longrightarrow> quiet m) \<Longrightarrow> (\<not> b \<Longrightarrow> quiet k) \<Longrightarrow> quiet (if b then m else k)"
  by simp

lemma quiet_cases [quiet_rules]:
  "(x = None \<Longrightarrow> quiet m) \<Longrightarrow> (\<And>y. x = Some y \<Longrightarrow> quiet (k y)) \<Longrightarrow> quiet (case x of None \<Rightarrow> m | Some y \<Rightarrow> k y)"
  "(\<And>a b. p = (a, b) \<Longrightarrow> quiet (g a b)) \<Longrightarrow> quiet (case p of (a, b) \<Rightarrow> g a b)"
  "quiet (f v) \<Longrightarrow> quiet (Let v f)"
  by (simp_all split: option.split prod.split)

lemma quiet_clock [quiet_rules]: "quiet (clock w)"
  by (simp add: quiet_def wp_clock)

lemma quiet_interfere [quiet_rules]: "quiet (interfere w)"
  by (simp add: quiet_def interfere_def wp_rules)

lemma quiet_parts [quiet_rules]:
  "quiet internal_disarm" "quiet (request_internal_disarm b)" "quiet (supervise_arm b)" "quiet (supervise s)"
  "quiet (set_applied_arm b)" "quiet (store_decision d)" "quiet (restart_period w l)" "quiet (log_and_disarm m)"
  "quiet (retry_no_output_recovery w now)" "quiet (arm_failed w)"
proof -
  show disarm: "quiet internal_disarm" and request: "quiet (request_internal_disarm b)"
    by (simp_all add: quiet_def wp_def internal_disarm_def request_internal_disarm_def sthen_def sbind_def sret_def Let_def)
  show arm: "quiet (supervise_arm b)" "quiet (supervise s)" for b
    by (simp_all add: quiet_def wp_def supervise_arm_def supervise_def split: prod.split)
  show applied: "quiet (set_applied_arm b)" for b
    unfolding set_applied_arm_def by (intro quiet_rules)
  show "quiet (store_decision d)" "quiet (restart_period w l)" "quiet (log_and_disarm m)"
    unfolding store_decision_def restart_period_def log_and_disarm_def by (intro quiet_rules disarm)+
  show retry: "quiet (retry_no_output_recovery w now)" for now
    unfolding retry_no_output_recovery_def by (intro quiet_rules)
  show "quiet (arm_failed w)"
    unfolding arm_failed_def by (intro quiet_rules disarm arm applied retry)
qed

lemma quiet_stages [quiet_rules]:
  "quiet (take_sample w now previous)" "quiet (note_engage_press w v)" "quiet (auto_arm w s)"
  "quiet (handle_arm_request w s l)" "quiet (session_stage w s d l)" "quiet (clean_up w s d l)"
  "quiet (send_control_frames w i s out d)" "quiet (beat w d l)"
  unfolding take_sample_def note_engage_press_def auto_arm_def handle_arm_request_def session_stage_def
    drop_longitudinal_def resume_stage_def yield_to_stock_def take_over_def clean_up_def send_control_frames_def beat_def
  by (intro quiet_rules)+

lemma quiet_drive:
  assumes "isfinite (sm_dt s)" and "\<not> sm_dt s \<le> lit 0"
  shows "quiet (drive w s d l)"
proof -
  have "quiet (adapt w empty_command s False False)"
    using assms by (simp add: quiet_def wp_def adapt_def update_paused admissible_def empty_command_def)
  then show ?thesis unfolding drive_def shape_output_def by (intro quiet_rules)
qed

lemma drive_fails:
  assumes "sm_dt s \<le> lit 0"
  shows "\<not> is_Inr (fst (drive w s d l n))"
proof -
  have fails: "wp (adapt w c s a b) (\<lambda>_ _. False) (\<lambda>_ _. True) m" for c a b m
  proof -
    have "\<not> admissible (sm_dt s) c" using assms by (simp add: admissible_def)
    from update_inadmissible [OF this] obtain e where
      "fst (update_adapter (w_libm w) (nc_adapter (nd_config m)) c (sm_vehicle s) (sm_dt s) a b (nd_adapter m)) = Inl e" by metis
    then show ?thesis by (auto simp: wp_def adapt_def split: prod.splits sum.splits)
  qed
  have "wp (drive w s d l) (\<lambda>_ _. False) (\<lambda>_ _. True) n"
    unfolding drive_def shape_output_def wp_sbind wp_scatch wp_sret wp_sthen
    by (rule wp_mono [OF fails]) (auto intro!: wp_mono [OF wp_True, where m = internal_disarm] wp_mono [OF fails] simp: wp_rules)
  then show ?thesis by (cases "drive w s d l n"; cases "fst (drive w s d l n)") (auto simp: wp_def)
qed

text \<open>An iteration is one function for all numbers of iterations its waits may have.\<close>

lemma granted_fields: "w_usb (granted w b) = w_usb w" "w_libm (granted w b) = w_libm w"
  by simp_all

lemma unbounded_parts [simp]:
  "restart_period (granted w b) = restart_period w" "note_engage_press (granted w b) = note_engage_press w"
  "auto_arm (granted w b) = auto_arm w" "install_listener (granted w b) = install_listener w"
  "drop_longitudinal (granted w b) = drop_longitudinal w" "adapt (granted w b) = adapt w"
  "send_control_frames (granted w b) = send_control_frames w" "beat (granted w b) = beat w"
  unfolding restart_period_def note_engage_press_def auto_arm_def install_listener_def
    drop_longitudinal_def adapt_def send_control_frames_def beat_def unbounded_steps unbounded_maintenance granted_fields
  by (rule refl)+

lemma same_period:
  assumes "steady w time" and "101 \<le> b"
  shows "run_period (granted w b) s l = run_period (granted w 101) s l"
proof -
  have arm: "handle_arm_request (granted w b) s l = handle_arm_request (granted w 101) s l"
    unfolding handle_arm_request_def apply_arm_def arm_failed_def unbounded_steps unbounded_parts same_modes [OF assms] ..
  have drive: "drive (granted w b) s d l = drive (granted w 101) s d l" for d l
    unfolding drive_def shape_output_def unbounded_steps unbounded_parts ..
  have session: "session_stage (granted w b) s d l = session_stage (granted w 101) s d l" for d l
    unfolding session_stage_def resume_stage_def take_over_def yield_to_stock_def unbounded_steps unbounded_parts
      same_modes [OF assms] ..
  have clean: "clean_up (granted w b) s d l = clean_up (granted w 101) s d l" for d l
    unfolding clean_up_def unbounded_steps unbounded_parts same_modes [OF assms] ..
  show ?thesis unfolding run_period_def decide_and_act_def unbounded_steps unbounded_parts arm drive session clean ..
qed

text \<open>C22: nothing ends the control thread, and nothing holds it, while time moves on. Where time does not
  run backwards and a wait takes at least as long as it should, the recovery attempt at the start of
  an iteration returns, and so does the rest of the iteration, whatever the adapter, the ECUs, the
  driver and the command do, as long as the clock has advanced (by less than 292 years) since the
  previous iteration. They return one and the same result for every number from 101 on that bounds
  the waiting loops, so none of these loops is cut short, and none runs on. The clock is the one
  thing an iteration depends on: with no advance, the fallback update of the adapter, which stands
  outside of every \<open>try\<close>, throws out of the thread.\<close>

theorem control_loop_survives:
  assumes "steady w time" and "previous < now" and "now - previous < 2 ^ 63"
  shows "(\<exists>m. \<forall>b\<ge>101. retry_no_output_recovery (w\<lparr>w_budget := b\<rparr>) t n = (Inr (), m)) \<and>
    (\<exists>l' m. \<forall>b\<ge>101. run_period (w\<lparr>w_budget := b\<rparr>) (make_sample now previous c h v) l n = (Inr l', m)) \<and>
    \<not> is_Inr (fst (drive w (make_sample now now c h v) d l n))"
proof -
  let ?w = "granted w 101" and ?s = "make_sample now previous c h v"
  have "quiet (drive ?w ?s d l)" for d l
    using sampled_period [of "now - previous"] assms(2,3) by (intro quiet_drive) (simp_all add: make_sample_def)
  then have "quiet (run_period ?w ?s l)"
    unfolding run_period_def decide_and_act_def by (intro quiet_rules)
  from quietD [OF this, of n] obtain l' m where period: "run_period ?w ?s l n = (Inr l', m)"
    by (cases "run_period ?w ?s l n") (auto simp: is_Inr_iff)
  obtain k where retry: "retry_no_output_recovery ?w t n = (Inr (), k)"
    using quietD [OF quiet_parts(9), of ?w t n] by (cases "retry_no_output_recovery ?w t n") (auto simp: is_Inr_iff)
  have "sm_dt (make_sample now now c h v) \<le> lit 0"
    using rnd_of_int [of 1000000000] by (simp add: make_sample_def of_integer_def)
  from drive_fails [OF this]
  have fails: "\<not> is_Inr (fst (drive w (make_sample now now c h v) d l n))" .
  show ?thesis
  proof (intro conjI exI allI impI)
    fix b :: nat assume b: "101 \<le> b"
    show "retry_no_output_recovery (granted w b) t n = (Inr (), k)" unfolding same_modes(3) [OF assms(1) b] by (rule retry)
    show "run_period (granted w b) ?s l n = (Inr l', m)" unfolding same_period [OF assms(1) b] by (rule period)
  qed (rule fails)
qed

theorem control_loop_survives_witness:
  "(\<exists>m. \<forall>b\<ge>101. retry_no_output_recovery (demo_world\<lparr>w_budget := b\<rparr>) 0 demo_node = (Inr (), m)) \<and>
   (\<exists>l m. \<forall>b\<ge>101. run_period (demo_world\<lparr>w_budget := b\<rparr>)
      (make_sample 10000000 0 empty_command initial_health initial_vehicle) (start_control demo_config 0 0) demo_node = (Inr l, m)) \<and>
   \<not> is_Inr (fst (drive demo_world (make_sample 10000000 10000000 empty_command initial_health initial_vehicle) initial_decision (start_control demo_config 0 0) demo_node))"
  by (rule control_loop_survives [OF demo_steady]) simp_all

text \<open>The frames of a period without the slower messages always exist.\<close>

definition demo_sample :: sample where
  "demo_sample = make_sample 10000000 0 empty_command initial_health initial_vehicle"

lemma demo_shaped:
  obtains out d' n where "shape_output demo_world demo_sample initial_decision demo_node = (Inr (out, d'), n)"
    "nd_codec n = initial_codec"
proof -
  have dt: "isfinite (sm_dt demo_sample)" "\<not> sm_dt demo_sample \<le> lit 0"
    using sampled_period [of 10000000] by (simp_all add: demo_sample_def make_sample_def)
  have "quiet (adapt demo_world empty_command demo_sample False False :: (demo node, control_output) action)"
    using dt by (simp add: quiet_def wp_def adapt_def update_paused admissible_def empty_command_def)
  then have "quiet (shape_output demo_world demo_sample initial_decision :: (demo node, control_output \<times> safety_decision) action)"
    unfolding shape_output_def by (intro quiet_rules)
  from quietD [OF this, of demo_node] obtain out d' n where
    r: "shape_output demo_world demo_sample initial_decision demo_node = (Inr (out, d'), n)"
    by (cases "shape_output demo_world demo_sample initial_decision demo_node") (auto simp: is_Inr_iff)
  have adapt: "keeps (\<lambda>n. nd_codec n = initial_codec) (adapt demo_world c demo_sample a b)" for c a b
    by (simp add: keeps_def wp_def adapt_def split: prod.split sum.split)
  have "keeps (\<lambda>n. nd_codec n = initial_codec) (internal_disarm :: (demo node, unit) action)"
    by (simp add: keeps_def wp_def internal_disarm_def request_internal_disarm_def sthen_def sbind_def sret_def Let_def)
  with adapt have "keeps (\<lambda>n. nd_codec n = initial_codec) (shape_output demo_world demo_sample initial_decision)"
    unfolding shape_output_def by (intro keeps_rules)
  from keepsD [OF this, of demo_node] r have "nd_codec n = initial_codec" by (simp add: demo_fields)
  with r that show ?thesis by blast
qed

lemma demo_framed:
  assumes "nd_codec n = initial_codec"
  obtains fs m where "control_frames 1 s out d n = (Inr fs, m)"
proof -
  obtain lfa where "make_lfa (nd_codec n) (co_steering_torque out) (sd_lateral_allowed d) (co_steering_request out) (nc_ecan_bus (nd_config n)) =
      Inr (lfa, (nd_codec n)\<lparr>cd_lfa_counter := cd_lfa_counter (nd_codec n) + 1\<rparr>)"
    using lfa_on_wire by blast
  then show ?thesis
    by (intro that) (simp add: control_frames_def cluster_frame_def longitudinal_frames_def build_def
      sbind_def sthen_def smodify_def sgets_def sret_def Let_def)
qed

theorem control_frames_follow_decision_witness:
  "\<exists>out d' n fs m rest lfa. shape_output demo_world demo_sample initial_decision demo_node = (Inr (out, d'), n) \<and>
     control_frames 1 demo_sample out d' n = (Inr fs, m) \<and>
     \<not> sd_lateral_allowed d' \<and> fs = lfa # rest \<and> get_signal (payload lfa) 41 11 LittleEndian = Inr 1024"
proof -
  obtain out d' n where r: "shape_output demo_world demo_sample initial_decision demo_node = (Inr (out, d'), n)"
    and c: "nd_codec n = initial_codec" by (rule demo_shaped)
  obtain fs m where f: "control_frames 1 demo_sample out d' n = (Inr fs, m)" by (rule demo_framed [OF c])
  have "wf_codec (nd_codec n)" using c by (simp add: wf_codec_def initial_codec_def)
  from control_frames_follow_decision [OF r this f] have "\<not> sd_lateral_allowed d'"
    and "\<exists>lfa rest v. fs = lfa # rest \<and> get_signal (payload lfa) 41 11 LittleEndian = Inr v \<and> uint v = 1024"
    by (auto simp: initial_decision_def)
  moreover have "v = 1024" if "uint v = 1024" for v :: u64 using that by (simp add: word_uint_eq_iff)
  ultimately show ?thesis using r f by blast
qed

section \<open>Losing the Panda, and shutting down\<close>

definition lost :: "'d node \<Rightarrow> 'd node \<Rightarrow> bool" where
  "lost n m \<longleftrightarrow> released (nd_panda m) \<and> \<not> nd_vehicle_safety_mode m \<and> \<not> nd_requested_arm m \<and> \<not> nd_applied_arm m \<and>
     nd_recovery_pending m \<and> nd_latest_health m = initial_health \<and>
     (nd_requested_arm n \<or> nd_applied_arm n \<longrightarrow> nd_recovery_rearm_required m \<and> nd_auto_arm_inhibited m)"

lemma wp_disconnecting:
  "wp (on_panda (disconnect (w_usb w))) (\<lambda>_ m. released (nd_panda m) \<and> (\<exists>p. m = n\<lparr>nd_panda := p\<rparr>)) (\<lambda>_ _. False) n"
  unfolding on_panda_def wp_son by (rule wp_mono [OF disconnect_releases]) auto

lemma wp_internal_disarm: "wp internal_disarm Q E n = Q () (snd (request_internal_disarm True n))"
  by (simp add: wp_def internal_disarm_def request_internal_disarm_def sthen_def sbind_def sret_def Let_def)

lemma wp_receive_failed: "wp (receive_failed w) (\<lambda>_ t. lost (fst s) (fst t)) (\<lambda>_ _. False) s"
proof -
  have released: "released (q\<lparr>pu_device := x\<rparr>) = released q" for q :: "'d panda" and x
    by (simp add: released_def)
  show ?thesis
    unfolding receive_failed_def on_node_def set_locals_def wp_sthen wp_son wp_sbind wp_smodify wp_internal_disarm
    by (rule wp_mono [OF wp_disconnecting])
      (auto simp: request_internal_disarm_def lost_def released Let_def clock_def on_panda_def wp_rules wp_usb_call
        split: prod.split)
qed

text \<open>C20: whatever goes wrong while the node receives, reconnects or polls the health report, the receive
  thread goes on, and the node ends disarmed. If nothing was thrown, the iteration is what it did. If
  something was, the driver is released, the vehicle mode and both arm flags are off, the recovery is
  pending, the health report is the initial one (so that the supervisor sees no connected Panda), and
  if the node was armed or asked to be, only the operator can arm it again.\<close>

theorem receive_error_disarms:
  "case receive_try w fuel s of
     (Inr u, t) \<Rightarrow> receive_cycle w fuel s = (Inr u, t)
   | (Inl e, (n, l)) \<Rightarrow> \<exists>m l'. receive_cycle w fuel s = (Inr (), (m, l')) \<and> released (nd_panda m) \<and>
       \<not> nd_vehicle_safety_mode m \<and> \<not> nd_requested_arm m \<and> \<not> nd_applied_arm m \<and> nd_recovery_pending m \<and>
       nd_latest_health m = initial_health \<and>
       \<not> ((nd_requested_arm n \<or> nd_applied_arm n) \<and> \<not> (nd_recovery_rearm_required m \<and> nd_auto_arm_inhibited m))"
proof (cases "receive_try w fuel s")
  case (fields r n l)
  show ?thesis
  proof (cases r)
    case (Inl e)
    have "wp (receive_failed w) (\<lambda>_ t. lost n (fst t)) (\<lambda>_ _. False) (n, l)"
      using wp_receive_failed [where s = "(n, l)"] by simp
    then obtain m l' where "receive_failed w (n, l) = (Inr (), (m, l'))" "lost n m"
      by (cases "receive_failed w (n, l)"; cases "fst (receive_failed w (n, l))") (auto simp: wp_def)
    with fields Inl show ?thesis by (auto simp: receive_cycle_def scatch_def lost_def)
  qed (use fields in \<open>simp add: receive_cycle_def scatch_def\<close>)
qed

definition handed_back :: "'d node \<Rightarrow> bool" where
  "handed_back m \<longleftrightarrow> \<not> nd_vehicle_safety_mode m \<and>
     (\<not> nd_camera_disabled m \<and> \<not> nd_radar_disabled m \<and> \<not> nd_recovery_pending m \<or>
      nd_recovery_pending m \<and> nd_auto_arm_inhibited m)"

definition stopped :: "bool \<Rightarrow> 'd node \<Rightarrow> bool" where
  "stopped was_connected m \<longleftrightarrow> \<not> nd_running m \<and> \<not> is_connected m \<and> (was_connected \<longrightarrow> handed_back m)"

lemma wp_stop:
  assumes "b \<longrightarrow> handed_back n"
  shows "wp (sthen (smodify (\<lambda>n. n\<lparr>nd_running := False\<rparr>))
      (sbind (sgets is_connected) (\<lambda>c. swhen c (on_panda (disconnect (w_usb w)))))) (\<lambda>_. stopped b) (\<lambda>_ _. False) n"
  using assms
  by (auto simp: wp_rules stopped_def handed_back_def is_connected_def connected_def released_def
      intro!: wp_mono [OF wp_disconnecting])

lemma wp_return_control:
  assumes "others_behave w"
  shows "wp (sbind (sgets is_connected) (\<lambda>c. swhen c (scatch (enter_no_output_mode w) (\<lambda>e. sret ()))))
    (\<lambda>_ m. is_connected n \<longrightarrow> handed_back m) (\<lambda>_ _. False) n"
  by (auto simp: wp_rules given_back_def latched_def handed_back_def all_restored_def
      intro!: wp_mono [OF wp_enter_no_output [OF assms]])

lemma wp_shut_down:
  assumes "others_behave w"
  shows "wp (shut_down w) (\<lambda>_. stopped (is_connected n)) (\<lambda>_ _. False) n"
proof -
  let ?n = "n\<lparr>nd_auto_arm_inhibited := True, nd_operator_disarmed := True,
        nd_button_rearm_takeover := False, nd_preserve_command_session := False,
        nd_command_gap_resume_qualified := False, nd_requested_arm := False,
        nd_arm_request_generation := nd_arm_request_generation n + 1\<rparr>"
  have "wp (sbind (sgets is_connected) (\<lambda>c. swhen c (scatch (enter_no_output_mode w) (\<lambda>e. sret ()))))
    (\<lambda>_ m. is_connected n \<longrightarrow> handed_back m) (\<lambda>_ _. False) ?n"
    using wp_return_control [OF assms, of ?n] by (simp add: is_connected_def)
  then show ?thesis
    unfolding shut_down_def wp_sthen [of "smodify f" "sthen a b" for f a b] wp_smodify
      wp_sthen [of "sbind a f" for a f]
    by (rule wp_mono) (auto intro: wp_stop)
qed

lemma same_shut_down:
  assumes "steady w time" and "101 \<le> b"
  shows "shut_down (granted w b) = shut_down (granted w 101)"
  unfolding shut_down_def granted_fields same_modes(2) [OF assms] ..



end
