(* ===== verification/Node_Report.thy ===== *)
theory Node_Report
  imports Ecu_Session Node_Demo
begin

text \<open>
  What the node publishes (\<open>src/node.cpp\<close>): the received frames (\<open>publish_raw_can\<close>), the vehicle
  state (\<open>publish_status\<close>) and the diagnostics (\<open>publish_diagnostics\<close>). The ROS time stamps are left
  out; publishing is the value of the message and the topic it goes to. The timer of the state runs
  in the thread of the callbacks and reads what the other threads stored.
\<close>

section \<open>Received frames\<close>

definition raw_message :: "can_frame \<Rightarrow> raw_can_frame" where
  "raw_message f = \<lparr>rm_address = cf_address f, rm_bus = cf_bus f, rm_fd = cf_fd f, rm_extended = cf_extended f,
     rm_returned = cf_returned f, rm_rejected = cf_rejected f, rm_data = take (unat (cf_size f)) (cf_data f)\<rparr>"

text \<open>The topics a received frame is published on: the common one, and the one of its bus if there is
  a publisher for it.\<close>

definition raw_topics :: "node_config \<Rightarrow> can_frame \<Rightarrow> string list" where
  "raw_topics c f =
     (if \<not> nc_publish_raw_can_rx c then []
      else nc_raw_can_rx_topic c #
        (if cf_bus f < 3 \<and> nc_publish_raw_can_bus_topics c
         then [nc_raw_can_bus_prefix c @ dec_of (unat (cf_bus f)) @ ''/rx''] else []))"

section \<open>Diagnostics\<close>

datatype diagnostic_level = OK | WARN | ERROR

record diagnostic_status =
  ds_name :: string
  ds_hardware_id :: string
  ds_level :: diagnostic_level
  ds_message :: string
  ds_values :: "(string \<times> string) list"

definition level_of :: "control_state \<Rightarrow> diagnostic_level" where
  "level_of s =
     (if s = Fault \<or> s = Disconnected then ERROR
      else if s = Passive \<or> s = SoftDisabling then WARN else OK)"

definition flag_value :: "bool \<Rightarrow> string" where
  "flag_value b = dec_of (if b then 1 else 0)"

definition word_value :: "'a::len word \<Rightarrow> string" where
  "word_value x = dec_of (unat x)"

definition diagnostic_values ::
  "vehicle_state \<Rightarrow> panda_health \<Rightarrow> safety_decision \<Rightarrow> 'd node \<Rightarrow> (string \<times> string) list" where
  "diagnostic_values v h d n =
    [(''control_state'', state_name (sd_state d)),
     (''vehicle_valid'', flag_value (vs_valid v)),
     (''eps_fault'', flag_value (vs_eps_fault v)),
     (''soft_disable_remaining_ms'', word_value (sd_soft_disable_remaining_ms d)),
     (''panda_connected'', flag_value (ph_connected h)),
     (''panda_controls_allowed'', flag_value (ph_controls_allowed h)),
     (''waiting_for_command'', flag_value (sd_waiting_for_command d)),
     (''command_session_ready'', flag_value (ph_command_session_ready h)),
     (''command_gap_resume_qualified'', flag_value (nd_command_gap_resume_qualified n)),
     (''panda_safety_mode'', word_value (ph_safety_mode h)),
     (''panda_safety_param'', word_value (ph_safety_param h)),
     (''panda_faults'', word_value (ph_faults h)),
     (''panda_ignored_faults'', word_value (ph_ignored_faults h)),
     (''panda_fault_status'', word_value (ph_fault_status h)),
     (''panda_bus_off'', flag_value (ph_bus_off h)),
     (''safety_tx_blocked'', word_value (ph_safety_tx_blocked h)),
     (''last_rejected_can_address'', word_value (ph_last_rejected_address h)),
     (''ecu_recovery_pending'', flag_value (nd_recovery_pending n)),
     (''ecu_recovery_attempts'', word_value (nd_recovery_attempts n)),
     (''recovery_rearm_required'', flag_value (nd_recovery_rearm_required n)),
     (''raw_can_rx_count'', word_value (nd_raw_can_rx_count n)),
     (''raw_can_tx_count'', word_value (nd_raw_can_tx_count n)),
     (''raw_can_tx_drop_count'', word_value (nd_raw_can_tx_drop_count n)),
     (''can_checksum_failures'', word_value (pa_checksum_failures (nd_parser n)))]"

definition publish_diagnostics ::
  "vehicle_state \<Rightarrow> panda_health \<Rightarrow> safety_decision \<Rightarrow> 'd node \<Rightarrow> diagnostic_status" where
  "publish_diagnostics v h d n = \<lparr>ds_name = ''ioniq5_ecan'', ds_hardware_id = pu_serial (nd_panda n),
     ds_level = level_of (sd_state d), ds_message = reason_text (sd_reason d),
     ds_values = diagnostic_values v h d n\<rparr>"

section \<open>The vehicle state\<close>

record status_message =
  st_valid :: bool
  st_speed_mps :: double
  st_yaw_rate_deg_s :: double
  st_lateral_accel_mps2 :: double
  st_longitudinal_accel_mps2 :: double
  st_wheel_speed_fl :: double
  st_wheel_speed_fr :: double
  st_wheel_speed_rl :: double
  st_wheel_speed_rr :: double
  st_steering_angle_deg :: double
  st_steering_rate_deg_s :: double
  st_driver_torque :: double
  st_eps_torque_nm :: double
  st_accelerator_pedal :: double
  st_brake_pressed :: bool
  st_gas_pressed :: bool
  st_eps_fault :: bool
  st_acc_fault :: bool
  st_cruise_engaged :: bool
  st_standstill :: bool
  st_gear :: u8
  st_cruise_button :: u8
  st_lane_keep_button_pressed :: bool
  st_control_state :: u8
  st_control_state_name :: string
  st_control_reason :: string
  st_lateral_armed :: bool
  st_longitudinal_armed :: bool
  st_lateral_control_active :: bool
  st_longitudinal_control_active :: bool
  st_panda_connected :: bool
  st_panda_controls_allowed :: bool
  st_panda_safety_tx_blocked :: u32
  st_can_checksum_failures :: u64
  st_can_malformed_frames :: u64

definition status_of :: "vehicle_state \<Rightarrow> panda_health \<Rightarrow> safety_decision \<Rightarrow> parser \<Rightarrow> status_message" where
  "status_of v h d p = \<lparr>st_valid = vs_valid v, st_speed_mps = vs_speed_mps v,
     st_yaw_rate_deg_s = vs_yaw_rate_deg_s v, st_lateral_accel_mps2 = vs_lateral_accel_mps2 v,
     st_longitudinal_accel_mps2 = vs_longitudinal_accel_mps2 v, st_wheel_speed_fl = vs_wheel_speed_fl v,
     st_wheel_speed_fr = vs_wheel_speed_fr v, st_wheel_speed_rl = vs_wheel_speed_rl v,
     st_wheel_speed_rr = vs_wheel_speed_rr v, st_steering_angle_deg = vs_steering_angle_deg v,
     st_steering_rate_deg_s = vs_steering_rate_deg_s v, st_driver_torque = vs_driver_torque v,
     st_eps_torque_nm = vs_eps_torque_nm v, st_accelerator_pedal = vs_accelerator_pedal v,
     st_brake_pressed = vs_brake_pressed v, st_gas_pressed = vs_gas_pressed v,
     st_eps_fault = vs_eps_fault v, st_acc_fault = vs_acc_fault v, st_cruise_engaged = vs_cruise_engaged v,
     st_standstill = vs_standstill v, st_gear = vs_gear v, st_cruise_button = vs_cruise_button v,
     st_lane_keep_button_pressed = vs_lane_keep_button_pressed v,
     st_control_state = state_number (sd_state d), st_control_state_name = state_name (sd_state d),
     st_control_reason = reason_text (sd_reason d), st_lateral_armed = sd_lateral_armed d,
     st_longitudinal_armed = sd_longitudinal_armed d, st_lateral_control_active = sd_lateral_allowed d,
     st_longitudinal_control_active = sd_longitudinal_allowed d, st_panda_connected = ph_connected h,
     st_panda_controls_allowed = ph_controls_allowed h, st_panda_safety_tx_blocked = ph_safety_tx_blocked h,
     st_can_checksum_failures = pa_checksum_failures p, st_can_malformed_frames = pa_malformed_frames p\<rparr>"

definition kDiagnosticsDivider :: u64 where "kDiagnosticsDivider = 5"

text \<open>One timer event: the message, the diagnostics if they are due, and the new tick count.\<close>

definition publish_status ::
  "time_point \<Rightarrow> 'd node \<Rightarrow> u64 \<Rightarrow> status_message \<times> diagnostic_status option \<times> u64" where
  "publish_status now n tick =
     (let v = snapshot now (nc_vehicle_state_timeout (nd_config n)) (nd_parser n);
          h = nd_latest_health n; d = nd_latest_decision n
      in (status_of v h d (nd_parser n),
          if tick mod kDiagnosticsDivider = 0 then Some (publish_diagnostics v h d n) else None,
          tick + 1))"

text \<open>The timer events of a run, with the time and the node each one sees.\<close>

fun publish_run :: "(time_point \<times> 'd node) list \<Rightarrow> u64 \<Rightarrow> (status_message \<times> diagnostic_status option) list" where
  "publish_run [] tick = []"
| "publish_run ((now, n) # events) tick =
     (case publish_status now n tick of (m, d, tick') \<Rightarrow> (m, d) # publish_run events tick')"

section \<open>Properties\<close>

text \<open>The reading of a decimal number.\<close>

definition digit_value :: "char \<Rightarrow> nat" where
  "digit_value c = of_char c - 48"

definition number_of :: "string \<Rightarrow> nat" where
  "number_of s = foldl (\<lambda>a c. 10 * a + digit_value c) 0 s"

lemma digit_value_hex_digit: "k < 10 \<Longrightarrow> digit_value (hex_digit k) = k"
proof -
  assume "k < 10"
  then have "k \<in> {0, 1, 2, 3, 4, 5, 6, 7, 8, 9}" by auto
  then show ?thesis by (auto simp: digit_value_def hex_digit_def)
qed

lemma number_of_dec_of [simp]: "number_of (dec_of k) = k"
proof (induction k rule: dec_of.induct)
  case (1 n)
  show ?case
  proof (cases "n < 10")
    case True
    then show ?thesis by (simp add: dec_of.simps [of n] number_of_def digit_value_hex_digit)
  next
    case False
    with 1 show ?thesis by (simp add: dec_of.simps [of n] number_of_def digit_value_hex_digit)
  qed
qed

lemma length_raw_message: "wf_frame f \<Longrightarrow> cf_size f \<le> 64 \<Longrightarrow> length (rm_data (raw_message f)) = unat (cf_size f)"
  by (simp add: raw_message_def wf_frame_def word_le_nat_alt)

text \<open>A frame published on the receive topic can be sent as it is. Whenever the message of a received
  frame is one the transmit topic accepts, the frame rebuilt from it has the address, the bus, the
  flags, the size and the payload of the received one, and the rest of its 64 bytes is zero.\<close>

theorem raw_frame_roundtrip:
  assumes "wf_frame f" and "cf_size f \<le> 64" and "raw_valid (raw_message f)"
  shows "let g = raw_frame (raw_message f) in cf_address g = cf_address f \<and> cf_bus g = cf_bus f \<and>
    cf_fd g = cf_fd f \<and> cf_extended g = cf_extended f \<and> cf_returned g = cf_returned f \<and>
    cf_rejected g = cf_rejected f \<and> cf_size g = cf_size f \<and> payload g = payload f \<and>
    cf_data g = payload f @ replicate (64 - unat (cf_size f)) 0"
proof -
  have len: "length (rm_data (raw_message f)) = unat (cf_size f)" by (rule length_raw_message [OF assms(1,2)])
  have n: "unat (cf_size f) \<le> 64" using assms(2) by (simp add: word_le_nat_alt)
  then have size: "raw_size (raw_message f) = cf_size f" by (simp add: raw_size_def len)
  have "\<not> cf_returned f" "\<not> cf_rejected f" using assms(3) by (simp_all add: raw_valid_def raw_message_def)
  moreover have "cf_data (raw_frame (raw_message f)) = payload f @ replicate (64 - unat (cf_size f)) 0"
    by (simp add: raw_frame_def size empty_frame_def) (simp add: raw_message_def payload_def)
  moreover have "payload (raw_frame (raw_message f)) = payload f"
    using n assms(1) by (simp add: payload_def [of "raw_frame m" for m] calculation raw_frame_def [of "raw_message f"] size)
      (simp add: raw_message_def payload_def wf_frame_def min_absorb2)
  ultimately show ?thesis by (simp add: raw_frame_def size empty_frame_def) (simp add: raw_message_def)
qed

theorem raw_frame_roundtrip_witness:
  "payload (raw_frame (raw_message sample_can_frame)) = payload sample_can_frame"
proof -
  have "\<not> cf_returned sample_can_frame" "\<not> cf_rejected sample_can_frame"
    by (simp_all add: sample_can_frame_def empty_frame_def)
  then have "raw_valid (raw_message sample_can_frame)"
    by (simp add: sample_can_frame_def raw_valid_def raw_message_def raw_size_def
      valid_can_payload_size_def kCanPayloadSizes_def)
  moreover have "wf_frame sample_can_frame" "cf_size sample_can_frame \<le> 64"
    by (simp_all add: sample_can_frame_def wf_frame_def)
  ultimately show ?thesis using raw_frame_roundtrip [of sample_can_frame] by (simp add: Let_def)
qed

lemma publish_run_nth:
  "i < length es \<Longrightarrow> publish_run es tick ! i =
     (case publish_status (fst (es ! i)) (snd (es ! i)) (tick + word_of_nat i) of (m, d, _) \<Rightarrow> (m, d))"
proof (induction es arbitrary: i tick)
  case (Cons e es)
  obtain now n where e: "e = (now, n)" by (cases e)
  show ?case
  proof (cases i)
    case (Suc j)
    with Cons show ?thesis by (simp add: e publish_status_def Let_def ac_simps)
  qed (simp add: e publish_status_def Let_def)
qed simp

lemma diagnostics_due: "i < 2 ^ 64 \<Longrightarrow> (word_of_nat i :: u64) mod kDiagnosticsDivider = 0 \<longleftrightarrow> i mod 5 = 0"
proof -
  assume "i < 2 ^ 64"
  then have "unat ((word_of_nat i :: u64) mod kDiagnosticsDivider) = i mod 5"
    by (simp add: kDiagnosticsDivider_def unat_mod_distrib unat_of_nat take_bit_nat_eq_self)
  then show ?thesis by (metis unat_eq_zero)
qed

text \<open>What the timer publishes is a faithful view of the stored state. Event \<open>i\<close> of a run publishes
  the permissions of the latest decision, a state number and name that identify its state, and
  diagnostics exactly when \<open>i\<close> is a multiple of five; their level is \<open>OK\<close> exactly in the armed and
  active states and \<open>ERROR\<close> exactly for a fault or a lost Panda, their keys are distinct, and the
  counters are printed so that they read back exactly.\<close>

theorem published_state:
  assumes "i < length events" and "i < 2 ^ 64" and "snd (events ! i) = n" and "publish_run events 0 ! i = (m, diag)"
  shows "(st_lateral_control_active m, st_longitudinal_control_active m) =
      (sd_lateral_allowed (nd_latest_decision n), sd_longitudinal_allowed (nd_latest_decision n)) \<and>
    (\<forall>s. st_control_state m = state_number s \<longleftrightarrow> s = sd_state (nd_latest_decision n)) \<and>
    (\<forall>s. st_control_state_name m = state_name s \<longleftrightarrow> s = sd_state (nd_latest_decision n)) \<and>
    (diag \<noteq> None \<longleftrightarrow> i mod 5 = 0) \<and>
    (\<forall>d. diag = Some d \<longrightarrow>
       (ds_level d = OK \<longleftrightarrow> sd_state (nd_latest_decision n) \<in> {Armed, Active}) \<and>
       (ds_level d = ERROR \<longleftrightarrow> sd_state (nd_latest_decision n) \<in> {Fault, Disconnected}) \<and>
       distinct (map fst (ds_values d)) \<and>
       map_option number_of (map_of (ds_values d) ''panda_faults'') = Some (unat (ph_faults (nd_latest_health n))) \<and>
       map_option number_of (map_of (ds_values d) ''raw_can_tx_drop_count'') = Some (unat (nd_raw_can_tx_drop_count n)) \<and>
       map_option number_of (map_of (ds_values d) ''ecu_recovery_attempts'') = Some (unat (nd_recovery_attempts n)))"
proof -
  let ?v = "snapshot (fst (events ! i)) (nc_vehicle_state_timeout (nd_config n)) (nd_parser n)"
  let ?h = "nd_latest_health n" and ?d = "nd_latest_decision n"
  have m: "m = status_of ?v ?h ?d (nd_parser n)" "diag = (if i mod 5 = 0 then Some (publish_diagnostics ?v ?h ?d n) else None)"
    using assms publish_run_nth [OF assms(1), of 0]
    by (simp_all add: publish_status_def Let_def diagnostics_due split: if_splits)
  have level: "(level_of s = OK) = (s \<in> {Armed, Active})" "(level_of s = ERROR) = (s \<in> {Fault, Disconnected})" for s
    by (cases s; simp add: level_of_def)+
  have keys: "distinct (map fst (diagnostic_values v h d n))" for v h d
    by (simp add: diagnostic_values_def)
  have numbers: "map_option number_of (map_of (diagnostic_values v h d n) ''panda_faults'') = Some (unat (ph_faults h))"
    "map_option number_of (map_of (diagnostic_values v h d n) ''raw_can_tx_drop_count'') = Some (unat (nd_raw_can_tx_drop_count n))"
    "map_option number_of (map_of (diagnostic_values v h d n) ''ecu_recovery_attempts'') = Some (unat (nd_recovery_attempts n))" for v h d
    by (simp_all add: diagnostic_values_def word_value_def)
  have state: "st_lateral_control_active m = sd_lateral_allowed ?d" "st_longitudinal_control_active m = sd_longitudinal_allowed ?d"
    "(st_control_state m = state_number s) = (s = sd_state ?d)" "(st_control_state_name m = state_name s) = (s = sd_state ?d)" for s
    by (auto simp: m(1) status_of_def state_number_inject state_name_inject)
  have "ds_level d = level_of (sd_state ?d)" "ds_values d = diagnostic_values ?v ?h ?d n" if "diag = Some d" for d
    using that by (auto simp: m(2) publish_diagnostics_def split: if_splits)
  then show ?thesis using m(2) by (simp add: state level keys numbers del: map_option_eq_Some)
qed

lemma demo_decision: "nd_latest_decision demo_node = initial_decision"
  by (simp add: demo_node_def make_node_def demo_configuration make_sample_adapter demo_components)

theorem published_state_witness:
  "case publish_run [(0, demo_node), (10000000, demo_node)] 0 ! 1 of
    (m, diag) \<Rightarrow> \<not> st_lateral_control_active m \<and> diag = None"
proof -
  obtain m diag where r: "publish_run [(0, demo_node), (10000000, demo_node)] 0 ! 1 = (m, diag)" by fastforce
  then show ?thesis
    using published_state [OF _ _ _ r, of demo_node] by (simp add: demo_decision initial_decision_def)
qed

end
