(* ===== verification/Crc_Properties.thy ===== *)
theory Crc_Properties
  imports Hyundai_Codec
begin

text \<open>
  The checksum of \<open>src/hyundai_canfd_codec.cpp\<close> against the textbook definition of a CRC: a
  polynomial over GF(2) is a natural number whose bits are its coefficients, addition is \<open>XOR\<close>, and
  the CRC of a message is the remainder of \<open>message * x ^ 16\<close> modulo the generator.
\<close>

unbundle bit_operations_syntax

section \<open>Polynomials over GF(2)\<close>

text \<open>The product; the factor is the list of its coefficients, the constant one first.\<close>

fun gf2_mult :: "bool list \<Rightarrow> nat \<Rightarrow> nat" where
  "gf2_mult [] g = 0"
| "gf2_mult (b # bs) g = (if b then g else 0) XOR 2 * gf2_mult bs g"

text \<open>\<open>x ^ 16 + x ^ 12 + x ^ 5 + 1\<close>.\<close>

definition generator :: nat where
  "generator = 0x11021"

definition message_poly :: "bytes \<Rightarrow> nat" where
  "message_poly bs = foldl (\<lambda>a b. 256 * a + unat b) 0 bs"

definition gf2_congruent :: "nat \<Rightarrow> nat \<Rightarrow> bool" where
  "gf2_congruent a b \<longleftrightarrow> (\<exists>q. gf2_mult q generator = a XOR b)"

lemma double_xor: "2 * (a XOR b) = 2 * a XOR 2 * (b :: nat)"
  using push_bit_xor [of 1 a b] by (simp add: push_bit_eq_mult mult.commute)

lemma gf2_mult_xor: "\<exists>q. gf2_mult q g = gf2_mult a g XOR gf2_mult b g"
proof (induction a arbitrary: b)
  case Nil
  then show ?case by (auto intro: exI [of _ b])
next
  case (Cons x a)
  show ?case
  proof (cases b)
    case Nil
    then show ?thesis by (auto intro: exI [of _ "x # a"])
  next
    case (Cons y b')
    obtain q where "gf2_mult q g = gf2_mult a g XOR gf2_mult b' g" using Cons.IH by blast
    then have "2 * gf2_mult q g = 2 * gf2_mult a g XOR 2 * gf2_mult b' g" by (simp add: double_xor)
    moreover have "g XOR (g XOR z) = z" for z by (simp flip: xor.assoc)
    ultimately have "gf2_mult ((x \<noteq> y) # q) g = gf2_mult (x # a) g XOR gf2_mult b g"
      by (simp add: Cons xor.left_commute xor.assoc)
    then show ?thesis by blast
  qed
qed

lemma gf2_congruent_refl [simp]: "gf2_congruent a a"
  by (auto simp: gf2_congruent_def intro: exI [of _ "[]"])

lemma gf2_congruent_sym: "gf2_congruent a b \<Longrightarrow> gf2_congruent b a"
  by (simp add: gf2_congruent_def xor.commute)

lemma gf2_congruent_xor: "gf2_congruent a b \<Longrightarrow> gf2_congruent c d \<Longrightarrow> gf2_congruent (a XOR c) (b XOR d)"
  unfolding gf2_congruent_def using gf2_mult_xor [of generator] by (metis xor.assoc xor.commute)

lemma xor_cancel_nat: "(a XOR b) XOR b = (a :: nat)"
  by (simp add: xor.assoc)

lemma gf2_congruent_trans [trans]: "gf2_congruent a b \<Longrightarrow> gf2_congruent b c \<Longrightarrow> gf2_congruent a c"
  using gf2_congruent_xor [of a b b c] gf2_congruent_def by (metis xor_cancel_nat xor.assoc xor.commute)

lemma gf2_congruent_double: "gf2_congruent a b \<Longrightarrow> gf2_congruent (2 * a) (2 * b)"
proof -
  assume "gf2_congruent a b"
  then obtain q where "gf2_mult q generator = a XOR b" by (auto simp: gf2_congruent_def)
  then have "gf2_mult (False # q) generator = 2 * a XOR 2 * b" by (simp add: double_xor)
  then show ?thesis unfolding gf2_congruent_def by blast
qed

lemma gf2_congruent_shift: "gf2_congruent a b \<Longrightarrow> gf2_congruent (push_bit n a) (push_bit n b)"
proof (induction n arbitrary: a b)
  case (Suc n)
  then have "gf2_congruent (2 * push_bit n a) (2 * push_bit n b)" by (intro gf2_congruent_double) simp
  then show ?case by (simp add: push_bit_eq_mult mult.left_commute)
qed simp

text \<open>Two gf2_congruent numbers below \<open>x ^ 16\<close> are equal.\<close>

lemma multiple_large: "gf2_mult q generator = 0 \<or> 2 ^ 16 \<le> gf2_mult q generator"
proof (induction q)
  case (Cons b q)
  let ?m = "gf2_mult q generator" and ?g = "if b then generator else 0"
  show ?case
  proof (cases "?m = 0")
    case False
    with Cons have "drop_bit 16 ?m \<noteq> 0" by (simp add: drop_bit_eq_div div_eq_0_iff)
    moreover have "drop_bit 17 ?g = 0" by (simp add: generator_def)
    moreover have "drop_bit 17 (2 * ?m) = drop_bit 16 ?m" by (simp add: drop_bit_eq_div div_mult2_eq)
    ultimately have "drop_bit 17 (gf2_mult (b # q) generator) \<noteq> 0" by simp
    then show ?thesis by (simp add: drop_bit_eq_div div_eq_0_iff)
  qed (simp add: generator_def)
qed simp

lemma xor_less: "a < 2 ^ n \<Longrightarrow> b < 2 ^ n \<Longrightarrow> a XOR b < 2 ^ n" for a b :: nat
  by (metis take_bit_nat_eq_self_iff take_bit_xor)

lemma gf2_congruent_unique: "gf2_congruent a b \<Longrightarrow> a < 2 ^ 16 \<Longrightarrow> b < 2 ^ 16 \<Longrightarrow> a = b"
proof -
  assume c: "gf2_congruent a b" and ab: "a < 2 ^ 16" "b < 2 ^ 16"
  obtain q where "gf2_mult q generator = a XOR b" using c by (auto simp: gf2_congruent_def)
  then have "a XOR b = 0" using multiple_large [of q] xor_less [OF ab] by auto
  then show "a = b" by (metis xor_cancel_nat xor.left_neutral)
qed

section \<open>The code's loops\<close>

lemma crc_round_poly: "unat (crc_round c) = 2 * unat c XOR (if bit c 15 then generator else 0)"
proof -
  have top: "(c AND 0x8000 \<noteq> 0) = bit c 15"
    using and_exp_eq_0_iff_not_bit [of c 15] by simp
  have overflow: "2 * unat c = unat (push_bit 1 c) XOR (if bit c 15 then 2 ^ 16 else 0)"
  proof (rule bit_eqI)
    fix k
    have eq: "2 * unat c = push_bit 1 (unat c)" by (simp add: push_bit_eq_mult)
    have double: "bit (2 * unat c) k \<longleftrightarrow> 1 \<le> k \<and> bit c (k - 1)"
      unfolding eq bit_push_bit_iff_nat by (simp add: bit_unsigned_iff)
    have "bit (unat (push_bit 1 c)) k \<longleftrightarrow> 1 \<le> k \<and> k < 16 \<and> bit c (k - 1)"
      unfolding bit_unsigned_iff bit_push_bit_iff by auto
    moreover have "bit (2 ^ 16 :: nat) k \<longleftrightarrow> k = 16" unfolding bit_exp_iff by auto
    moreover have "bit c (k - 1) \<Longrightarrow> k \<le> 16" using bit_imp_le_length [of c "k - 1"] by simp
    ultimately show "bit (2 * unat c) k = bit (unat (push_bit 1 c) XOR (if bit c 15 then 2 ^ 16 else 0)) k"
      unfolding double bit_xor_iff by (cases "k = 16") auto
  qed
  have "(2 ^ 16 :: nat) XOR generator = 0x1021" by (simp add: generator_def)
  then show ?thesis
    by (simp add: top crc_round_def overflow unsigned_xor_eq xor.assoc)
qed

lemma gf2_congruent_round: "gf2_congruent (unat (crc_round c)) (2 * unat c)"
proof -
  have "gf2_mult [True] generator = generator" by simp
  then have "gf2_congruent (2 * unat c XOR generator) (2 * unat c)"
    unfolding gf2_congruent_def by (metis xor_cancel_nat xor.commute)
  then show ?thesis by (simp add: crc_round_poly)
qed

lemma gf2_congruent_rounds: "gf2_congruent (unat ((crc_round ^^ n) c)) (push_bit n (unat c))"
proof (induction n)
  case (Suc n)
  have "gf2_congruent (unat ((crc_round ^^ Suc n) c)) (2 * unat ((crc_round ^^ n) c))" using gf2_congruent_round by simp
  also have "gf2_congruent \<dots> (2 * push_bit n (unat c))" using Suc by (rule gf2_congruent_double)
  finally show ?case by (simp add: push_bit_eq_mult mult.left_commute)
qed simp

lemma gf2_congruent_step: "gf2_congruent (unat (crc_step c b)) (push_bit 8 (unat c) XOR push_bit 16 (unat b))"
proof -
  have "unat (push_bit 8 (ucast b :: u16)) = push_bit 8 (unat b)"
    by (rule bit_eqI) (auto simp: bit_unsigned_iff bit_push_bit_iff bit_push_bit_iff_nat bit_ucast_iff dest: bit_imp_le_length)
  then have "unat (c XOR push_bit 8 (ucast b)) = unat c XOR push_bit 8 (unat b)" by (simp add: unsigned_xor_eq)
  then show ?thesis using gf2_congruent_rounds [of 8 "c XOR push_bit 8 (ucast b)"]
    by (simp add: crc_step_def push_bit_xor)
qed

lemma message_snoc: "message_poly (bs @ [b]) = push_bit 8 (message_poly bs) XOR unat b"
proof -
  have "push_bit 8 m AND unat b = 0" for m
    by (rule bit_eqI) (auto simp: bit_and_iff bit_push_bit_iff_nat bit_unsigned_iff dest: bit_imp_le_length)
  then have "push_bit 8 (message_poly bs) + unat b = push_bit 8 (message_poly bs) XOR unat b"
    by (intro disjunctive_add_eq_xor)
  then show ?thesis by (simp add: message_poly_def push_bit_eq_mult mult.commute)
qed

lemma gf2_congruent_crc: "gf2_congruent (unat (foldl crc_step 0 bs)) (push_bit 16 (message_poly bs))"
proof (induction bs rule: rev_induct)
  case (snoc b bs)
  have "gf2_congruent (unat (foldl crc_step 0 (bs @ [b]))) (push_bit 8 (unat (foldl crc_step 0 bs)) XOR push_bit 16 (unat b))"
    using gf2_congruent_step by simp
  also have "gf2_congruent \<dots> (push_bit 8 (push_bit 16 (message_poly bs)) XOR push_bit 16 (unat b))"
    using snoc by (intro gf2_congruent_xor gf2_congruent_shift gf2_congruent_refl)
  finally show ?case by (simp add: message_snoc push_bit_xor)
qed (simp add: message_poly_def)

lemma ucast_low: "ucast (x AND 0xFF) = (ucast x :: u8)" for x :: u32
proof -
  have "(0xFF :: u32) = mask 8" by (simp add: mask_eq_exp_minus_1)
  then have "x AND 0xFF = take_bit 8 x" by (simp only: take_bit_eq_mask)
  then show ?thesis by (intro bit_word_eqI) (simp add: bit_simps)
qed

lemma size_xor_table:
  "(\<exists>x. size_xor n = Some x \<and> P (unat x)) \<longleftrightarrow>
     (\<exists>k. (n, k) \<in> {(8, 0x5F29), (16, 0x041D), (24, 0x819D), (32, 0x9F5B)} \<and> P k)"
  by (auto simp: size_xor_def)

lemma u16_less: "unat w < 2 ^ 16" for w :: u16
  using unsigned_less [of w] by simp

text \<open>C16: the bit loop of the checksum computes the CRC-16 with the generator
  \<open>x ^ 16 + x ^ 12 + x ^ 5 + 1\<close>. For each of the four supported sizes there is a constant such that a
  value is returned exactly if it is the constant added to the remainder of \<open>message * x ^ 16\<close>: the
  message is the payload after its two checksum bytes, followed by the low and the high byte of the
  address. Any other size is refused.\<close>

theorem checksum_is_crc16:
  "checksum address data = Inr c \<longleftrightarrow>
     (\<exists>k. (length data, k) \<in> {(8, 0x5F29), (16, 0x041D), (24, 0x819D), (32, 0x9F5B)} \<and>
       (\<exists>q. gf2_mult q generator =
          push_bit 16 (message_poly (drop 2 data @ [ucast address, ucast (drop_bit 8 address)])) XOR (unat c XOR k)))"
proof -
  let ?m = "drop 2 data @ [ucast address, ucast (drop_bit 8 address)]"
  let ?crc = "foldl crc_step 0 ?m"
  have bytes: "ucast (address AND 0xFF) = (ucast address :: u8)" "ucast (drop_bit 8 address AND 0xFF) = (ucast (drop_bit 8 address) :: u8)"
    using ucast_low [of address] ucast_low [of "drop_bit 8 address"] by simp_all
  have sum: "checksum address data = Inr c \<longleftrightarrow> (\<exists>x. size_xor (length data) = Some x \<and> c = ?crc XOR x)"
    by (auto simp: checksum_def Let_def bytes size_xor_def)
  have "c = ?crc XOR x \<longleftrightarrow> gf2_congruent (push_bit 16 (message_poly ?m)) (unat c XOR unat x)" for x
  proof
    assume "c = ?crc XOR x"
    then have "unat c XOR unat x = unat ?crc" by (simp add: xor.assoc flip: unsigned_xor_eq)
    then show "gf2_congruent (push_bit 16 (message_poly ?m)) (unat c XOR unat x)"
      using gf2_congruent_sym [OF gf2_congruent_crc [of ?m]] by simp
  next
    assume "gf2_congruent (push_bit 16 (message_poly ?m)) (unat c XOR unat x)"
    with gf2_congruent_crc have "gf2_congruent (unat ?crc) (unat c XOR unat x)" by (rule gf2_congruent_trans)
    then have "gf2_congruent (unat ?crc) (unat (c XOR x))" by (simp only: unsigned_xor_eq)
    then have "unat ?crc = unat (c XOR x)"  by (rule gf2_congruent_unique [OF _ u16_less u16_less])
    then have "?crc = c XOR x" by (rule unsigned_word_eqI)
    then show "c = ?crc XOR x" by (simp only: xor.assoc xor_self_eq xor.right_neutral)
  qed
  then have "checksum address data = Inr c \<longleftrightarrow>
      (\<exists>x. size_xor (length data) = Some x \<and> gf2_congruent (push_bit 16 (message_poly ?m)) (unat c XOR unat x))"
    unfolding sum by blast
  also note size_xor_table
  finally show ?thesis unfolding gf2_congruent_def .
qed

end
