(* ===== verification/Passive_Node.thy ===== *)
theory Passive_Node
  imports Loop_Properties
begin

text \<open>
  The passive configuration (\<open>config/ioniq5_ecan_passive.yaml\<close>, \<open>safety/allow_actuation\<close> false): the node
  only listens. \<open>dormant\<close> is what every step of the node keeps there: nothing is armed, nothing is
  allowed, no ECU is silenced, the vehicle mode is off, and no raw frame has been sent.
\<close>

definition dormant :: "'d node \<Rightarrow> bool" where
  "dormant n \<longleftrightarrow> \<not> sc_allow_actuation (nc_safety (nd_config n)) \<and> \<not> nd_requested_arm n \<and> \<not> nd_applied_arm n \<and>
     \<not> sv_arm_requested (nd_supervisor n) \<and> \<not> nd_vehicle_safety_mode n \<and>
     \<not> nd_camera_disabled n \<and> \<not> nd_radar_disabled n \<and>
     \<not> sd_lateral_allowed (nd_latest_decision n) \<and> \<not> sd_longitudinal_allowed (nd_latest_decision n) \<and>
     nd_raw_can_tx_count n = 0"

abbreviation withheld :: "safety_decision \<Rightarrow> bool" where
  "withheld d \<equiv> \<not> sd_lateral_allowed d \<and> \<not> sd_longitudinal_allowed d"

section \<open>The steps of the other threads\<close>

lemma dormant_update [simp]:
  "dormant (n\<lparr>nd_panda := p\<rparr>) = dormant n" "dormant (n\<lparr>nd_latest_health := h\<rparr>) = dormant n"
  "dormant (n\<lparr>nd_codec := k\<rparr>) = dormant n" "dormant (n\<lparr>nd_adapter := a\<rparr>) = dormant n"
  "dormant (n\<lparr>nd_parser := q\<rparr>) = dormant n" "dormant (n\<lparr>nd_running := b\<rparr>) = dormant n"
  "dormant (bump_epoch n) = dormant n" "dormant (set_tester_present e t n) = dormant n"
  "dormant (end_uds_wait n) = dormant n" "dormant (drop_raw n) = dormant n"
  "dormant (note_events v n) = dormant n" "dormant (publish_raw_can f n) = dormant n"
  "dormant (observe_control_frame f n) = dormant n" "dormant (command_callback c t n) = dormant n"
  by (cases e; simp add: dormant_def bump_epoch_def end_uds_wait_def drop_raw_def note_events_def
    publish_raw_can_def observe_control_frame_def note_stock_def deliver_uds_def command_callback_def Let_def)+

lemma dormant_cleared:
  "dormant n \<Longrightarrow> dormant (n\<lparr>nd_applied_arm := False\<rparr>)" "dormant n \<Longrightarrow> dormant (set_disabled e False n)"
  "dormant n \<Longrightarrow> dormant (snd (arm_callback b n))" "dormant n \<Longrightarrow> dormant (snd (request_internal_disarm b n))"
  "dormant n \<Longrightarrow> withheld d \<Longrightarrow> dormant (n\<lparr>nd_latest_decision := d\<rparr>)"
  by (simp_all add: dormant_def arm_callback_def request_internal_disarm_def Let_def,
    cases e, simp_all)

lemma keeps_dormant_frame: "keeps dormant (process_frame f)"
  unfolding process_frame_def by (intro keeps_rules) simp_all

lemma undisturbed_dormant: "undisturbed dormant"
  unfolding undisturbed_def
proof (intro conjI allI impI)
  fix n m :: "'a node" assume "other_step n m" "dormant n"
  then show "dormant m"
    by (cases rule: other_step.cases) (simp_all add: dormant_cleared keepsD [OF keeps_dormant_frame])
qed (simp_all, simp_all add: dormant_def)

lemma restorable_dormant: "restorable dormant"
  by (simp add: restorable_def undisturbed_dormant dormant_cleared)

section \<open>The loops\<close>

lemma keeps_dormant_no_output: "others_behave w \<Longrightarrow> keeps dormant (enter_no_output_mode w)"
  unfolding enter_no_output_mode_def
  by (intro keeps_in_transition keeps_rules keeps_restore_stages device_rules restorable_dormant undisturbed_dormant)
    (simp_all, simp_all add: dormant_def)

lemma keeps_dormant_raw: "keeps dormant (raw_can_tx_callback w msg)"
  unfolding raw_can_tx_callback_def Let_def
proof (rule keeps_read)
  fix n :: "'a node" assume "dormant n"
  then have "\<not> nd_vehicle_safety_mode (id n)" by (simp add: dormant_def)
  then show "keeps dormant (if \<not> nc_allow_raw_can_tx (nd_config (id n)) then sret ()
     else if \<not> raw_valid msg then smodify drop_raw
     else
       if cf_address (raw_frame msg) = kLfaAddress \<and> \<not> sd_lateral_allowed (nd_latest_decision (id n)) then smodify drop_raw
          else if \<not> nd_vehicle_safety_mode (id n) \<or> \<not> is_connected (id n) \<or> \<not> sd_longitudinal_allowed (nd_latest_decision (id n))
          then smodify drop_raw
          else scatch
            (sthen (on_panda (send (w_usb w) [raw_frame msg]))
              (smodify (\<lambda>n. n\<lparr>nd_raw_can_tx_count := nd_raw_can_tx_count n + 1\<rparr>)))
            (\<lambda>e. smodify drop_raw))"
    by (simp add: keeps_smodify keeps_sret)
qed

lemma stable_dormant: "others_behave w \<Longrightarrow> stable w dormant"
  by (rule stableI [OF undisturbed_dormant keeps_dormant_raw keeps_dormant_no_output])
    (simp_all add: dormant_cleared, simp_all add: dormant_def request_internal_disarm_def Let_def)

lemma keeps_dormant_retry: "others_behave w \<Longrightarrow> keeps dormant (retry_no_output_recovery w now)"
  unfolding retry_no_output_recovery_def
  by (intro keeps_rules keeps_interfere stable_dormant keeps_dormant_no_output) (simp_all add: dormant_def)

lemma keeps_dormant_disarm: "keeps dormant (request_internal_disarm b)" "keeps dormant internal_disarm"
proof -
  show r: "keeps dormant (request_internal_disarm b)" for b
    by (rule keepsI) (simp add: wp_def request_internal_disarm_def Let_def dormant_def)
  show "keeps dormant internal_disarm" unfolding internal_disarm_def by (intro keeps_rules r)
qed

lemma keeps_dormant_arm: "keeps dormant (supervise_arm False)"
  by (rule keepsI) (simp add: wp_def supervise_arm_def request_arm_def dormant_def Let_def)

lemma keeps_dormant_adapt: "keeps dormant (adapt w c s lat long)"
  by (rule keepsI) (simp add: wp_def adapt_def split: prod.split sum.split)

lemma wp_dormant_supervise:
  assumes "dormant n"
  shows "wp (supervise s) (\<lambda>d m. dormant m \<and> withheld d) (\<lambda>_. dormant) n"
proof -
  obtain t d where u: "update (nc_safety (nd_config n)) (sm_now s) (sm_vehicle s) (sm_health s) (sm_command s)
      (nd_supervisor n) = (t, d)" by fastforce
  have "\<not> sv_arm_requested (nd_supervisor n)" using assms by (simp add: dormant_def)
  from update_disarmed(1,2) [OF this u] have "\<not> sv_arm_requested t" "withheld d" by (simp_all add: idle_def)
  with u assms show ?thesis by (simp add: wp_def supervise_def dormant_def)
qed

lemmas dormant_rules = keeps_rules keeps_dormant_no_output keeps_dormant_retry keeps_dormant_disarm
  keeps_dormant_arm keeps_dormant_adapt keeps_on_panda [OF undisturbed_dormant] keeps_clock [OF undisturbed_dormant]
  keeps_heartbeat [OF undisturbed_dormant] keeps_set_panda_mode [OF undisturbed_dormant]
  keeps_panda_health [OF undisturbed_dormant] keeps_maintain [OF undisturbed_dormant]
  keeps_interfere [OF _ stable_dormant]

lemma keeps_dormant_restart: "keeps dormant (restart_period w l)"
  unfolding restart_period_def by (intro dormant_rules)

lemma keeps_dormant_applied: "keeps dormant (set_applied_arm False)"
  unfolding set_applied_arm_def by (intro keeps_rules) (rule dormant_cleared)

lemma keeps_dormant_store: "withheld d \<Longrightarrow> keeps dormant (store_decision d)"
  unfolding store_decision_def by (intro keeps_rules) (simp add: dormant_cleared)

text \<open>No request stands, so the request handled is one to disarm.\<close>

lemma keeps_dormant_request:
  assumes "others_behave w"
  shows "keeps dormant (handle_arm_request w s l)"
  unfolding handle_arm_request_def
proof (rule keeps_read)
  fix n :: "'a node" assume "dormant n"
  then have off: "nd_requested_arm n = False" by (simp add: dormant_def)
  have apply_arm: "keeps dormant (apply_arm w s False l)" for l
    unfolding apply_arm_def by (simp only: simp_thms if_False Let_def) (intro dormant_rules assms)
  have failed: "keeps dormant (arm_failed w)"
    unfolding arm_failed_def by (intro dormant_rules keeps_dormant_applied assms)
  show "keeps dormant (sthen (interfere w) (sbind (sgets nd_arm_request_generation) (\<lambda>generation.
      sbind (sgets is_connected) (\<lambda>c.
      if generation \<noteq> lc_applied_arm_generation l \<and> (\<not> nd_requested_arm n \<or> c) then
        let l = l\<lparr>lc_applied_arm_generation := generation\<rparr>
        in sbind (supervise_arm (nd_requested_arm n)) (\<lambda>ok.
           if ok then
             sthen (set_applied_arm (nd_requested_arm n))
             (sthen (interfere w)
               (scatch (apply_arm w s (nd_requested_arm n) l) (\<lambda>e. sthen (arm_failed w) (sret (True, l)))))
           else
             sthen internal_disarm (sthen (interfere w) (sthen (set_applied_arm False) (sret (True, l)))))
      else sret (True, l)))))"
    unfolding off Let_def by (intro dormant_rules keeps_dormant_applied apply_arm failed assms)
qed

text \<open>What a gate on an armed or switched node lets through never runs.\<close>

lemma keeps_dormant_gate:
  assumes "\<And>n. dormant n \<Longrightarrow> \<not> g n" and "keeps dormant (k False)"
  shows "keeps dormant (sbind (sgets g) k)"
  by (rule keeps_read) (simp add: assms)

lemma keeps_dormant_book:
  assumes "others_behave w"
  shows "keeps dormant (auto_arm w s)" "keeps dormant (note_engage_press w v)" "keeps dormant (take_sample w now previous)"
proof -
  show "keeps dormant (auto_arm w s)" unfolding auto_arm_def
    by (rule keeps_dormant_gate) (auto simp: dormant_def auto_arm_ready_def Let_def intro!: dormant_rules assms)
  show "keeps dormant (note_engage_press w v)" unfolding note_engage_press_def
    by (intro dormant_rules assms) (simp_all, simp add: dormant_def)
  show "keeps dormant (take_sample w now previous)" unfolding take_sample_def by (intro dormant_rules assms)
qed

lemma keeps_dormant_session:
  assumes "others_behave w" and "withheld d"
  shows "keeps dormant (session_stage w s d l)"
proof -
  have drop: "keeps dormant (drop_longitudinal w s d)"
    unfolding drop_longitudinal_def by (intro dormant_rules)
  have ready: "keeps dormant (sbind (sgets (takeover_ready s d resume)) (\<lambda>ready. sthen (interfere w)
      (if ready then sbind (take_over w s resume l) (\<lambda>l. sret (Some l)) else sret None)))" for resume
    by (rule keeps_dormant_gate) (auto simp: dormant_def takeover_ready_def intro!: dormant_rules assms)
  have resume: "keeps dormant (resume_stage w s d l)" unfolding resume_stage_def
    by (rule keeps_sbind [OF keeps_sgets keeps_sthen [OF _ ready]]) (intro dormant_rules assms)
  have gate: "keeps dormant (sbind (sgets (\<lambda>n. sd_waiting_for_command d \<and> nd_vehicle_safety_mode n)) (\<lambda>gap.
      if gap then sthen (interfere w) (sbind (yield_to_stock w s d l) (\<lambda>l. sret (Some l))) else resume_stage w s d l))"
    by (rule keeps_dormant_gate) (simp_all add: dormant_def [of "_ :: 'a node"] resume)
  show ?thesis unfolding session_stage_def
    by (rule keeps_sbind [OF drop], intro keeps_if keeps_sret keeps_sthen keeps_swhen keeps_smodify gate
        keeps_interfere [OF assms(1) stable_dormant [OF assms(1)]]) (simp add: dormant_def)
qed

lemma keeps_dormant_clean_up: "others_behave w \<Longrightarrow> withheld d \<Longrightarrow> keeps dormant (clean_up w s d l)"
  unfolding clean_up_def
  by (intro dormant_rules keeps_dormant_applied keeps_dormant_restart keeps_dormant_store)

lemma keeps_dormant_drive:
  assumes "others_behave w" and "withheld d"
  shows "keeps dormant (drive w s d l)"
proof -
  have shape: "keeps dormant (shape_output w s d)"
    unfolding shape_output_def by (intro dormant_rules)
  have frames: "keeps dormant (control_frames i s out d')" for i out d'
    unfolding control_frames_def cluster_frame_def longitudinal_frames_def
    by (intro keeps_rules keeps_build) simp_all
  have send: "keeps dormant (send_control_frames w i s out d')" for i out d'
    unfolding send_control_frames_def log_and_disarm_def by (intro dormant_rules frames)
  have beat: "keeps dormant (beat w d' l)" for d'
    unfolding beat_def by (intro dormant_rules)
  show ?thesis unfolding drive_def
  proof (rule keeps_result [where R = "\<lambda>(out, d'). withheld d'"])
    fix n :: "'a node" assume "dormant n"
    from wp_conj [OF keeps_wp [OF shape this] shape_decision]
    show "wp (shape_output w s d) (\<lambda>x t. dormant t \<and> (case x of (out, d') \<Rightarrow> withheld d')) (\<lambda>_. dormant) n"
      by (rule wp_mono) (use assms in auto)
  qed (auto intro!: keeps_rules keeps_interfere [OF assms(1) stable_dormant [OF assms(1)]] keeps_dormant_store send beat)
qed

lemma keeps_dormant_tick:
  assumes "others_behave w"
  shows "keeps dormant (control_tick w l)"
proof -
  have "keeps dormant (decide_and_act w s l)" for s l
    unfolding decide_and_act_def
  proof (rule keeps_result [where R = withheld, OF wp_dormant_supervise])
    fix d assume d: "withheld d"
    show "keeps dormant (sthen (interfere w) (sbind (sgets (\<lambda>n. sc_resume_on_command_return (nc_safety (nd_config n)))) (\<lambda>resume.
        sbind (if resume then session_stage w s d l else sret None) (\<lambda>early.
        case early of Some l \<Rightarrow> sret l
        | None \<Rightarrow>
            sbind (sgets (\<lambda>n. \<not> sv_arm_requested (nd_supervisor n) \<and> nd_applied_arm n)) (\<lambda>disarmed.
            sthen (interfere w)
            (if disarmed then clean_up w s d l else drive w s d l))))))"
      by (intro dormant_rules keeps_dormant_session [OF assms d] keeps_dormant_clean_up [OF assms d]
          keeps_dormant_drive [OF assms d] assms)
  qed
  then show ?thesis unfolding control_tick_def run_period_def
    by (intro dormant_rules keeps_dormant_request keeps_dormant_book assms)
qed

lemma keeps_dormant_receive: "keeps (dormant \<circ> fst) (receive_cycle w fuel)"
  unfolding receive_cycle_def receive_try_def receive_frames_def reconnect_def poll_health_def receive_failed_def
  by (intro keeps_rules keeps_on_node keeps_locals keeps_on_panda [OF undisturbed_dormant]
      keeps_clock [OF undisturbed_dormant] keeps_panda_health [OF undisturbed_dormant] keeps_dormant_disarm keeps_dormant_frame)
    (simp_all, simp_all add: dormant_def)

lemma keeps_dormant_shut_down: "others_behave w \<Longrightarrow> keeps dormant (shut_down w)"
  unfolding shut_down_def by (intro dormant_rules) (simp_all, simp_all add: dormant_def)

section \<open>The node\<close>

definition passive_inv :: "'d world \<Rightarrow> params \<Rightarrow> 'd node \<Rightarrow> bool" where
  "passive_inv w ps n \<longleftrightarrow>
     others_behave w \<and> (\<exists>c. load_configuration ps = Inr c \<and> \<not> sc_allow_actuation (nc_safety c)) \<longrightarrow> dormant n"

lemma dormant_start:
  "node_start ps n \<Longrightarrow> load_configuration ps = Inr c \<Longrightarrow> \<not> sc_allow_actuation (nc_safety c) \<Longrightarrow> dormant n"
  by (auto simp: node_start_def make_node_def ebind_eq_Inr dormant_def initial_decision_def make_supervisor_def
    initial_supervisor_def Let_def split: if_splits)

lemma dormant_step: "others_behave w \<Longrightarrow> node_step w n m \<Longrightarrow> dormant n \<Longrightarrow> dormant m"
proof (erule node_stepE)
  fix fuel rl assume "m = fst (snd (receive_cycle w fuel (n, rl)))" "dormant n"
  then show "dormant m" using keepsD [OF keeps_dormant_receive, of "(n, rl)"] by simp
qed (simp_all add: keepsD [OF keeps_dormant_tick] dormant_cleared keepsD [OF keeps_dormant_raw]
  keepsD [OF keeps_dormant_shut_down])

interpretation pn: machine_invariant "node_start ps" "node_step w" "passive_inv w ps" for ps w
proof
  show "node_start ps n \<Longrightarrow> passive_inv w ps n" for n :: "'a node"
    unfolding passive_inv_def using dormant_start by blast
  show "passive_inv w ps n \<Longrightarrow> node_step w n m \<Longrightarrow> passive_inv w ps m" for n m :: "'a node"
    unfolding passive_inv_def using dormant_step by blast
qed

text \<open>C3: a passive node never acts. Where the configuration does not allow actuation, then in every state
  the two threads, the callbacks and the destructor can reach, in any order, with any commands, arm
  requests, button presses, adapter and ECUs: no arm request stands or is applied, neither channel is
  allowed, neither ECU is silenced, the vehicle mode is off, and no raw frame has been sent.\<close>

theorem passive_node_never_acts:
  assumes "others_behave w" and "load_configuration ps = Inr c" and "\<not> sc_allow_actuation (nc_safety c)"
    and "reach (node_start ps) (node_step w) n"
  shows "\<not> nd_requested_arm n \<and> \<not> nd_applied_arm n \<and> \<not> sv_arm_requested (nd_supervisor n) \<and>
    \<not> sd_lateral_allowed (nd_latest_decision n) \<and> \<not> sd_longitudinal_allowed (nd_latest_decision n) \<and>
    \<not> nd_camera_disabled n \<and> \<not> nd_radar_disabled n \<and> \<not> nd_vehicle_safety_mode n \<and> nd_raw_can_tx_count n = 0"
proof -
  have "dormant n" using pn.reachable_inv [OF assms(4)] assms(1-3) by (auto simp: passive_inv_def)
  then show ?thesis by (simp add: dormant_def)
qed

text \<open>The node on an empty parameter server, after its first iteration.\<close>

definition empty_params :: params where
  "empty_params = demo_params\<lparr>pm_bool := Map.empty\<rparr>"

lemma empty_loaded:
  obtains c where "load_configuration empty_params = Inr c" "\<not> sc_allow_actuation (nc_safety c)"
    "nc_adapter c = sample_adapter_config" "make_supervisor (nc_safety c) = Inr initial_supervisor"
proof -
  have a: "load_adapter_config empty_params = Inr sample_adapter_config"
    by (simp add: empty_params_def load_adapter_config_def demo_params_def parameter_def lateral_mode_from_string_def
      sample_adapter_config_def default_adapter_config_def Let_def)
  let ?c = "load_values empty_params sample_adapter_config"
  have "check_config ?c = Inr ?c"
    by (simp add: check_config_def empty_params_def demo_config_defs Let_def rnd_numeral)
  with a have "load_configuration empty_params = Inr ?c" by (simp add: load_configuration_def)
  then show ?thesis
    by (rule that) (simp_all add: make_supervisor_def empty_params_def demo_config_defs Let_def)
qed

definition listening_node :: "demo node" where
  "listening_node = (case make_node empty_params demo_device of Inr n \<Rightarrow> n)"

lemma listening_start: "node_start empty_params listening_node"
proof -
  obtain c where c: "load_configuration empty_params = Inr c" "nc_adapter c = sample_adapter_config"
    "make_supervisor (nc_safety c) = Inr initial_supervisor" by (rule empty_loaded)
  then have "make_node empty_params demo_device = Inr listening_node"
    by (simp add: listening_node_def make_node_def make_sample_adapter)
  then show ?thesis unfolding node_start_def by blast
qed

definition listened :: "demo node" where
  "listened = snd (control_tick demo_world (start_control demo_config 0 0) listening_node)"

theorem passive_node_never_acts_witness:
  "\<not> nd_requested_arm listened \<and> \<not> nd_vehicle_safety_mode listened \<and> nd_raw_can_tx_count listened = 0"
proof -
  obtain c where c: "load_configuration empty_params = Inr c" "\<not> sc_allow_actuation (nc_safety c)" by (rule empty_loaded)
  have "node_step demo_world listening_node listened" unfolding listened_def by (rule node_step.control)
  then have "reach (node_start empty_params) (node_step demo_world) listened"
    by (rule reach_step [where s = listening_node, rotated]) (rule reach_init, rule listening_start)
  from passive_node_never_acts [OF demo_others c this] show ?thesis by simp
qed

end
