(* ===== verification/Interleaving.thy ===== *)
theory Interleaving
  imports Passive_Node
begin

text \<open>
  How the control thread and the others meet. The rely condition of the control loop covers what the
  other threads do; a disarm seen by the control loop takes effect whatever they do; and a disarm
  that falls between two of its loads does not.
\<close>

section \<open>The rely condition covers the other threads\<close>

text \<open>The nodes the other threads can reach from a given one.\<close>

abbreviation reached :: "'d world \<Rightarrow> 'd node \<Rightarrow> 'd node \<Rightarrow> bool" where
  "reached w n m \<equiv> (free_step w)\<^sup>*\<^sup>* n m"

lemma reached_step: "reached w n m \<Longrightarrow> free_step w m k \<Longrightarrow> reached w n k"
  by (rule rtranclp.rtrancl_into_rtrancl)

lemma reached_device: "reached w n m \<Longrightarrow> reached w n (m\<lparr>nd_panda := p\<rparr>)"
  by (blast intro: reached_step free_other step_device)

lemma keeps_reached_panda: "keeps (reached w n) (on_panda m)"
  by (auto simp: keeps_def on_panda_def wp_son wp_def reached_device split: prod.split sum.split)

lemma keeps_reached_waits: "keeps (reached w n) (clock w)" "keeps (reached w n) (panda_health_of w)"
  unfolding clock_def panda_health_of_def by (rule keeps_reached_panda)+

lemma keeps_reached_step: "(\<And>m. free_step w m (snd (a m))) \<Longrightarrow> keeps (reached w n) a"
  by (auto simp: keeps_def wp_def split: prod.split sum.split) (metis reached_step snd_conv)+

lemma keeps_reached_frame: "keeps (reached w n) (process_frame f)"
  by (rule keeps_reached_step) (intro free_other step_frame)

lemma keeps_reached_health:
  "keeps (reached w n) (smodify (\<lambda>m. if b m then m\<lparr>nd_latest_health := h m\<rparr> else m))"
  by (rule keeps_smodify) (auto intro: reached_step free_other step_health)

text \<open>A new session and a lost one are one step of the device and one of the node.\<close>

lemma keeps_reached_session:
  "keeps (reached w n) (sbind (sgets both_disabled) (\<lambda>b.
     sthen (smodify (\<lambda>m. m\<lparr>nd_vehicle_safety_mode := False\<rparr>)) (swhen b internal_disarm)))"
proof (rule keepsI)
  fix m assume m: "reached w n m"
  have "m\<lparr>nd_panda := nd_panda m, nd_vehicle_safety_mode := False\<rparr> = m\<lparr>nd_vehicle_safety_mode := False\<rparr>" by simp
  with reached_step [OF m free_lost, of "nd_panda m"] reached_step [OF m free_found, of "nd_panda m"]
  show "wp (sbind (sgets both_disabled) (\<lambda>b. sthen (smodify (\<lambda>m. m\<lparr>nd_vehicle_safety_mode := False\<rparr>))
      (swhen b internal_disarm))) (\<lambda>_. reached w n) (\<lambda>_. reached w n) m"
    by (simp add: wp_rules wp_internal_disarm)
qed

lemma keeps_reached_loss:
  "keeps (reached w n) (sthen (smodify (\<lambda>m. m\<lparr>nd_vehicle_safety_mode := False\<rparr>))
     (sthen internal_disarm (smodify (\<lambda>m. m\<lparr>nd_applied_arm := False, nd_latest_health := initial_health\<rparr>))))"
proof (rule keepsI)
  fix m assume m: "reached w n m"
  let ?m = "snd (request_internal_disarm True (m\<lparr>nd_vehicle_safety_mode := False\<rparr>))"
  have "m\<lparr>nd_panda := nd_panda m, nd_vehicle_safety_mode := False\<rparr> = m\<lparr>nd_vehicle_safety_mode := False\<rparr>" by simp
  with reached_step [OF m free_lost, of "nd_panda m"] have "reached w n ?m" by simp
  then have "reached w n (?m\<lparr>nd_applied_arm := False\<rparr>)" by (blast intro: reached_step free_other step_disarmed)
  then have "reached w n (?m\<lparr>nd_applied_arm := False, nd_latest_health := initial_health\<rparr>)"
    by (blast intro: reached_step free_other step_health)
  then show "wp (sthen (smodify (\<lambda>m. m\<lparr>nd_vehicle_safety_mode := False\<rparr>)) (sthen internal_disarm
      (smodify (\<lambda>m. m\<lparr>nd_applied_arm := False, nd_latest_health := initial_health\<rparr>))))
      (\<lambda>_. reached w n) (\<lambda>_. reached w n) m"
    by (simp add: wp_rules wp_internal_disarm)
qed

lemma keeps_reached_receive: "keeps (reached w n \<circ> fst) (receive_cycle w fuel)"
  unfolding receive_cycle_def receive_try_def receive_frames_def reconnect_def poll_health_def receive_failed_def
  by (intro keeps_reached_loss keeps_reached_session keeps_reached_health keeps_rules keeps_on_node keeps_locals
      keeps_reached_panda keeps_reached_waits keeps_reached_frame)

lemma shut_down_first:
  "n\<lparr>nd_auto_arm_inhibited := True, nd_operator_disarmed := True, nd_button_rearm_takeover := False,
     nd_preserve_command_session := False, nd_command_gap_resume_qualified := False, nd_requested_arm := False,
     nd_arm_request_generation := nd_arm_request_generation n + 1\<rparr> = snd (arm_callback False n)"
  by (simp add: arm_callback_def)

lemma keeps_reached_shut_down: "keeps (reached w n) (shut_down w)"
proof -
  have "keeps (reached w n) (enter_no_output_mode w)" by (rule keeps_reached_step) (rule free_restored)
  then show ?thesis unfolding shut_down_def shut_down_first
    by (intro keeps_rules keeps_reached_panda) (blast intro: reached_step free_other step_arm step_stop)+
qed

text \<open>C24: the control loop relies on no more than what the other threads do. A step of the node is one
  iteration of the control loop, or it is made of the steps the control loop allows for while it does
  not hold the actuation mutex: an iteration of the receive loop with the errors it handles, the
  callbacks and the destructor never leave the rely condition that the other theorems on the control
  loop assume.\<close>

theorem threads_within_rely: "node_step w n m \<Longrightarrow> (\<exists>l. m = snd (control_tick w l n)) \<or> (free_step w)\<^sup>*\<^sup>* n m"
proof (erule node_stepE)
  fix fuel rl assume "m = fst (snd (receive_cycle w fuel (n, rl)))"
  then show ?thesis using keepsD [OF keeps_reached_receive, of w n "(n, rl)" fuel] by simp
next
  assume "m = snd (shut_down w n)"
  then show ?thesis using keepsD [OF keeps_reached_shut_down, of w n n] by simp
next
  fix c t assume "m = command_callback c t n"
  then show ?thesis by (blast intro: free_other step_command)
next
  fix b assume "m = snd (arm_callback b n)"
  then show ?thesis by (blast intro: free_other step_arm)
next
  fix msg assume "m = snd (raw_can_tx_callback w msg n)"
  then show ?thesis by (blast intro: free_raw)
qed blast

theorem threads_within_rely_witness:
  "(\<exists>l. snd (shut_down demo_world demo_node) = snd (control_tick demo_world l demo_node)) \<or>
   (free_step demo_world)\<^sup>*\<^sup>* demo_node (snd (shut_down demo_world demo_node))"
  by (rule threads_within_rely) (rule node_step.shutdown)

section \<open>A disarm that is seen takes effect\<close>

definition disarmed :: "'d node \<Rightarrow> bool" where
  "disarmed n \<longleftrightarrow> \<not> sv_arm_requested (nd_supervisor n) \<and> \<not> nd_applied_arm n"

lemma disarmed_update [simp]:
  "disarmed (n\<lparr>nd_panda := p\<rparr>) = disarmed n" "disarmed (n\<lparr>nd_latest_health := h\<rparr>) = disarmed n"
  "disarmed (n\<lparr>nd_codec := k\<rparr>) = disarmed n" "disarmed (n\<lparr>nd_parser := q\<rparr>) = disarmed n"
  "disarmed (n\<lparr>nd_running := b\<rparr>) = disarmed n" "disarmed (set_tester_present e t n) = disarmed n"
  "disarmed (set_disabled e b n) = disarmed n" "disarmed (bump_epoch n) = disarmed n"
  "disarmed (end_uds_wait n) = disarmed n" "disarmed (drop_raw n) = disarmed n"
  "disarmed (publish_raw_can f n) = disarmed n" "disarmed (observe_control_frame f n) = disarmed n"
  "disarmed (command_callback c t n) = disarmed n" "disarmed (snd (arm_callback b n)) = disarmed n"
  "disarmed (snd (request_internal_disarm b n)) = disarmed n"
  "disarmed (n\<lparr>nd_vehicle_safety_mode := b\<rparr>) = disarmed n"
  by (cases e; simp add: disarmed_def bump_epoch_def end_uds_wait_def drop_raw_def publish_raw_can_def
    observe_control_frame_def note_stock_def deliver_uds_def command_callback_def arm_callback_def
    request_internal_disarm_def Let_def)+

lemma undisturbed_disarmed: "undisturbed disarmed"
  unfolding undisturbed_def
proof (intro conjI allI impI)
  fix n m :: "'a node" assume step: "other_step n m" and n: "disarmed n"
  have "keeps disarmed (process_frame f)" for f
    unfolding process_frame_def by (intro keeps_rules) simp_all
  from step n keepsD [OF this n] show "disarmed m"
    by (cases rule: other_step.cases) (simp_all, simp add: disarmed_def)
qed (simp_all, simp_all add: disarmed_def)

lemma transparent_disarmed: "transparent disarmed"
  unfolding transparent_def restorable_def arming_safe_def
  by (simp add: undisturbed_disarmed) (simp add: disarmed_def)

lemma stable_disarmed: "others_behave w \<Longrightarrow> stable w disarmed"
proof (rule stableI [OF undisturbed_disarmed _ keeps_enter_no_output [OF _ transparent_disarmed]])
  show "keeps disarmed (raw_can_tx_callback w msg)" for msg
    unfolding raw_can_tx_callback_def Let_def
    by (intro keeps_rules keeps_on_panda [OF undisturbed_disarmed]) (simp_all, simp add: disarmed_def)
qed simp_all

lemma keeps_disarmed_supervise: "keeps disarmed (supervise_arm False)"
  by (rule keepsI) (simp add: wp_def supervise_arm_def request_arm_def disarmed_def Let_def)

lemma keeps_disarmed_request: "keeps disarmed internal_disarm"
  by (rule keepsI) (simp add: wp_internal_disarm)

lemma keeps_disarmed_applied: "keeps disarmed (set_applied_arm False)"
  unfolding set_applied_arm_def by (rule keeps_smodify) (simp add: disarmed_def)

lemmas disarmed_rules = keeps_rules keeps_disarmed_supervise keeps_disarmed_request keeps_disarmed_applied
  keeps_clock [OF undisturbed_disarmed] keeps_interfere [OF _ stable_disarmed]
  keeps_enter_no_output [OF _ transparent_disarmed] keeps_retry [OF _ transparent_disarmed stable_disarmed]

lemma keeps_disarmed_apply:
  assumes "others_behave w"
  shows "keeps disarmed (apply_arm w s False l)" "keeps disarmed (arm_failed w)"
  unfolding apply_arm_def arm_failed_def simp_thms if_False by (intro disarmed_rules assms)+

lemma wp_interfere: "wp (interfere w) Q E = (\<lambda>n. Q () (w_yield w n))"
  by (simp add: interfere_def wp_smodify)

lemma apply_disarm_goes_on: "wp (apply_arm w s False l) (\<lambda>x _. x = (True, l)) (\<lambda>_ _. True) n"
  unfolding apply_arm_def simp_thms if_False wp_sbind [of "sgets f" for f] wp_sthen [of "interfere w"] wp_sgets wp_if
  by (auto simp: wp_interfere wp_sthen wp_sret intro!: wp_mono [OF wp_True])

lemma wp_disarm_applied:
  assumes "others_behave w" and "disarmed n"
  shows "wp (sthen (interfere w) (scatch (apply_arm w s False l) (\<lambda>e. sthen (arm_failed w) (sret (True, l)))))
    (\<lambda>x m. x = (True, l) \<and> disarmed m) (\<lambda>_ _. True) n" (is "wp ?rest _ _ _")
proof -
  have failed: "wp (sthen (arm_failed w) (sret (True, l))) (\<lambda>x _. x = (True, l)) (\<lambda>_ _. True) m" for m
    unfolding wp_sthen [of _ "sret x" for x] wp_sret by (rule wp_mono [OF wp_True]) simp_all
  have "wp ?rest (\<lambda>x _. x = (True, l)) (\<lambda>_ _. True) n"
    unfolding wp_sthen [of "interfere w"] wp_scatch wp_interfere
    by (rule wp_mono [OF apply_disarm_goes_on]) (simp_all add: failed)
  moreover have "keeps disarmed ?rest"
    by (intro disarmed_rules keeps_disarmed_apply assms(1))
  from keeps_wp [where P = disarmed, OF this assms(2)] have "wp ?rest (\<lambda>_. disarmed) (\<lambda>_. disarmed) n" .
  ultimately show ?thesis by (rule wp_mono [OF wp_conj]) simp_all
qed

lemma wp_handle_disarm:
  assumes "others_behave w" and "\<not> nd_requested_arm n"
    and "nd_arm_request_generation (w_yield w n) \<noteq> lc_applied_arm_generation l"
  shows "wp (handle_arm_request w s l)
    (\<lambda>x m. x = (True, l\<lparr>lc_applied_arm_generation := nd_arm_request_generation (w_yield w n)\<rparr>) \<and> disarmed m) (\<lambda>_ _. True) n"
proof -
  have arm: "wp (supervise_arm False) (\<lambda>ok m. ok \<and> \<not> sv_arm_requested (nd_supervisor m)) (\<lambda>_ _. True) m" for m :: "'a node"
    by (simp add: wp_def supervise_arm_def request_arm_def Let_def)
  have apply_off: "wp (sthen (set_applied_arm False) k) Q E m = wp k Q E (m\<lparr>nd_applied_arm := False\<rparr>)"
    for k :: "('a node, bool \<times> control_locals) action" and Q E m
    by (simp add: wp_sthen set_applied_arm_def wp_smodify)
  show ?thesis
    unfolding handle_arm_request_def
    using assms(2,3)
    by (simp add: wp_sbind [of "sgets f" for f] wp_sgets wp_sthen [of "interfere w"] wp_interfere
        wp_sbind [of "supervise_arm False"] Let_def cong: if_cong, intro wp_mono [OF arm])
      (auto simp: apply_off disarmed_def [of "n\<lparr>nd_applied_arm := False\<rparr>" for n] intro!: wp_disarm_applied [OF assms(1)])
qed

text \<open>C6: a disarm the control loop has seen takes effect at once. When the request it loads is off and the
  generation it loads is new, then whatever the other threads do, and whether or not the ECUs come
  back, the handling returns and the iteration goes on with the request taken out of the supervisor
  and the applied flag off; and in every state the other threads can make of the result before the
  supervisor decides, its decision allows neither channel.\<close>

theorem disarm_takes_effect:
  assumes "others_behave w" and "\<not> nd_requested_arm n"
    and "nd_arm_request_generation (w_yield w n) \<noteq> lc_applied_arm_generation l"
  shows "\<exists>l' m. handle_arm_request w s l n = (Inr (True, l'), m) \<and>
    lc_applied_arm_generation l' = nd_arm_request_generation (w_yield w n) \<and>
    (\<forall>k d k'. (free_step w)\<^sup>*\<^sup>* m k \<and> supervise s k = (Inr d, k') \<longrightarrow>
       \<not> sv_arm_requested (nd_supervisor k') \<and> \<not> nd_applied_arm k' \<and>
       \<not> sd_lateral_allowed d \<and> \<not> sd_longitudinal_allowed d)"
proof -
  obtain x m where x: "handle_arm_request w s l n = (Inr x, m)"
    using quietD [of "handle_arm_request w s l" n] by (cases "handle_arm_request w s l n") (auto simp: is_Inr_iff quiet_stages)
  with wp_handle_disarm [OF assms, of s] have m: "x = (True, l\<lparr>lc_applied_arm_generation := nd_arm_request_generation (w_yield w n)\<rparr>)"
    "disarmed m" by (auto simp: wp_def)
  have "\<not> sv_arm_requested (nd_supervisor k') \<and> \<not> nd_applied_arm k' \<and> withheld d"
    if k: "reached w m k" and d: "supervise s k = (Inr d, k')" for k d k'
  proof -
    have "disarmed k" by (rule stable_steps [OF k stable_disarmed [OF assms(1)] m(2)])
    then have off: "\<not> sv_arm_requested (nd_supervisor k)" and "\<not> nd_applied_arm k" by (simp_all add: disarmed_def)
    moreover obtain t where t: "update (nc_safety (nd_config k)) (sm_now s) (sm_vehicle s) (sm_health s) (sm_command s)
        (nd_supervisor k) = (t, d)" "k' = k\<lparr>nd_supervisor := t\<rparr>"
      using d by (auto simp: supervise_def split: prod.splits)
    ultimately show ?thesis using update_disarmed(1,2) [OF off t(1)] by (simp add: idle_def)
  qed
  with x m(1) show ?thesis by auto
qed

text \<open>An armed node, with the listener of its command session running.\<close>

definition armed_demo :: "demo node" where
  "armed_demo = demo_node
     \<lparr>nd_config := demo_config\<lparr>nc_safety := (nc_safety demo_config)\<lparr>sc_resume_on_command_return := True\<rparr>\<rparr>,
      nd_panda := (nd_panda demo_node)\<lparr>pu_ready := True\<rparr>, nd_vehicle_safety_mode := True,
      nd_supervisor := (nd_supervisor demo_node)\<lparr>sv_arm_requested := True, sv_state := Active\<rparr>,
      nd_requested_arm := True, nd_applied_arm := True, nd_arm_request_generation := 1\<rparr>"

definition armed_locals :: control_locals where
  "armed_locals = (start_control demo_config 0 0)\<lparr>lc_applied_arm_generation := 1\<rparr>"

definition armed_sample :: sample where
  "armed_sample = make_sample 10000000 0 empty_command (initial_health\<lparr>ph_command_session_active := True\<rparr>) initial_vehicle"

theorem disarm_takes_effect_witness:
  "\<exists>l' m. handle_arm_request demo_world armed_sample armed_locals (snd (arm_callback False armed_demo)) = (Inr (True, l'), m) \<and>
     lc_applied_arm_generation l' = 2 \<and> (\<forall>k d k'. (free_step demo_world)\<^sup>*\<^sup>* m k \<and> supervise armed_sample k = (Inr d, k') \<longrightarrow>
       \<not> sd_lateral_allowed d)"
proof -
  let ?n = "snd (arm_callback False armed_demo)"
  have "\<not> nd_requested_arm ?n" and gen: "nd_arm_request_generation (w_yield demo_world ?n) = 2"
    by (simp_all add: arm_callback_def armed_demo_def demo_world_def)
  moreover have "lc_applied_arm_generation armed_locals \<noteq> 2" by (simp add: armed_locals_def)
  ultimately show ?thesis using disarm_takes_effect [OF demo_others, of ?n armed_locals armed_sample] by (simp add: gen) blast
qed

section \<open>A disarm between two loads\<close>

text \<open>The operator disarms as soon as an arm request stands: one of the ROS callbacks, at the next point the
  control loop is interrupted at.\<close>

definition operator_disarms :: "'d node \<Rightarrow> 'd node" where
  "operator_disarms n = (if nd_requested_arm n then snd (arm_callback False n) else n)"

lemma operator_behaves:
  assumes "others_behave w"
  shows "others_behave (w\<lparr>w_yield := operator_disarms\<rparr>)"
proof -
  have "free_step (w\<lparr>w_yield := operator_disarms\<rparr>) n (snd (arm_callback False n))" for n
    by (intro free_other step_arm)
  with assms show ?thesis by (auto simp: others_behave_def operator_disarms_def)
qed

text \<open>C7: the request of the operator and its generation are two loads (lines 553 and 554), and a disarm
  between them is lost. On an armed node with a running command session, let \<open>set_armed false\<close> arrive
  between the two. The control loop then arms again under the generation of the disarm: the
  operator's flags say disarmed, the supervisor and the applied flag stay armed, and every later
  handling finds no new generation and leaves it at that.\<close>

theorem disarm_between_loads_is_lost:
  assumes "w_yield w = operator_disarms" and "nd_requested_arm n" and "is_connected n"
    and "sc_allow_actuation (nc_safety (nd_config n))" and "sc_resume_on_command_return (nc_safety (nd_config n))"
    and "ph_command_session_active (sm_health s)" and "lc_applied_arm_generation l = nd_arm_request_generation n"
  shows "\<exists>l' m. handle_arm_request w s l n = (Inr (True, l'), m) \<and>
    nd_operator_disarmed m \<and> \<not> nd_requested_arm m \<and> sv_arm_requested (nd_supervisor m) \<and> nd_applied_arm m \<and>
    (\<forall>s'. handle_arm_request w s' l' m = (Inr (True, l'), m))"
proof -
  define k where "k = snd (arm_callback False n)"
  have k: "nd_arm_request_generation k \<noteq> lc_applied_arm_generation l" "nd_config k = nd_config n" "is_connected k"
    "operator_disarms n = k" "\<not> nd_requested_arm k" "nd_operator_disarmed k"
    using assms by (simp_all add: k_def arm_callback_def operator_disarms_def is_connected_def)
  obtain t where t: "request_arm (nc_safety (nd_config k)) True (nd_supervisor k) = (True, t)" "sv_arm_requested t"
    using assms(4) k(2) by (simp add: request_arm_def Let_def)
  define m where "m = k\<lparr>nd_supervisor := t, nd_applied_arm := True\<rparr>"
  have m: "operator_disarms m = m" "is_connected m" "nd_config m = nd_config n"
    using k by (simp_all add: m_def operator_disarms_def is_connected_def)
  note actions = sbind_def sthen_def sgets_def smodify_def sret_def scatch_def interfere_def assms(1)
  let ?l = "l\<lparr>lc_applied_arm_generation := nd_arm_request_generation k\<rparr>"
  have "apply_arm w s True ?l m = (Inr (True, ?l), m)"
    using assms(5,6) m by (simp add: apply_arm_def actions)
  moreover have "set_applied_arm True (k\<lparr>nd_supervisor := t\<rparr>) = (Inr (), m)"
    by (simp add: set_applied_arm_def smodify_def m_def)
  ultimately have "handle_arm_request w s l n = (Inr (True, ?l), m)"
    using k t m assms(2) by (simp add: handle_arm_request_def actions supervise_arm_def Let_def)
  moreover have "handle_arm_request w s' ?l m = (Inr (True, ?l), m)" for s'
    using m by (simp add: handle_arm_request_def actions m_def)
  moreover have "nd_operator_disarmed m \<and> \<not> nd_requested_arm m \<and> sv_arm_requested (nd_supervisor m) \<and> nd_applied_arm m"
    using k t by (simp add: m_def)
  ultimately show ?thesis by blast
qed

theorem disarm_between_loads_is_lost_witness:
  "others_behave (demo_world\<lparr>w_yield := operator_disarms\<rparr>) \<and>
   (\<exists>l' m. handle_arm_request (demo_world\<lparr>w_yield := operator_disarms\<rparr>) armed_sample armed_locals armed_demo = (Inr (True, l'), m) \<and>
     nd_operator_disarmed m \<and> sv_arm_requested (nd_supervisor m))"
proof -
  let ?w = "demo_world\<lparr>w_yield := operator_disarms\<rparr>"
  have "\<exists>l' m. handle_arm_request ?w armed_sample armed_locals armed_demo = (Inr (True, l'), m) \<and>
      nd_operator_disarmed m \<and> \<not> nd_requested_arm m \<and> sv_arm_requested (nd_supervisor m) \<and> nd_applied_arm m \<and>
      (\<forall>s'. handle_arm_request ?w s' l' m = (Inr (True, l'), m))"
    by (rule disarm_between_loads_is_lost)
      (simp_all add: armed_demo_def armed_locals_def armed_sample_def make_sample_def is_connected_def connected_def demo_config_defs Let_def)
  then show ?thesis using operator_behaves [OF demo_others] by blast
qed

text \<open>The automatic request has the same gap: a disarm between its check and its store is overwritten.\<close>

lemma auto_arm_overrides_disarm:
  assumes "auto_arm_ready s n" and "w_yield w n = snd (arm_callback False n)"
  shows "\<exists>m. auto_arm w s n = (Inr (), m) \<and> nd_operator_disarmed m \<and> nd_requested_arm m \<and>
    nd_arm_request_generation m = nd_arm_request_generation n + 2"
  using assms
  by (simp add: auto_arm_def raise_request_def arm_callback_def interfere_def sbind_def sthen_def sgets_def smodify_def swhen_def)

end
